(* ===== verification/Cdc_Prelude.thy ===== *)
theory Cdc_Prelude
  imports Main "HOL-Library.Word"
begin

text \<open>
  Shared vocabulary of the development: the lemma collections, the result type of code that
  may throw, and generic facts on lists, options and characters that several components use.
\<close>

section \<open>Lemma collections\<close>

named_theorems cdc_defs \<open>definitions of straight-line code, unfolded by the component proofs\<close>
named_theorems frame \<open>which parts of the state an operation leaves alone\<close>

section \<open>Results of code that may throw\<close>

text \<open>
  \<open>Inl what\<close> is a thrown \<open>std::exception\<close> (or a raised Python exception) with its message,
  \<open>Inr a\<close> a normal return.
\<close>

type_synonym 'a result = "string + 'a"
type_synonym i64 = "64 word"

abbreviation succeeded :: "'a result \<Rightarrow> bool" where
  "succeeded r \<equiv> (case r of Inl _ \<Rightarrow> False | Inr _ \<Rightarrow> True)"

section \<open>Strings\<close>

definition ends_with :: "'a list \<Rightarrow> 'a list \<Rightarrow> bool" where
  "ends_with s suf \<longleftrightarrow> (length suf \<le> length s \<and> drop (length s - length suf) s = suf)"

lemma ends_with_append [simp]: "ends_with (s @ suf) suf"
  by (simp add: ends_with_def)

lemma ends_withE:
  assumes "ends_with s suf"
  obtains p where "s = p @ suf"
proof -
  from assms have "s = take (length s - length suf) s @ suf"
    by (simp add: ends_with_def) (metis append_take_drop_id)
  then show thesis by (rule that)
qed

lemma ends_with_iff: "ends_with s suf \<longleftrightarrow> (\<exists>p. s = p @ suf)"
  by (auto elim: ends_withE)

section \<open>Lists\<close>

lemma map_of_filter_ne: "k \<noteq> k' \<Longrightarrow> map_of (filter (\<lambda>p. fst p \<noteq> k') xs) k = map_of xs k"
  by (induction xs) auto

lemma filter_le_one_if_distinct:
  "distinct xs \<Longrightarrow> length (filter (\<lambda>x. x = a) xs) \<le> 1"
  by (induction xs) (auto simp: filter_empty_conv)

lemma last_n_length: "length (drop (length xs - n) xs) = min n (length xs)"
  by simp

lemma zip_take_left: "length ys \<le> n \<Longrightarrow> zip (take n xs) ys = zip xs ys"
proof -
  assume "length ys \<le> n"
  then have "take n (zip xs ys) = zip xs ys" "take n ys = ys" by simp_all
  then show ?thesis by (simp add: take_zip)
qed

lemma list_all_mono: "list_all P xs \<Longrightarrow> (\<And>x. P x \<Longrightarrow> Q x) \<Longrightarrow> list_all Q xs"
  by (simp add: list_all_iff)

end
