(* ===== verification/Decimal_Text.thy ===== *)
theory Decimal_Text
  imports Cdc_Prelude
begin

text \<open>
  Decimal text of integers: what \<open>std::to_string\<close>, Python's \<open>str\<close> of an int and JSON
  numbers print, a scanner for runs of digits, and C++'s \<open>std::stoll\<close>. The main facts are
  the round trips.
\<close>

section \<open>Printing\<close>

definition digit_char :: "nat \<Rightarrow> char" where
  "digit_char d = char_of (48 + d)"

fun show_nat :: "nat \<Rightarrow> string" where
  "show_nat n = (if n < 10 then [digit_char n] else show_nat (n div 10) @ [digit_char (n mod 10)])"

declare show_nat.simps [simp del]

definition show_int :: "int \<Rightarrow> string" where
  "show_int i = (if i < 0 then CHR ''-'' # show_nat (nat (- i)) else show_nat (nat i))"

section \<open>Scanning\<close>

definition is_digit :: "char \<Rightarrow> bool" where
  "is_digit c \<longleftrightarrow> 48 \<le> (of_char c :: nat) \<and> (of_char c :: nat) \<le> 57"

definition digit_val :: "char \<Rightarrow> nat" where
  "digit_val c = of_char c - 48"

fun scan_nat :: "nat \<Rightarrow> string \<Rightarrow> nat \<times> string" where
  "scan_nat acc [] = (acc, [])"
| "scan_nat acc (c # cs) =
     (if is_digit c then scan_nat (10 * acc + digit_val c) cs else (acc, c # cs))"

lemma is_digit_digit_char [simp]: "d < 10 \<Longrightarrow> is_digit (digit_char d)"
  by (simp add: is_digit_def digit_char_def)

lemma digit_val_digit_char [simp]: "d < 10 \<Longrightarrow> digit_val (digit_char d) = d"
  by (simp add: digit_val_def digit_char_def)

lemma show_nat_digits: "c \<in> set (show_nat n) \<Longrightarrow> is_digit c"
proof (induction n rule: show_nat.induct)
  case (1 n)
  then show ?case
    by (subst (asm) (2) show_nat.simps) (auto split: if_splits)
qed

lemma show_nat_nonempty [simp]: "show_nat n \<noteq> []"
  by (subst show_nat.simps) simp

lemma show_nat_Cons: "\<exists>d ds. show_nat n = d # ds \<and> is_digit d"
  by (metis list.exhaust list.set_intros(1) show_nat_digits show_nat_nonempty)

lemma scan_nat_append:
  "scan_nat acc (show_nat n @ rest) = scan_nat (acc * 10 ^ length (show_nat n) + n) rest"
proof (induction n arbitrary: acc rest rule: show_nat.induct)
  case (1 n)
  show ?case
  proof (cases "n < 10")
    case True
    then show ?thesis by (subst (1 2) show_nat.simps) (simp add: mult.commute)
  next
    case False
    have eq: "show_nat n = show_nat (n div 10) @ [digit_char (n mod 10)]"
      using False by (subst show_nat.simps) simp
    have "scan_nat acc (show_nat n @ rest)
        = scan_nat (10 * (acc * 10 ^ length (show_nat (n div 10)) + n div 10) + n mod 10) rest"
      unfolding eq using "1.IH" [OF False] by simp
    also have "10 * (acc * 10 ^ length (show_nat (n div 10)) + n div 10) + n mod 10
        = acc * 10 ^ length (show_nat n) + n"
      unfolding eq by (simp add: algebra_simps)
    finally show ?thesis .
  qed
qed

definition stops :: "string \<Rightarrow> bool" where
  "stops rest \<longleftrightarrow> (case rest of [] \<Rightarrow> True | c # _ \<Rightarrow> \<not> is_digit c)"

lemma scan_nat_stops [simp]: "stops rest \<Longrightarrow> scan_nat acc rest = (acc, rest)"
  by (cases rest) (auto simp: stops_def)

lemma scan_show_nat: "stops rest \<Longrightarrow> scan_nat 0 (show_nat n @ rest) = (n, rest)"
  by (simp add: scan_nat_append)

lemma scan_show_nat_end [simp]: "scan_nat 0 (show_nat n) = (n, [])"
  using scan_show_nat [of "[]" n] by (simp add: stops_def)

lemma show_nat_inj: "show_nat m = show_nat n \<Longrightarrow> m = n"
  by (metis fst_conv scan_show_nat_end)

lemma not_digit_minus [simp]: "\<not> is_digit (CHR ''-'')" "\<not> is_digit (CHR ''+'')"
  by (simp_all add: is_digit_def)

lemma show_nat_not_minus: "show_nat n \<noteq> CHR ''-'' # ds"
proof
  assume a: "show_nat n = CHR ''-'' # ds"
  have "is_digit CHR ''-''" by (rule show_nat_digits [of _ n]) (simp add: a)
  then show False by simp
qed

lemma show_int_inj: "show_int i = show_int j \<Longrightarrow> i = j"
  using show_nat_not_minus show_nat_not_minus [symmetric]
  by (auto simp: show_int_def dest!: show_nat_inj split: if_splits)

section \<open>std::stoll\<close>

definition is_space :: "char \<Rightarrow> bool" where
  "is_space c \<longleftrightarrow> (of_char c :: nat) \<in> {9, 10, 11, 12, 13, 32}"

definition i64_min :: int where "i64_min = - (2 ^ 63)"
definition i64_max :: int where "i64_max = 2 ^ 63 - 1"

text \<open>
  \<open>std::stoll(s)\<close>: leading white space, an optional sign, at least one digit (else
  \<open>std::invalid_argument\<close>), a value in the range of \<open>long long\<close> (else
  \<open>std::out_of_range\<close>); what follows the digits is ignored. \<open>None\<close> is a throw.
\<close>

definition stoll_digits :: "bool \<Rightarrow> string \<Rightarrow> i64 option" where
  "stoll_digits neg s =
     (case s of
        [] \<Rightarrow> None
      | c # _ \<Rightarrow>
          if is_digit c then
            (let n = int (fst (scan_nat 0 s)); v = (if neg then - n else n)
             in if i64_min \<le> v \<and> v \<le> i64_max then Some (word_of_int v) else None)
          else None)"

definition stoll :: "string \<Rightarrow> i64 option" where
  "stoll s =
     (case dropWhile is_space s of
        [] \<Rightarrow> None
      | c # cs \<Rightarrow>
          if c = CHR ''-'' then stoll_digits True cs
          else if c = CHR ''+'' then stoll_digits False cs
          else stoll_digits False (c # cs))"

text \<open>\<open>std::to_string\<close> of an \<open>int64_t\<close>.\<close>

definition to_string :: "i64 \<Rightarrow> string" where
  "to_string w = show_int (sint w)"

lemma sint_i64_range: "i64_min \<le> sint (w :: i64) \<and> sint w \<le> i64_max"
  using sint_range_size [of w] by (simp add: i64_min_def i64_max_def word_size)

lemma stoll_digits_show:
  assumes "i64_min \<le> (if neg then - int n else int n)" "(if neg then - int n else int n) \<le> i64_max"
  shows "stoll_digits neg (show_nat n) = Some (word_of_int (if neg then - int n else int n))"
proof -
  obtain d ds where "show_nat n = d # ds" "is_digit d" using show_nat_Cons by blast
  moreover have "scan_nat 0 (d # ds) = (n, [])"
    using scan_show_nat_end [of n] calculation(1) by simp
  ultimately show ?thesis using assms by (auto simp: stoll_digits_def Let_def)
qed

lemma digit_not_space: "is_digit c \<Longrightarrow> \<not> is_space c"
  by (auto simp: is_digit_def is_space_def)

lemma stoll_show_nat: "stoll (show_nat n) = stoll_digits False (show_nat n)"
proof -
  obtain d ds where d: "show_nat n = d # ds" "is_digit d" using show_nat_Cons by blast
  then have "d \<noteq> CHR ''-''" "d \<noteq> CHR ''+''" by auto
  with d show ?thesis by (simp add: stoll_def digit_not_space)
qed

lemma stoll_minus: "stoll (CHR ''-'' # s) = stoll_digits True s"
  by (simp add: stoll_def is_space_def)

lemma stoll_to_string [simp]: "stoll (to_string w) = Some w"
proof (cases "sint w < 0")
  case True
  then have "stoll (to_string w) = stoll_digits True (show_nat (nat (- sint w)))"
    by (simp add: to_string_def show_int_def stoll_minus)
  also have "\<dots> = Some (word_of_int (sint w))"
    using stoll_digits_show [of True "nat (- sint w)"] sint_i64_range [of w] True by simp
  finally show ?thesis by simp
next
  case False
  then have "stoll (to_string w) = stoll_digits False (show_nat (nat (sint w)))"
    by (simp add: to_string_def show_int_def stoll_show_nat)
  also have "\<dots> = Some (word_of_int (sint w))"
    using stoll_digits_show [of False "nat (sint w)"] sint_i64_range [of w] False by simp
  finally show ?thesis by simp
qed

lemma to_string_inj: "to_string v = to_string w \<longleftrightarrow> v = w"
  by (metis option.inject stoll_to_string)

end
