(* ===== verification/Cpp_Json.thy ===== *)
theory Cpp_Json
  imports Decimal_Text Complex_Main
begin

text \<open>
  The JSON documents the C++ services pass around (\<open>nlohmann::json\<close>) and the accessors they
  use. The document type and its queries are data; printing, the conversion of out-of-range
  doubles and the texts of the library's exceptions belong to code outside the repository and
  are fields of the environment \<open>cpp_env\<close>, an argument of every definition that needs them.
\<close>

section \<open>Documents\<close>

text \<open>
  \<open>JInt\<close> covers the library's signed and unsigned 64-bit numbers, \<open>JDouble\<close> its floating
  point numbers (a finite double is a rational). An object lists its members in the library's
  iteration order.
\<close>

datatype json =
    JNull
  | JBool bool
  | JInt int
  | JDouble rat
  | JStr string
  | JArr "json list"
  | JObj "(string \<times> json) list"

definition is_null :: "json \<Rightarrow> bool" where
  "is_null j \<longleftrightarrow> (case j of JNull \<Rightarrow> True | _ \<Rightarrow> False)"

definition is_object :: "json \<Rightarrow> bool" where
  "is_object j \<longleftrightarrow> (case j of JObj _ \<Rightarrow> True | _ \<Rightarrow> False)"

definition is_number :: "json \<Rightarrow> bool" where
  "is_number j \<longleftrightarrow> (case j of JInt _ \<Rightarrow> True | JDouble _ \<Rightarrow> True | _ \<Rightarrow> False)"

definition member_of :: "json \<Rightarrow> string \<Rightarrow> json option" where
  "member_of j k = (case j of JObj ms \<Rightarrow> map_of ms k | _ \<Rightarrow> None)"

definition contains :: "json \<Rightarrow> string \<Rightarrow> bool" where
  "contains j k \<longleftrightarrow> member_of j k \<noteq> None"

text \<open>\<open>j[k]\<close>; the code reads it only after \<open>contains(k)\<close>.\<close>

definition at_key :: "json \<Rightarrow> string \<Rightarrow> json" where
  "at_key j k = (case member_of j k of Some v \<Rightarrow> v | None \<Rightarrow> JNull)"

definition object_size :: "json \<Rightarrow> nat" where
  "object_size j = (case j of JObj ms \<Rightarrow> length ms | _ \<Rightarrow> 0)"

text \<open>\<open>j.begin().value()\<close> of an object; read only when the size is 1.\<close>

definition first_value :: "json \<Rightarrow> json" where
  "first_value j = (case j of JObj (m # _) \<Rightarrow> snd m | _ \<Rightarrow> JNull)"

definition has_value :: "json \<Rightarrow> string \<Rightarrow> bool" where
  "has_value j k \<longleftrightarrow> contains j k \<and> \<not> is_null (at_key j k)"

lemma has_value_iff: "has_value j k \<longleftrightarrow> (\<exists>v. member_of j k = Some v \<and> v \<noteq> JNull)"
  by (auto simp: has_value_def contains_def at_key_def is_null_def split: json.splits option.splits)

lemma member_of_JObj [simp]: "member_of (JObj ms) k = map_of ms k"
  by (simp add: member_of_def)

lemma member_of_non_object: "\<not> is_object j \<Longrightarrow> member_of j k = None"
  by (auto simp: member_of_def is_object_def split: json.splits)

section \<open>Library code outside the repository\<close>

text \<open>
  \<open>dump\<close> prints a document and may throw (\<open>type_error.316\<close>, a string that is not UTF-8);
  \<open>type_error\<close> is the message of the library's type errors, by number and offending document;
  \<open>double_overflow\<close> is what a double outside the range of \<open>int64_t\<close> converts to (undefined in
  C++, some value of the type); \<open>lua_number\<close> is Lua's \<open>tonumber\<close> on text that is not a plain
  decimal integer.
\<close>

record cpp_env =
  dump :: "json \<Rightarrow> string result"
  type_error :: "nat \<Rightarrow> json \<Rightarrow> string"
  double_overflow :: "rat \<Rightarrow> i64"
  lua_number :: "string \<Rightarrow> rat option"

text \<open>An environment for the witnesses: strings print as themselves, anything else as \<open>{}\<close>.\<close>

definition sample_env :: cpp_env where
  "sample_env =
     \<lparr>dump = (\<lambda>j. Inr (case j of JStr s \<Rightarrow> s | _ \<Rightarrow> ''{}'')), type_error = (\<lambda>n j. ''type_error''),
      double_overflow = (\<lambda>r. 0), lua_number = (\<lambda>s. None)\<rparr>"

section \<open>Typed reads\<close>

definition truncate_rat :: "rat \<Rightarrow> int" where
  "truncate_rat r = (if 0 \<le> r then \<lfloor>r\<rfloor> else \<lceil>r\<rceil>)"

text \<open>\<open>get<int64_t>()\<close> of a number: unsigned values wrap, doubles are truncated.\<close>

definition get_int64 :: "cpp_env \<Rightarrow> json \<Rightarrow> i64" where
  "get_int64 env j =
     (case j of
        JInt i \<Rightarrow> word_of_int i
      | JDouble r \<Rightarrow>
          if i64_min \<le> truncate_rat r \<and> truncate_rat r \<le> i64_max
          then word_of_int (truncate_rat r) else double_overflow env r
      | _ \<Rightarrow> 0)"

text \<open>\<open>j.is_string() ? j.get<std::string>() : j.dump()\<close>\<close>

definition text_of :: "cpp_env \<Rightarrow> json \<Rightarrow> string result" where
  "text_of env j = (case j of JStr s \<Rightarrow> Inr s | _ \<Rightarrow> dump env j)"

text \<open>\<open>j.value(k, dflt)\<close> with a string default: a member of another type throws.\<close>

definition value_string :: "cpp_env \<Rightarrow> json \<Rightarrow> string \<Rightarrow> string \<Rightarrow> string result" where
  "value_string env j k dflt =
     (if is_object j then
        (case member_of j k of
           None \<Rightarrow> Inr dflt
         | Some (JStr s) \<Rightarrow> Inr s
         | Some v \<Rightarrow> Inl (type_error env 302 v))
      else Inl (type_error env 306 j))"

lemma value_string_str [simp]:
  "member_of j k = Some (JStr s) \<Longrightarrow> value_string env j k d = Inr s"
  by (auto simp: value_string_def member_of_def is_object_def split: json.splits)

end
