(* ===== verification/Avro_Deserializer.thy ===== *)
theory Avro_Deserializer
  imports Cpp_Json
begin

text \<open>
  \<open>AvroDeserializer::Deserialize\<close> (\<open>consumers/src/avro_deserializer.cpp\<close>): a payload in the
  Confluent wire format goes through libserdes and a conversion to JSON text, any other payload
  is parsed as JSON text. libserdes, the Avro library and the JSON parser are parameters.
\<close>

record 'v avro_env =
  serdes_decode :: "string \<Rightarrow> 'v option"
  avro_to_json :: "'v \<Rightarrow> string option"
  json_parse :: "string \<Rightarrow> json option"

text \<open>At least five bytes, the first of them the magic byte 0.\<close>

definition wire_format :: "string \<Rightarrow> bool" where
  "wire_format bytes \<longleftrightarrow> 5 \<le> length bytes \<and> bytes ! 0 = CHR 0x00"

text \<open>
  In the wire-format branch a JSON text that does not parse is logged and swallowed: the result
  is the default-constructed document, null, and not \<open>std::nullopt\<close>.
\<close>

definition deserialize :: "'v avro_env \<Rightarrow> string \<Rightarrow> json option" where
  "deserialize av payload =
     (if payload = [] then None
      else if wire_format payload then
        (case serdes_decode av payload of
           None \<Rightarrow> None
         | Some v \<Rightarrow>
             (case avro_to_json av v of
                None \<Rightarrow> None
              | Some text \<Rightarrow> (case json_parse av text of Some doc \<Rightarrow> Some doc | None \<Rightarrow> Some JNull)))
      else json_parse av payload)"

lemma deserialize_tombstone [simp]: "deserialize av [] = None"
  by (simp add: deserialize_def)

end
