(* ===== verification/Order_Event.thy ===== *)
theory Order_Event
  imports Cpp_Json
begin

text \<open>
  How a consumer reads a change event: which document of the Debezium envelope holds the order,
  the removal of Avro union wrappers, the order's identifier, and its log sequence number. The
  three sinks (\<open>redis_updater.cpp\<close>, \<open>es_indexer.cpp\<close>, \<open>notifier.cpp\<close>) repeat this code word for
  word; the definitions here are shared by their models.
\<close>

section \<open>Selecting the order document\<close>

text \<open>
  An envelope with a non-null \<open>after\<close> (insert, update, snapshot) or a bare order document is an
  upsert; an envelope with \<open>op = "d"\<close> and a non-null \<open>prior\<close> is a delete; anything else carries
  no order.
\<close>

datatype change = Upsert json | Delete json | Unrelated

definition classify :: "json \<Rightarrow> change" where
  "classify record =
     (if contains record ''after'' \<and> \<not> is_null (at_key record ''after'')
      then Upsert (at_key record ''after'')
      else if contains record ''order_id'' \<or> contains record ''id''
      then Upsert record
      else if contains record ''op'' \<and> at_key record ''op'' = JStr ''d''
              \<and> contains record ''before'' \<and> \<not> is_null (at_key record ''before'')
      then Delete (at_key record ''before'')
      else Unrelated)"

text \<open>
  A union branch may be wrapped: under the key \<open>Value\<close>, or as the only member of an object
  that has no \<open>id\<close>.
\<close>

definition unwrap :: "json \<Rightarrow> json" where
  "unwrap data =
     (if is_object data then
        (if contains data ''Value'' \<and> is_object (at_key data ''Value'') then at_key data ''Value''
         else if object_size data = 1 \<and> is_object (first_value data) \<and> \<not> contains data ''id''
         then first_value data
         else data)
      else data)"

definition document_id :: "cpp_env \<Rightarrow> json \<Rightarrow> string result" where
  "document_id env data =
     (if contains data ''id'' \<and> \<not> is_null (at_key data ''id'') then text_of env (at_key data ''id'')
      else if contains data ''order_id'' \<and> \<not> is_null (at_key data ''order_id'')
      then text_of env (at_key data ''order_id'')
      else Inr [])"

text \<open>The identifier of the order, falling back to the Kafka message key.\<close>

definition order_id_of :: "cpp_env \<Rightarrow> json \<Rightarrow> string \<Rightarrow> string result" where
  "order_id_of env data key =
     (case document_id env data of
        Inl e \<Rightarrow> Inl e
      | Inr order_id \<Rightarrow> Inr (if order_id = [] then key else order_id))"

section \<open>The log sequence number\<close>

text \<open>The loop over the members of an \<open>lsn\<close> object: the first number or parsable string.\<close>

fun lsn_of_members :: "cpp_env \<Rightarrow> (string \<times> json) list \<Rightarrow> i64 option" where
  "lsn_of_members env [] = None"
| "lsn_of_members env ((k, v) # ms) =
     (if is_number v then Some (get_int64 env v)
      else case v of
          JStr s \<Rightarrow> (case stoll s of Some n \<Rightarrow> Some n | None \<Rightarrow> lsn_of_members env ms)
        | _ \<Rightarrow> lsn_of_members env ms)"

definition lsn_field :: "cpp_env \<Rightarrow> json \<Rightarrow> i64 option" where
  "lsn_field env src =
     (if contains src ''lsn'' \<and> \<not> is_null (at_key src ''lsn'') then
        (let l = at_key src ''lsn'' in
         if is_number l then Some (get_int64 env l)
         else case l of
             JStr s \<Rightarrow> stoll s
           | JObj ms \<Rightarrow> lsn_of_members env ms
           | _ \<Rightarrow> None)
      else None)"

definition ts_ms_field :: "cpp_env \<Rightarrow> json \<Rightarrow> i64 option" where
  "ts_ms_field env j =
     (if contains j ''ts_ms'' \<and> is_number (at_key j ''ts_ms'')
      then Some (get_int64 env (at_key j ''ts_ms'')) else None)"

definition extract_lsn :: "cpp_env \<Rightarrow> json \<Rightarrow> i64" where
  "extract_lsn env record =
     (let own = (case ts_ms_field env record of Some t \<Rightarrow> t | None \<Rightarrow> 0) in
      if contains record ''source'' \<and> is_object (at_key record ''source'') then
        (let src = at_key record ''source'' in
         case lsn_field env src of
           Some n \<Rightarrow> n
         | None \<Rightarrow> (case ts_ms_field env src of Some t \<Rightarrow> t | None \<Rightarrow> own))
      else own)"

section \<open>Facts\<close>

lemma order_id_of_data:
  "document_id env data = Inr i \<Longrightarrow> i \<noteq> [] \<Longrightarrow> order_id_of env data key = Inr i"
  by (simp add: order_id_of_def)

lemma document_id_str:
  "member_of data ''id'' = Some (JStr i) \<Longrightarrow> document_id env data = Inr i"
  by (simp add: document_id_def contains_def at_key_def is_null_def text_of_def)

lemma unwrap_plain: "contains data ''id'' \<Longrightarrow> \<not> contains data ''Value'' \<Longrightarrow> unwrap data = data"
  by (simp add: unwrap_def)

lemma unwrap_union_branch:
  "is_object v \<Longrightarrow> k \<noteq> ''id'' \<Longrightarrow> unwrap (JObj [(k, v)]) = v"
  by (simp add: unwrap_def is_object_def contains_def at_key_def object_size_def first_value_def
      split: json.splits)

lemma lsn_direct:
  assumes "member_of record ''source'' = Some (JObj ms)" "map_of ms ''lsn'' = Some (JInt n)"
  shows "extract_lsn env record = word_of_int n"
  using assms
  by (simp add: extract_lsn_def lsn_field_def contains_def at_key_def is_object_def is_null_def
      is_number_def get_int64_def)

end
