(* ===== verification/Double_Rounding.thy ===== *)
theory Double_Rounding
  imports Cdc_Prelude
begin

text \<open>
  Conversion of integers to IEEE binary64 with round-half-even, as the Lua interpreter inside
  Redis performs it on log sequence numbers. Only magnitudes far below the overflow threshold
  occur, so the exponent is unbounded. The facts used elsewhere: the rounding is exact up to
  \<open>2 ^ 53\<close> and monotone everywhere.
\<close>

fun bit_length :: "nat \<Rightarrow> nat" where
  "bit_length n = (if n = 0 then 0 else Suc (bit_length (n div 2)))"

declare bit_length.simps [simp del]

lemma bit_length_0 [simp]: "bit_length 0 = 0"
  by (subst bit_length.simps) simp

lemma bit_length_upper: "n < 2 ^ bit_length n"
proof (induction n rule: bit_length.induct)
  case (1 n)
  show ?case
  proof (cases "n = 0")
    case False
    then have "n div 2 < 2 ^ bit_length (n div 2)" using "1.IH" by simp
    then have "n < 2 * 2 ^ bit_length (n div 2)" by linarith
    with False show ?thesis by (simp add: bit_length.simps [of n])
  qed simp
qed

lemma bit_length_lower: "n \<noteq> 0 \<Longrightarrow> 2 ^ (bit_length n - 1) \<le> n"
proof (induction n rule: bit_length.induct)
  case (1 n)
  show ?case
  proof (cases "n div 2 = 0")
    case True
    with "1.prems" show ?thesis by (simp add: bit_length.simps [of n])
  next
    case False
    then have "2 ^ (bit_length (n div 2) - 1) \<le> n div 2" using "1.IH" "1.prems" by simp
    moreover have "bit_length (n div 2) \<noteq> 0" using False by (subst bit_length.simps) simp
    ultimately have "2 ^ bit_length (n div 2) \<le> n div 2 * 2"
      by (cases "bit_length (n div 2)") auto
    then have "2 ^ bit_length (n div 2) \<le> n" by linarith
    with "1.prems" show ?thesis by (simp add: bit_length.simps [of n])
  qed
qed

lemma bit_length_less_if_less:
  assumes "n < 2 ^ k" shows "bit_length n \<le> k"
proof (rule ccontr)
  assume "\<not> bit_length n \<le> k"
  then have k: "k \<le> bit_length n - 1" and nz: "n \<noteq> 0" by (auto intro: ccontr)
  have "2 ^ k \<le> (2 :: nat) ^ (bit_length n - 1)" using k by (rule power_increasing) simp
  also have "\<dots> \<le> n" using nz by (rule bit_length_lower)
  finally show False using assms by simp
qed

lemma bit_length_mono: "m \<le> n \<Longrightarrow> bit_length m \<le> bit_length n"
  using bit_length_less_if_less bit_length_upper le_less_trans by blast

lemma bit_length_power: "bit_length (2 ^ k) = Suc k"
proof (rule antisym)
  show "bit_length (2 ^ k) \<le> Suc k" by (rule bit_length_less_if_less) simp
  have "(2 :: nat) ^ k < 2 ^ bit_length (2 ^ k)" by (rule bit_length_upper)
  then have "k < bit_length (2 ^ k)" by (simp only: power_strict_increasing_iff)
  then show "Suc k \<le> bit_length (2 ^ k)" by simp
qed

text \<open>\<open>n / 2 ^ k\<close> rounded to the nearest integer, ties to even.\<close>

definition half_even :: "nat \<Rightarrow> nat \<Rightarrow> nat" where
  "half_even n k =
     (let q = n div 2 ^ k; r = n mod 2 ^ k in
      if 2 * r < 2 ^ k then q else if 2 ^ k < 2 * r then q + 1 else if even q then q else q + 1)"

lemma half_even_0 [simp]: "half_even n 0 = n"
  by (simp add: half_even_def)

lemma half_even_bounds: "n div 2 ^ k \<le> half_even n k \<and> half_even n k \<le> n div 2 ^ k + 1"
  by (simp add: half_even_def Let_def)

lemma half_even_mono:
  assumes "m \<le> n" shows "half_even m k \<le> half_even n k"
proof (cases "m div 2 ^ k = n div 2 ^ k")
  case True
  have "m mod 2 ^ k \<le> n mod 2 ^ k"
    using assms True by (metis add_le_cancel_left div_mult_mod_eq)
  with True show ?thesis by (auto simp: half_even_def Let_def)
next
  case False
  then have "m div 2 ^ k + 1 \<le> n div 2 ^ k" using assms div_le_mono [of m n "2 ^ k"] by simp
  then show ?thesis using half_even_bounds [of m k] half_even_bounds [of n k] by linarith
qed

definition double_of_nat :: "nat \<Rightarrow> nat" where
  "double_of_nat n = (let k = bit_length n - 53 in half_even n k * 2 ^ k)"

definition double_of_int :: "int \<Rightarrow> int" where
  "double_of_int i = sgn i * int (double_of_nat (nat \<bar>i\<bar>))"

lemma double_of_nat_exact:
  assumes "n \<le> 2 ^ 53" shows "double_of_nat n = n"
proof (cases "n = 2 ^ 53")
  case True
  have "bit_length (2 ^ 53) = 54" using bit_length_power [of 53] by simp
  with True show ?thesis by (simp add: double_of_nat_def half_even_def)
next
  case False
  with assms have "bit_length n \<le> 53" by (intro bit_length_less_if_less) simp
  then show ?thesis by (simp add: double_of_nat_def)
qed

lemma double_of_nat_upper:
  "double_of_nat n \<le> 2 ^ bit_length n"
proof (cases "bit_length n \<le> 53")
  case True
  then show ?thesis using bit_length_upper [of n] by (simp add: double_of_nat_def)
next
  case False
  define k where "k = bit_length n - 53"
  have len: "bit_length n = 53 + k" using False by (simp add: k_def)
  then have "n < 2 ^ 53 * 2 ^ k" using bit_length_upper [of n] by (simp add: power_add)
  then have "n div 2 ^ k < 2 ^ 53" by (simp add: less_mult_imp_div_less)
  then have "half_even n k \<le> 2 ^ 53" using half_even_bounds [of n k] by linarith
  then have "half_even n k * 2 ^ k \<le> 2 ^ 53 * 2 ^ k" by (rule mult_le_mono1)
  then show ?thesis by (simp add: double_of_nat_def k_def [symmetric] len power_add)
qed

lemma double_of_nat_lower:
  assumes "n \<noteq> 0" shows "2 ^ (bit_length n - 1) \<le> double_of_nat n"
proof (cases "bit_length n \<le> 53")
  case True
  then show ?thesis using bit_length_lower [OF assms] by (simp add: double_of_nat_def)
next
  case False
  define k where "k = bit_length n - 53"
  have len: "bit_length n - 1 = 52 + k" using False by (simp add: k_def)
  then have "2 ^ 52 * 2 ^ k \<le> n" using bit_length_lower [OF assms] unfolding len by (simp add: power_add)
  then have "2 ^ 52 \<le> n div 2 ^ k" by (metis div_le_mono div_mult_self_is_m zero_less_numeral zero_less_power)
  then have "2 ^ 52 \<le> half_even n k" using half_even_bounds [of n k] by linarith
  then have "2 ^ 52 * 2 ^ k \<le> half_even n k * 2 ^ k" by (rule mult_le_mono1)
  then show ?thesis unfolding len by (simp add: double_of_nat_def k_def [symmetric] power_add)
qed

lemma double_of_nat_mono:
  assumes "m \<le> n" shows "double_of_nat m \<le> double_of_nat n"
proof (cases "bit_length m = bit_length n")
  case True
  then show ?thesis using half_even_mono [OF assms] by (simp add: double_of_nat_def Let_def)
next
  case False
  then have lt: "bit_length m \<le> bit_length n - 1" and nz: "n \<noteq> 0"
    using bit_length_mono [OF assms] by (auto intro: ccontr)
  have "double_of_nat m \<le> 2 ^ bit_length m" by (rule double_of_nat_upper)
  also have "\<dots> \<le> 2 ^ (bit_length n - 1)" using lt by (rule power_increasing) simp
  also have "\<dots> \<le> double_of_nat n" using nz by (rule double_of_nat_lower)
  finally show ?thesis .
qed

lemma double_of_int_exact: "\<bar>i\<bar> \<le> 2 ^ 53 \<Longrightarrow> double_of_int i = i"
  using double_of_nat_exact [of "nat \<bar>i\<bar>"]
  by (simp add: double_of_int_def sgn_mult_abs nat_le_iff)

lemma double_of_int_mono:
  assumes "i \<le> j" shows "double_of_int i \<le> double_of_int j"
proof (cases "0 \<le> i")
  case True
  then show ?thesis
    using assms double_of_nat_mono [of "nat i" "nat j"] double_of_nat_exact [of 0]
    by (cases "i = 0"; cases "j = 0") (auto simp: double_of_int_def sgn_if)
next
  case False
  then show ?thesis
    using assms double_of_nat_mono [of "nat (- j)" "nat (- i)"]
    by (cases "j < 0"; cases "j = 0") (auto simp: double_of_int_def sgn_if)
qed

lemma double_of_int_less_imp: "double_of_int i < double_of_int j \<Longrightarrow> i < j"
  using double_of_int_mono linorder_not_le by blast

text \<open>The first integer that is not a double rounds down onto its neighbour.\<close>

lemma double_of_int_collision: "double_of_int (2 ^ 53 + 1) = double_of_int (2 ^ 53)"
proof -
  have "bit_length (2 ^ 53 + 1) = 54"
    using bit_length_less_if_less [of "2 ^ 53 + 1" 54] bit_length_mono [of "2 ^ 53" "2 ^ 53 + 1"]
      bit_length_power [of 53] by simp
  then have "double_of_nat (2 ^ 53 + 1) = 2 ^ 53"
    by (simp add: double_of_nat_def half_even_def)
  then show ?thesis
    using double_of_int_exact [of "2 ^ 53"] by (simp add: double_of_int_def)
qed

end
