(* ===== verification/Redis_Link.thy ===== *)
theory Redis_Link
  imports Cpp_Json Double_Rounding
begin

text \<open>
  The Redis side of the consumers: the connection handling of \<open>EnsureConnected\<close>, what one
  \<open>redisCommand\<close> can do, and the two Lua scripts \<open>redis_updater.cpp\<close> sends to the server.
  Redis itself and the network are outside the repository: the key space is a type parameter
  read and written through the operations \<open>redis_api\<close>, and what happens to each connection
  attempt and each command is a plan the state carries.
\<close>

section \<open>The key space\<close>

record 'r redis_api =
  redis_get :: "string \<Rightarrow> 'r \<Rightarrow> string option"
  redis_set_ex :: "string \<Rightarrow> string \<Rightarrow> nat \<Rightarrow> 'r \<Rightarrow> 'r"
  redis_set_nx_ex :: "string \<Rightarrow> string \<Rightarrow> nat \<Rightarrow> 'r \<Rightarrow> bool \<times> 'r"
  redis_del :: "string \<Rightarrow> 'r \<Rightarrow> 'r"

text \<open>
  The documented behaviour of \<open>GET\<close>, \<open>SET key value EX seconds\<close>, \<open>SET \<dots> EX \<dots> NX\<close> and
  \<open>DEL\<close> at the time of the command; \<open>Key_Expiry\<close> has a Redis whose keys expire between commands.
\<close>

definition redis_laws :: "'r redis_api \<Rightarrow> bool" where
  "redis_laws api \<longleftrightarrow>
     (\<forall>k v t r k'. redis_get api k' (redis_set_ex api k v t r)
        = (if k' = k then Some v else redis_get api k' r)) \<and>
     (\<forall>k v t r. redis_set_nx_ex api k v t r
        = (if redis_get api k r = None then (True, redis_set_ex api k v t r) else (False, r))) \<and>
     (\<forall>k r k'. redis_get api k' (redis_del api k r)
        = (if k' = k then None else redis_get api k' r))"

lemma get_set_ex:
  "redis_laws api \<Longrightarrow> redis_get api k' (redis_set_ex api k v t r)
     = (if k' = k then Some v else redis_get api k' r)"
  by (auto simp: redis_laws_def)

lemma get_del:
  "redis_laws api \<Longrightarrow> redis_get api k' (redis_del api k r) = (if k' = k then None else redis_get api k' r)"
  by (auto simp: redis_laws_def)

lemma set_nx_ex:
  "redis_laws api \<Longrightarrow> redis_set_nx_ex api k v t r
     = (if redis_get api k r = None then (True, redis_set_ex api k v t r) else (False, r))"
  by (auto simp: redis_laws_def)

lemmas redis_reads = get_set_ex get_del set_nx_ex

text \<open>
  A key space that obeys the laws: a map whose keys never expire. It instantiates the
  parameter in the witnesses.
\<close>

definition map_redis :: "(string \<Rightarrow> string option) redis_api" where
  "map_redis =
     \<lparr>redis_get = (\<lambda>k r. r k), redis_set_ex = (\<lambda>k v t r. r(k \<mapsto> v)),
      redis_set_nx_ex = (\<lambda>k v t r. if r k = None then (True, r(k \<mapsto> v)) else (False, r)),
      redis_del = (\<lambda>k r. r(k := None))\<rparr>"

lemma map_redis_laws [simp]: "redis_laws map_redis"
  by (simp add: redis_laws_def map_redis_def)

section \<open>Connection and commands\<close>

text \<open>
  \<open>redis_ctx_\<close> is null, usable, or carries an error (\<open>err\<close> set). A connection attempt
  succeeds, yields a context with an error, or yields no context. A command is served, refused
  with an error reply, or gets no reply, in which case hiredis sets \<open>err\<close> and the server may or
  may not have run it. Plans that run out mean success.
\<close>

datatype ctx = NoCtx | CtxOk | CtxErr string

datatype conn_fate = ConnUp | ConnErr string | ConnNull

datatype cmd_fate = Served | ErrReply string | NoReply bool string

datatype reply = RInt int | RStatus string | RNil | RError string

type_synonym log_entry = "string \<times> string list"

record 'r redis_client =
  redis_ctx :: ctx
  server :: 'r
  conn_plan :: "conn_fate list"
  cmd_plan :: "cmd_fate list"
  events :: "log_entry list"

definition log_event :: "log_entry \<Rightarrow> 'r redis_client \<Rightarrow> 'r redis_client" where
  "log_event e c = c\<lparr>events := events c @ [e]\<rparr>"

definition next_conn :: "'r redis_client \<Rightarrow> conn_fate \<times> 'r redis_client" where
  "next_conn c = (case conn_plan c of [] \<Rightarrow> (ConnUp, c) | f # fs \<Rightarrow> (f, c\<lparr>conn_plan := fs\<rparr>))"

definition next_cmd :: "'r redis_client \<Rightarrow> cmd_fate \<times> 'r redis_client" where
  "next_cmd c = (case cmd_plan c of [] \<Rightarrow> (Served, c) | f # fs \<Rightarrow> (f, c\<lparr>cmd_plan := fs\<rparr>))"

text \<open>
  \<open>EnsureConnected\<close>, the same in \<open>RedisUpdater\<close> and \<open>Notifier\<close> up to the name in the message
  and the event logged.
\<close>

definition ensure_connected :: "string \<Rightarrow> string \<Rightarrow> 'r redis_client \<Rightarrow> unit result \<times> 'r redis_client" where
  "ensure_connected name event c =
     (if redis_ctx c = CtxOk then (Inr (), c)
      else
        (case next_conn c of
           (ConnUp, c') \<Rightarrow> (Inr (), log_event (event, []) (c'\<lparr>redis_ctx := CtxOk\<rparr>))
         | (ConnErr e, c') \<Rightarrow>
             (Inl (name @ '' failed to connect to Redis: '' @ e), c'\<lparr>redis_ctx := CtxErr e\<rparr>)
         | (ConnNull, c') \<Rightarrow>
             (Inl (name @ '' failed to connect to Redis: Allocation failure''),
              c'\<lparr>redis_ctx := NoCtx\<rparr>)))"

text \<open>\<open>redisCommand\<close> with the command given as its effect on the key space; \<open>None\<close> is a null reply.\<close>

definition redis_command ::
    "('r \<Rightarrow> reply \<times> 'r) \<Rightarrow> 'r redis_client \<Rightarrow> reply option \<times> 'r redis_client" where
  "redis_command cmd c =
     (case next_cmd c of
        (Served, c') \<Rightarrow> (Some (fst (cmd (server c'))), c'\<lparr>server := snd (cmd (server c'))\<rparr>)
      | (ErrReply e, c') \<Rightarrow> (Some (RError e), c')
      | (NoReply run e, c') \<Rightarrow>
          (None, c'\<lparr>redis_ctx := CtxErr e,
                    server := (if run then snd (cmd (server c')) else server c')\<rparr>))"

lemma next_conn_frame [frame]:
  "server (snd (next_conn c)) = server c" "events (snd (next_conn c)) = events c"
  "cmd_plan (snd (next_conn c)) = cmd_plan c"
  by (auto simp: next_conn_def split: list.splits)

lemma next_cmd_frame [frame]:
  "server (snd (next_cmd c)) = server c" "events (snd (next_cmd c)) = events c"
  "redis_ctx (snd (next_cmd c)) = redis_ctx c"
  by (auto simp: next_cmd_def split: list.splits)

lemma ensure_connected_frame [frame]:
  "server (snd (ensure_connected n e c)) = server c"
  "cmd_plan (snd (ensure_connected n e c)) = cmd_plan c"
  by (auto simp: ensure_connected_def next_conn_def log_event_def split: list.splits conn_fate.splits)

lemma ensure_connected_up:
  "redis_ctx c = CtxOk \<Longrightarrow> ensure_connected n e c = (Inr (), c)"
  by (simp add: ensure_connected_def)

lemma ensure_connected_ok:
  "fst (ensure_connected n e c) = Inr () \<Longrightarrow> redis_ctx (snd (ensure_connected n e c)) = CtxOk"
  by (auto simp: ensure_connected_def next_conn_def log_event_def
      split: list.splits conn_fate.splits if_splits)

text \<open>A command either leaves the key space alone or has its effect once.\<close>

lemma redis_command_server:
  "server (snd (redis_command cmd c)) = server c \<or>
   server (snd (redis_command cmd c)) = snd (cmd (server c))"
  by (auto simp: redis_command_def next_cmd_def split: list.splits cmd_fate.splits)

lemma redis_command_events [frame]: "events (snd (redis_command cmd c)) = events c"
  by (auto simp: redis_command_def next_cmd_def split: list.splits cmd_fate.splits)

lemma redis_command_served:
  "cmd_plan c = [] \<Longrightarrow>
   redis_command cmd c = (Some (fst (cmd (server c))), c\<lparr>server := snd (cmd (server c))\<rparr>)"
  by (simp add: redis_command_def next_cmd_def)

section \<open>Lua numbers\<close>

text \<open>
  \<open>tonumber\<close> on plain decimal integers, the only text the updater stores as an LSN: the value
  rounded to a double. Any other text goes to the environment.
\<close>

definition decimal_int :: "string \<Rightarrow> int option" where
  "decimal_int s =
     (case s of
        [] \<Rightarrow> None
      | c # cs \<Rightarrow>
          if c = CHR ''-'' then
            (if cs \<noteq> [] \<and> list_all is_digit cs then Some (- int (fst (scan_nat 0 cs))) else None)
          else if list_all is_digit s then Some (int (fst (scan_nat 0 s))) else None)"

lemma decimal_int_show_int [simp]: "decimal_int (show_int i) = Some i"
proof (cases "i < 0")
  case True
  then show ?thesis
    using show_nat_digits [of _ "nat (- i)"]
    by (auto simp: decimal_int_def show_int_def list_all_iff)
next
  case False
  obtain d ds where d: "show_nat (nat i) = d # ds" using show_nat_Cons by blast
  have "d \<noteq> CHR ''-''" using d show_nat_not_minus by metis
  with False d show ?thesis
    using show_nat_digits [of _ "nat i"] scan_show_nat_end [of "nat i"]
    by (auto simp: decimal_int_def show_int_def list_all_iff)
qed

lemma decimal_int_to_string [simp]: "decimal_int (to_string w) = Some (sint w)"
  by (simp add: to_string_def)

definition tonumber :: "cpp_env \<Rightarrow> string \<Rightarrow> rat option" where
  "tonumber env s =
     (case decimal_int s of Some i \<Rightarrow> Some (of_int (double_of_int i)) | None \<Rightarrow> lua_number env s)"

section \<open>The Lua scripts\<close>

text \<open>
  \<open>current_lsn and tonumber(ARGV) and tonumber(current_lsn) and
  tonumber(ARGV) <= tonumber(current_lsn)\<close>
\<close>

definition lua_is_stale :: "cpp_env \<Rightarrow> 'r redis_api \<Rightarrow> string \<Rightarrow> string \<Rightarrow> 'r \<Rightarrow> bool" where
  "lua_is_stale env api key lsn r =
     (case redis_get api (key @ '':lsn'') r of
        None \<Rightarrow> False
      | Some current_lsn \<Rightarrow>
          (case (tonumber env lsn, tonumber env current_lsn) of
             (Some new, Some cur) \<Rightarrow> new \<le> cur
           | _ \<Rightarrow> False))"

definition lua_upsert ::
    "cpp_env \<Rightarrow> 'r redis_api \<Rightarrow> string \<Rightarrow> string \<Rightarrow> string \<Rightarrow> nat \<Rightarrow> 'r \<Rightarrow> reply \<times> 'r" where
  "lua_upsert env api key doc lsn ttl r =
     (if lua_is_stale env api key lsn r then (RInt 0, r)
      else (RInt 1, redis_set_ex api (key @ '':lsn'') lsn ttl (redis_set_ex api key doc ttl r)))"

definition lua_del ::
    "cpp_env \<Rightarrow> 'r redis_api \<Rightarrow> string \<Rightarrow> string \<Rightarrow> nat \<Rightarrow> 'r \<Rightarrow> reply \<times> 'r" where
  "lua_del env api key lsn ttl r =
     (if lua_is_stale env api key lsn r then (RInt 0, r)
      else (RInt 1, redis_set_ex api (key @ '':lsn'') lsn ttl (redis_del api key r)))"

lemma stale_iff_to_string:
  assumes "redis_get api (key @ '':lsn'') r = Some (to_string cur)"
  shows "lua_is_stale env api key (to_string new) r
    \<longleftrightarrow> double_of_int (sint new) \<le> double_of_int (sint cur)"
  using assms by (simp add: lua_is_stale_def tonumber_def)

lemma not_stale_empty:
  "redis_get api (key @ '':lsn'') r = None \<Longrightarrow> \<not> lua_is_stale env api key lsn r"
  by (simp add: lua_is_stale_def)

end
