(* ===== verification/Kafka_Consumer.thy ===== *)
theory Kafka_Consumer
  imports Avro_Deserializer Order_Event Redis_Link "HOL-Library.Sublist"
begin

text \<open>
  \<open>KafkaConsumerBase\<close> (\<open>consumers/src/kafka_consumer_base.cpp\<close>): the consume loop with its retry
  schedule, dead-letter routing and manual offset commits. \<open>ProcessRecord\<close> is virtual; here it
  is the argument \<open>process\<close> on the state of the sink. What the loop does is recorded in order in
  the field \<open>trace\<close>.
\<close>

section \<open>State\<close>

text \<open>
  An absent key or payload is the empty string. \<open>consume\<close> yields no message, a message, a
  time-out or the end of a partition, or another error.
\<close>

record message =
  m_topic :: string
  m_partition :: int
  m_offset :: int
  m_key :: string
  m_payload :: string

datatype poll = PollNone | PollMessage message | PollTimedOut | PollEof | PollError string

datatype effect =
    Attempt bool
  | Slept int
  | Produced string string
  | Polled int
  | Flushed int
  | Committed int
  | Closed
  | Logged log_entry

record consumer_config =
  consumer_name :: string
  dlq_topic :: string
  max_retries :: int
  initial_backoff_ms :: int
  max_backoff_ms :: int

text \<open>The constructor: the dead letter topic is the topic with \<open>.dlq\<close> appended.\<close>

definition make_config :: "string \<Rightarrow> string \<Rightarrow> int \<Rightarrow> int \<Rightarrow> int \<Rightarrow> consumer_config" where
  "make_config name topic retries initial maximal =
     \<lparr>consumer_name = name, dlq_topic = topic @ ''.dlq'', max_retries = retries,
      initial_backoff_ms = initial, max_backoff_ms = maximal\<rparr>"

text \<open>The three sinks take the default arguments of the header.\<close>

definition default_config :: "string \<Rightarrow> string \<Rightarrow> consumer_config" where
  "default_config name topic = make_config name topic 5 100 3000"

text \<open>
  \<open>running_\<close> is set by \<open>Run\<close> on entry and cleared by another thread in \<open>Stop()\<close>; that a \<open>Stop()\<close> before the
  entry is undone is in \<open>Consumers_Main\<close>.
  \<open>stop_in\<close> counts the reads that still see \<open>true\<close> (\<open>None\<close>: \<open>Stop()\<close> is never called).
  \<open>produce_plan\<close> holds the outcomes of \<open>produce\<close>, an error text or none; a plan that runs out
  means success. \<open>Produced\<close> is a message \<open>produce\<close> has taken into the queue of the producer: whether the broker
  gets it before \<open>message.timeout.ms\<close> is over is not looked at, neither in the result of \<open>flush\<close> nor in a report. \<open>now_ms\<close> is the reading of the system clock.
\<close>

record 'w consumer =
  sink :: 'w
  stop_in :: "nat option"
  has_producer :: bool
  produce_plan :: "string option list"
  now_ms :: int
  trace :: "effect list"

definition emit :: "effect \<Rightarrow> 'w consumer \<Rightarrow> 'w consumer" where
  "emit e b = b\<lparr>trace := trace b @ [e]\<rparr>"

definition read_running :: "'w consumer \<Rightarrow> bool \<times> 'w consumer" where
  "read_running b =
     (case stop_in b of
        None \<Rightarrow> (True, b)
      | Some 0 \<Rightarrow> (False, b)
      | Some (Suc n) \<Rightarrow> (True, b\<lparr>stop_in := Some n\<rparr>))"

definition next_produce :: "'w consumer \<Rightarrow> string option \<times> 'w consumer" where
  "next_produce b =
     (case produce_plan b of [] \<Rightarrow> (None, b) | e # es \<Rightarrow> (e, b\<lparr>produce_plan := es\<rparr>))"

section \<open>RouteToDLQ\<close>

definition dlq_envelope :: "consumer_config \<Rightarrow> message \<Rightarrow> string \<Rightarrow> json \<Rightarrow> int \<Rightarrow> json" where
  "dlq_envelope cfg msg reason payload_json now =
     JObj [(''consumer'', JStr (consumer_name cfg)),
           (''error'', JStr reason),
           (''original_offset'', JInt (m_offset msg)),
           (''original_partition'', JInt (m_partition msg)),
           (''original_topic'', JStr (m_topic msg)),
           (''payload'', if is_null payload_json then JStr (m_payload msg) else payload_json),
           (''timestamp_ms'', JInt now)]"

text \<open>The result is the returned flag; \<open>Inl\<close> is an exception of \<open>dump\<close>, which nothing catches.\<close>

definition route_to_dlq ::
    "consumer_config \<Rightarrow> cpp_env \<Rightarrow> message \<Rightarrow> string \<Rightarrow> json \<Rightarrow> 'w consumer
      \<Rightarrow> bool result \<times> 'w consumer" where
  "route_to_dlq cfg env msg reason payload_json b =
     (if \<not> has_producer b then (Inr False, emit (Logged (''dlq_producer_unavailable'', [])) b)
      else
        (case dump env (dlq_envelope cfg msg reason payload_json (now_ms b)) of
           Inl e \<Rightarrow> (Inl e, b)
         | Inr body \<Rightarrow>
             (case next_produce b of
                (Some err, b1) \<Rightarrow> (Inr False, emit (Logged (''dlq_produce_failed'', [err])) b1)
              | (None, b1) \<Rightarrow>
                  (Inr True,
                   emit (Logged (''routed_to_dlq'', [dlq_topic cfg, show_int (m_offset msg), reason]))
                     (emit (Flushed 1000) (emit (Polled 0) (emit (Produced (m_key msg) body) b1)))))))"

section \<open>The message key\<close>

definition decoded_key :: "'v avro_env \<Rightarrow> cpp_env \<Rightarrow> string \<Rightarrow> string result" where
  "decoded_key av env raw =
     (if wire_format raw then
        (case deserialize av raw of
           None \<Rightarrow> Inr []
         | Some doc \<Rightarrow>
             if contains doc ''id'' \<and> \<not> is_null (at_key doc ''id'') then text_of env (at_key doc ''id'')
             else if contains doc ''order_id'' \<and> \<not> is_null (at_key doc ''order_id'')
             then text_of env (at_key doc ''order_id'')
             else dump env doc)
      else Inr [])"

definition message_key :: "'v avro_env \<Rightarrow> cpp_env \<Rightarrow> message \<Rightarrow> string result" where
  "message_key av env msg =
     (if m_key msg = [] then Inr []
      else
        (case decoded_key av env (m_key msg) of
           Inl e \<Rightarrow> Inl e
         | Inr k \<Rightarrow> Inr (if k = [] then m_key msg else k)))"

section \<open>The retry loop\<close>

type_synonym 'w processor = "json \<Rightarrow> string \<Rightarrow> int \<Rightarrow> 'w \<Rightarrow> unit result \<times> 'w"

text \<open>
  One call of \<open>ProcessRecord\<close> inside the \<open>try\<close>: the sink's new state, and what is logged.
\<close>

definition attempt_once ::
    "'w processor \<Rightarrow> json \<Rightarrow> string \<Rightarrow> int \<Rightarrow> int \<Rightarrow> 'w consumer \<Rightarrow> unit result \<times> 'w consumer" where
  "attempt_once process doc key offset attempt b =
     (case process doc key offset (sink b) of
        (Inr _, w) \<Rightarrow>
          (Inr (), emit (Logged (''record_processed'', [show_int offset])) (emit (Attempt True) (b\<lparr>sink := w\<rparr>)))
      | (Inl e, w) \<Rightarrow>
          (Inl e, emit (Logged (''record_processing_failed'', [show_int attempt, show_int offset, e]))
                    (emit (Attempt False) (b\<lparr>sink := w\<rparr>))))"

function retry ::
    "consumer_config \<Rightarrow> 'w processor \<Rightarrow> json \<Rightarrow> string \<Rightarrow> int \<Rightarrow> int \<Rightarrow> int \<Rightarrow> string
      \<Rightarrow> 'w consumer \<Rightarrow> bool \<times> string \<times> 'w consumer" where
  "retry cfg process doc key offset attempt backoff_ms last_error b =
     (if attempt \<le> max_retries cfg then
        (case read_running b of
           (False, b1) \<Rightarrow> (False, last_error, b1)
         | (True, b1) \<Rightarrow>
             (case attempt_once process doc key offset attempt b1 of
                (Inr _, b2) \<Rightarrow> (True, last_error, b2)
              | (Inl e, b2) \<Rightarrow>
                  if attempt < max_retries cfg then
                    (case read_running b2 of
                       (True, b3) \<Rightarrow>
                         retry cfg process doc key offset (attempt + 1)
                           (min (backoff_ms * 2) (max_backoff_ms cfg)) e (emit (Slept backoff_ms) b3)
                     | (False, b3) \<Rightarrow> retry cfg process doc key offset (attempt + 1) backoff_ms e b3)
                  else retry cfg process doc key offset (attempt + 1) backoff_ms e b2))
      else (False, last_error, b))"
  by pat_completeness auto
termination
  by (relation "measure (\<lambda>(cfg, process, doc, key, offset, attempt, backoff_ms, last_error, b).
        nat (max_retries cfg + 1 - attempt))") auto

declare retry.simps [simp del]

section \<open>One message, and the loop\<close>

text \<open>\<open>Inl\<close>: an exception leaves \<open>Run\<close>.\<close>

definition handle_message ::
    "consumer_config \<Rightarrow> 'v avro_env \<Rightarrow> cpp_env \<Rightarrow> 'w processor \<Rightarrow> message \<Rightarrow> 'w consumer
      \<Rightarrow> unit result \<times> 'w consumer" where
  "handle_message cfg av env process msg b =
     (case message_key av env msg of
        Inl e \<Rightarrow> (Inl e, b)
      | Inr key \<Rightarrow>
          (case deserialize av (m_payload msg) of
             None \<Rightarrow>
               (let b1 = emit (Logged (''unparseable_payload_routing_dlq'', [show_int (m_offset msg)])) b in
                case route_to_dlq cfg env msg ''Payload deserialization failed'' JNull b1 of
                  (Inl e, b2) \<Rightarrow> (Inl e, b2)
                | (Inr _, b2) \<Rightarrow> (Inr (), emit (Committed (m_offset msg)) b2))
           | Some doc \<Rightarrow>
               (case retry cfg process doc key (m_offset msg) 1 (initial_backoff_ms cfg) [] b of
                  (True, last_error, b1) \<Rightarrow> (Inr (), emit (Committed (m_offset msg)) b1)
                | (False, last_error, b1) \<Rightarrow>
                    (case read_running b1 of
                       (False, b2) \<Rightarrow> (Inr (), b2)
                     | (True, b2) \<Rightarrow>
                         (let b3 = emit (Logged (''retries_exhausted_routing_dlq'',
                                          [show_int (m_offset msg), last_error])) b2 in
                          case route_to_dlq cfg env msg last_error doc b3 of
                            (Inl e, b4) \<Rightarrow> (Inl e, b4)
                          | (Inr _, b4) \<Rightarrow> (Inr (), emit (Committed (m_offset msg)) b4))))))"

definition handle_poll ::
    "consumer_config \<Rightarrow> 'v avro_env \<Rightarrow> cpp_env \<Rightarrow> 'w processor \<Rightarrow> poll \<Rightarrow> 'w consumer
      \<Rightarrow> unit result \<times> 'w consumer" where
  "handle_poll cfg av env process p b =
     (case p of
        PollMessage msg \<Rightarrow> handle_message cfg av env process msg b
      | PollError e \<Rightarrow> (Inr (), emit (Logged (''kafka_consumer_warning'', [e])) b)
      | _ \<Rightarrow> (Inr (), b))"

text \<open>
  \<open>Run\<close>, over the results \<open>consume\<close> returns: it ends because \<open>running_\<close> was cleared, because an
  exception left the loop, or it is still waiting for the next result.
\<close>

datatype run_outcome = Stopped | Crashed string | Waiting

text \<open>After the loop: \<open>close\<close>, a last \<open>flush\<close> of the producer, if there is one, and the log line.\<close>

definition wind_up :: "'w consumer \<Rightarrow> 'w consumer" where
  "wind_up b =
     (let b1 = emit Closed b; b2 = (if has_producer b1 then emit (Flushed 2000) b1 else b1) in
      emit (Logged (''consumer_stopped'', [])) b2)"

fun run ::
    "consumer_config \<Rightarrow> 'v avro_env \<Rightarrow> cpp_env \<Rightarrow> 'w processor \<Rightarrow> poll list \<Rightarrow> 'w consumer
      \<Rightarrow> run_outcome \<times> 'w consumer" where
  "run cfg av env process [] b =
     (case read_running b of
        (False, b1) \<Rightarrow> (Stopped, wind_up b1)
      | (True, b1) \<Rightarrow> (Waiting, b1))"
| "run cfg av env process (p # ps) b =
     (case read_running b of
        (False, b1) \<Rightarrow> (Stopped, wind_up b1)
      | (True, b1) \<Rightarrow>
          (case handle_poll cfg av env process p b1 of
             (Inl e, b2) \<Rightarrow> (Crashed e, b2)
           | (Inr _, b2) \<Rightarrow> run cfg av env process ps b2))"

end
