(* ===== verification/Consumer_Trace.thy ===== *)
theory Consumer_Trace
  imports Kafka_Consumer
begin

text \<open>
  Facts about the effects of the consume loop: what a retry run and one message append to the
  trace, the backoff schedule, and the monotonicity of the stop flag.
\<close>

section \<open>Reading a trace\<close>

fun commits :: "effect list \<Rightarrow> int list" where
  "commits [] = []"
| "commits (Committed k # tr) = k # commits tr"
| "commits (_ # tr) = commits tr"

fun sleeps :: "effect list \<Rightarrow> int list" where
  "sleeps [] = []"
| "sleeps (Slept k # tr) = k # sleeps tr"
| "sleeps (_ # tr) = sleeps tr"

fun produced :: "effect list \<Rightarrow> (string \<times> string) list" where
  "produced [] = []"
| "produced (Produced k v # tr) = (k, v) # produced tr"
| "produced (_ # tr) = produced tr"

fun failures :: "effect list \<Rightarrow> nat" where
  "failures [] = 0"
| "failures (Attempt False # tr) = Suc (failures tr)"
| "failures (_ # tr) = failures tr"

definition delivered :: "effect list \<Rightarrow> bool" where
  "delivered tr \<longleftrightarrow> Attempt True \<in> set tr"

text \<open>The dead letter queue was tried: routed, refused, or no producer.\<close>

definition dlq_tried :: "effect list \<Rightarrow> bool" where
  "dlq_tried tr \<longleftrightarrow>
     list_ex (\<lambda>e. case e of
        Logged (ev, _) \<Rightarrow> ev \<in> {''routed_to_dlq'', ''dlq_produce_failed'', ''dlq_producer_unavailable''}
      | _ \<Rightarrow> False) tr"

lemma commits_append [simp]: "commits (xs @ ys) = commits xs @ commits ys"
  by (induction xs rule: commits.induct) auto

lemma sleeps_append [simp]: "sleeps (xs @ ys) = sleeps xs @ sleeps ys"
  by (induction xs rule: sleeps.induct) auto

lemma produced_append [simp]: "produced (xs @ ys) = produced xs @ produced ys"
  by (induction xs rule: produced.induct) auto

lemma failures_append [simp]: "failures (xs @ ys) = failures xs + failures ys"
  by (induction xs rule: failures.induct) auto

lemma delivered_append [simp]: "delivered (xs @ ys) \<longleftrightarrow> delivered xs \<or> delivered ys"
  by (auto simp: delivered_def)

lemma dlq_tried_append [simp]: "dlq_tried (xs @ ys) \<longleftrightarrow> dlq_tried xs \<or> dlq_tried ys"
  by (auto simp: dlq_tried_def)

lemma delivered_simps [simp]:
  "\<not> delivered []" "delivered (e # tr) \<longleftrightarrow> e = Attempt True \<or> delivered tr"
  by (auto simp: delivered_def)

lemma dlq_tried_simps [simp]:
  "\<not> dlq_tried []"
  "dlq_tried (Logged (ev, as) # tr) \<longleftrightarrow>
     ev \<in> {''routed_to_dlq'', ''dlq_produce_failed'', ''dlq_producer_unavailable''} \<or> dlq_tried tr"
  "dlq_tried (Attempt k # tr) \<longleftrightarrow> dlq_tried tr" "dlq_tried (Slept n # tr) \<longleftrightarrow> dlq_tried tr"
  "dlq_tried (Produced x y # tr) \<longleftrightarrow> dlq_tried tr" "dlq_tried (Committed n # tr) \<longleftrightarrow> dlq_tried tr"
  "dlq_tried (Polled n # tr) \<longleftrightarrow> dlq_tried tr" "dlq_tried (Flushed n # tr) \<longleftrightarrow> dlq_tried tr"
  "dlq_tried (Closed # tr) \<longleftrightarrow> dlq_tried tr"
  by (auto simp: dlq_tried_def)

section \<open>Frames\<close>

lemma emit_frame [simp]:
  "sink (emit e b) = sink b" "stop_in (emit e b) = stop_in b" "has_producer (emit e b) = has_producer b"
  "produce_plan (emit e b) = produce_plan b" "now_ms (emit e b) = now_ms b" "trace (emit e b) = trace b @ [e]"
  by (simp_all add: emit_def)

lemma read_running_frame [simp]:
  "sink (snd (read_running b)) = sink b" "trace (snd (read_running b)) = trace b"
  "has_producer (snd (read_running b)) = has_producer b"
  "produce_plan (snd (read_running b)) = produce_plan b" "now_ms (snd (read_running b)) = now_ms b"
  by (auto simp: read_running_def split: option.splits nat.splits)

lemma read_running_pair:
  "read_running b = (x, b') \<Longrightarrow> sink b' = sink b \<and> trace b' = trace b \<and> has_producer b' = has_producer b
    \<and> produce_plan b' = produce_plan b \<and> now_ms b' = now_ms b"
  using read_running_frame [of b] by simp

lemma read_running_none [simp]: "stop_in b = None \<Longrightarrow> read_running b = (True, b)"
  by (simp add: read_running_def)

text \<open>Once cleared, \<open>running_\<close> stays cleared.\<close>

definition still_running :: "'w consumer \<Rightarrow> bool" where
  "still_running b \<longleftrightarrow> stop_in b \<noteq> Some 0"

lemma read_running_fst [simp]: "fst (read_running b) = still_running b"
  by (auto simp: read_running_def still_running_def split: option.splits nat.splits)

lemma read_running_stop:
  "read_running b = (x, b') \<Longrightarrow> (x \<longleftrightarrow> still_running b) \<and> (still_running b' \<longrightarrow> still_running b)"
  by (auto simp: read_running_def still_running_def split: option.splits nat.splits)

lemma still_running_emit [simp]: "still_running (emit e b) = still_running b"
  by (simp add: still_running_def)

text \<open>How many more reads see the flag set; \<open>None\<close> never ends.\<close>

definition stop_le :: "nat option \<Rightarrow> nat option \<Rightarrow> bool" where
  "stop_le s s' \<longleftrightarrow> (case s' of None \<Rightarrow> s = None | Some n' \<Rightarrow> (\<exists>n. s = Some n \<and> n \<le> n'))"

lemma stop_le_refl [simp]: "stop_le s s"
  by (auto simp: stop_le_def split: option.splits)

lemma stop_le_trans: "stop_le a b \<Longrightarrow> stop_le b c \<Longrightarrow> stop_le a c"
  by (auto simp: stop_le_def split: option.splits)

lemma read_running_stop_le: "read_running b = (x, b') \<Longrightarrow> stop_le (stop_in b') (stop_in b)"
  by (auto simp: read_running_def stop_le_def split: option.splits nat.splits)

lemma read_running_true:
  "read_running b = (True, b') \<Longrightarrow> stop_in b = None \<and> b' = b \<or> (\<exists>n. stop_in b = Some (Suc n) \<and> stop_in b' = Some n)"
  by (auto simp: read_running_def split: option.splits nat.splits)

section \<open>One attempt\<close>

lemma attempt_once_ok:
  "attempt_once process doc key offset k b = (Inr u, b') \<Longrightarrow>
    fst (process doc key offset (sink b)) = Inr () \<and> sink b' = snd (process doc key offset (sink b)) \<and>
    trace b' = trace b @ [Attempt True, Logged (''record_processed'', [show_int offset])] \<and>
    stop_in b' = stop_in b \<and> has_producer b' = has_producer b \<and> produce_plan b' = produce_plan b
    \<and> now_ms b' = now_ms b"
  by (auto simp: attempt_once_def split: prod.splits sum.splits)

lemma attempt_once_fail:
  "attempt_once process doc key offset k b = (Inl e, b') \<Longrightarrow>
    fst (process doc key offset (sink b)) = Inl e \<and> sink b' = snd (process doc key offset (sink b)) \<and>
    trace b' = trace b @ [Attempt False, Logged (''record_processing_failed'', [show_int k, show_int offset, e])] \<and>
    stop_in b' = stop_in b \<and> has_producer b' = has_producer b \<and> produce_plan b' = produce_plan b
    \<and> now_ms b' = now_ms b"
  by (auto simp: attempt_once_def split: prod.splits sum.splits)

section \<open>The retry loop\<close>

text \<open>The shape of one unfolding, as four cases.\<close>

lemma retry_cases:
  assumes "retry cfg process doc key offset k bo err b = (ok, err', b')"
  obtains
    (exhausted) "max_retries cfg < k" "\<not> ok" "err' = err" "b' = b"
  | (stopped) "k \<le> max_retries cfg" "read_running b = (False, b')" "\<not> ok" "err' = err"
  | (success) b1 where "k \<le> max_retries cfg" "read_running b = (True, b1)"
      "attempt_once process doc key offset k b1 = (Inr (), b')" "ok" "err' = err"
  | (failure) b1 e b2 b3 bo' where "k \<le> max_retries cfg" "read_running b = (True, b1)"
      "attempt_once process doc key offset k b1 = (Inl e, b2)"
      "retry cfg process doc key offset (k + 1) bo' e b3 = (ok, err', b')"
      "(b3, bo') = (if k < max_retries cfg then
          (case read_running b2 of
             (True, b4) \<Rightarrow> (emit (Slept bo) b4, min (bo * 2) (max_backoff_ms cfg))
           | (False, b4) \<Rightarrow> (b4, bo))
        else (b2, bo))"
  using assms
  by (subst (asm) retry.simps) (auto split: if_splits prod.splits bool.splits sum.splits)

definition grows :: "'w consumer \<Rightarrow> effect list \<Rightarrow> 'w consumer \<Rightarrow> bool" where
  "grows b tr b' \<longleftrightarrow> trace b' = trace b @ tr \<and> has_producer b' = has_producer b \<and> now_ms b' = now_ms b
     \<and> stop_le (stop_in b') (stop_in b) \<and> (still_running b' \<longrightarrow> still_running b)"

lemma grows_refl: "grows b [] b"
  by (simp add: grows_def)

lemma grows_trans: "grows a xs b \<Longrightarrow> grows b ys c \<Longrightarrow> grows a (xs @ ys) c"
  by (auto simp: grows_def intro: stop_le_trans)

lemma grows_emit: "grows b [e] (emit e b)"
  by (simp add: grows_def)

lemma grows_read: "read_running b = (x, b') \<Longrightarrow> grows b [] b'"
  using read_running_pair [of b x b'] read_running_stop [of b x b'] read_running_stop_le [of b x b']
  by (auto simp: grows_def)

lemma grows_ok:
  "attempt_once process doc key offset k b = (Inr u, b') \<Longrightarrow>
   grows b [Attempt True, Logged (''record_processed'', [show_int offset])] b' \<and> produce_plan b' = produce_plan b"
  by (drule attempt_once_ok) (auto simp: grows_def still_running_def)

lemma grows_fail:
  "attempt_once process doc key offset k b = (Inl e, b') \<Longrightarrow>
   grows b [Attempt False, Logged (''record_processing_failed'', [show_int k, show_int offset, e])] b'
   \<and> produce_plan b' = produce_plan b"
  by (drule attempt_once_fail) (auto simp: grows_def still_running_def)

lemma between_attempts:
  assumes "(b3, bo') = (if k < max_retries cfg then
          (case read_running b2 of
             (True, b4) \<Rightarrow> (emit (Slept bo) b4, min (bo * 2) (max_backoff_ms cfg))
           | (False, b4) \<Rightarrow> (b4, bo))
        else (b2, bo))"
  shows "\<exists>tr. grows b2 tr b3 \<and> set tr \<subseteq> {Slept bo} \<and> commits tr = [] \<and> produced tr = [] \<and> failures tr = 0
    \<and> produce_plan b3 = produce_plan b2 \<and> sink b3 = sink b2"
proof (cases "k < max_retries cfg")
  case False
  with assms show ?thesis by (intro exI [of _ "[]"]) (simp add: grows_refl)
next
  case True
  obtain x b4 where r: "read_running b2 = (x, b4)" by fastforce
  note g = grows_read [OF r] and p = read_running_pair [OF r]
  show ?thesis
  proof (cases x)
    case True
    with assms \<open>k < max_retries cfg\<close> r have "b3 = emit (Slept bo) b4" by simp
    with g p show ?thesis
      by (intro exI [of _ "[Slept bo]"]) (auto intro: grows_trans [OF g grows_emit, simplified])
  next
    case False
    with assms \<open>k < max_retries cfg\<close> r have "b3 = b4" by simp
    with g p show ?thesis by (intro exI [of _ "[]"]) auto
  qed
qed

text \<open>The end of a run.\<close>

definition wind_up_trace :: "'w consumer \<Rightarrow> effect list" where
  "wind_up_trace b = [Closed] @ (if has_producer b then [Flushed 2000] else []) @ [Logged (''consumer_stopped'', [])]"

lemma wind_up_frame [simp]:
  "sink (wind_up b) = sink b" "trace (wind_up b) = trace b @ wind_up_trace b" "commits (wind_up_trace b) = []"
  by (simp_all add: wind_up_def wind_up_trace_def Let_def)

definition retry_trace :: "bool \<Rightarrow> nat \<Rightarrow> bool \<Rightarrow> effect list \<Rightarrow> bool" where
  "retry_trace ok n running tr \<longleftrightarrow>
     commits tr = [] \<and> produced tr = [] \<and> \<not> dlq_tried tr \<and> (delivered tr \<longleftrightarrow> ok) \<and> failures tr \<le> n
     \<and> (\<not> ok \<and> running \<longrightarrow> failures tr = n)"

lemma only_slept:
  "set tr \<subseteq> {Slept bo} \<Longrightarrow> \<not> dlq_tried tr \<and> \<not> delivered tr"
  by (induction tr) auto

lemma retry_effects:
  assumes "retry cfg process doc key offset k bo err b = (ok, err', b')"
  shows "\<exists>tr. grows b tr b' \<and> produce_plan b' = produce_plan b
    \<and> retry_trace ok (nat (max_retries cfg + 1 - k)) (still_running b') tr"
  using assms
proof (induction "nat (max_retries cfg + 1 - k)" arbitrary: k bo err b)
  case 0
  from 0(2) show ?case
    by (cases rule: retry_cases)
      (use 0(1) in \<open>auto simp: retry_trace_def intro!: exI [of _ "[]"] grows_refl\<close>)
next
  case (Suc n)
  from Suc.prems show ?case
  proof (cases rule: retry_cases)
    case exhausted
    with Suc.hyps(2) show ?thesis by simp
  next
    case stopped
    then show ?thesis
      using grows_read [OF stopped(2)] read_running_pair [OF stopped(2)] read_running_stop [OF stopped(2)]
      by (intro exI [of _ "[]"]) (auto simp: retry_trace_def)
  next
    case (success b1)
    note g = grows_trans [OF grows_read [OF success(2)]
      conjunct1 [OF grows_ok [OF success(3)]]]
    show ?thesis
      using g success(4) read_running_pair [OF success(2)] grows_ok [OF success(3)]
      by (intro exI conjI) (assumption | simp add: retry_trace_def)+
  next
    case (failure b1 e b2 b3 bo')
    obtain mid where mid: "grows b2 mid b3" "set mid \<subseteq> {Slept bo}" "commits mid = []" "produced mid = []"
        "failures mid = 0" "produce_plan b3 = produce_plan b2"
      using between_attempts [OF failure(5)] by blast
    have n: "n = nat (max_retries cfg + 1 - (k + 1))" using Suc.hyps(2) by simp
    obtain tr where tr: "grows b3 tr b'" "produce_plan b' = produce_plan b3"
        "retry_trace ok n (still_running b') tr"
      using Suc.hyps(1) [OF n failure(4)] n by auto
    let ?all = "[] @ [Attempt False, Logged (''record_processing_failed'', [show_int k, show_int offset, e])]
      @ mid @ tr"
    have "grows b ?all b'"
      using grows_read [OF failure(2)] grows_fail [OF failure(3)] mid(1) tr(1)
      by (blast intro: grows_trans)
    moreover have "produce_plan b' = produce_plan b"
      using read_running_pair [OF failure(2)] grows_fail [OF failure(3)] mid(6) tr(2) by simp
    moreover have "retry_trace ok (Suc n) (still_running b') ?all"
      using tr(3) mid only_slept [OF mid(2)] by (auto simp: retry_trace_def)
    ultimately show ?thesis unfolding Suc.hyps(2) [symmetric] by blast
  qed
qed

end
