(* ===== verification/Consumer_Guarantees.thy ===== *)
theory Consumer_Guarantees
  imports Consumer_Trace
begin

text \<open>
  What \<open>KafkaConsumerBase\<close> guarantees about commits, the dead letter queue, the retry schedule
  and shutdown, for any sink.
\<close>

section \<open>Dead-letter routing\<close>

lemma next_produce_frame:
  "next_produce b = (x, b') \<Longrightarrow> sink b' = sink b \<and> trace b' = trace b \<and> has_producer b' = has_producer b
    \<and> stop_in b' = stop_in b \<and> now_ms b' = now_ms b"
  by (auto simp: next_produce_def split: list.splits)

lemma route_to_dlq_cases:
  assumes "route_to_dlq cfg env msg reason doc b = (res, b')"
  obtains (thrown) e where "res = Inl e" "b' = b" "has_producer b"
      "dump env (dlq_envelope cfg msg reason doc (now_ms b)) = Inl e"
  | (refused) ev as where "res = Inr False" "grows b [Logged (ev, as)] b'" "sink b' = sink b"
      "ev \<in> {''dlq_produce_failed'', ''dlq_producer_unavailable''}"
      "\<not> (has_producer b \<and> produce_plan b = [])"
  | (routed) body as where "res = Inr True" "sink b' = sink b"
      "grows b [Produced (m_key msg) body, Polled 0, Flushed 1000, Logged (''routed_to_dlq'', as)] b'"
      "dump env (dlq_envelope cfg msg reason doc (now_ms b)) = Inr body"
proof (cases "has_producer b")
  case False
  with assms have "res = Inr False" "b' = emit (Logged (''dlq_producer_unavailable'', [])) b"
    by (simp_all add: route_to_dlq_def)
  with False show thesis
    by (intro refused [of "''dlq_producer_unavailable''" "[]"]) (simp_all add: grows_emit)
next
  case True
  obtain x b1 where np: "next_produce b = (x, b1)" by fastforce
  note fr = next_produce_frame [OF np]
  show thesis
  proof (cases "dump env (dlq_envelope cfg msg reason doc (now_ms b))")
    case (Inl e)
    with assms True show thesis by (intro thrown) (simp_all add: route_to_dlq_def)
  next
    case (Inr body)
    show thesis
    proof (cases x)
      case None
      let ?as = "[dlq_topic cfg, show_int (m_offset msg), reason]"
      from assms True Inr np None have "res = Inr True"
        "b' = emit (Logged (''routed_to_dlq'', ?as)) (emit (Flushed 1000) (emit (Polled 0) (emit (Produced (m_key msg) body) b1)))"
        by (simp_all add: route_to_dlq_def)
      with fr Inr show thesis by (intro routed [of body ?as]) (simp_all add: grows_def still_running_def)
    next
      case (Some err)
      with np have "produce_plan b \<noteq> []" by (auto simp: next_produce_def split: list.splits)
      moreover from assms True Inr np Some
      have "res = Inr False" "b' = emit (Logged (''dlq_produce_failed'', [err])) b1"
        by (simp_all add: route_to_dlq_def)
      ultimately show thesis
        using fr by (intro refused [of "''dlq_produce_failed''" "[err]"]) (simp_all add: grows_def still_running_def)
    qed
  qed
qed

section \<open>What became of a dead letter\<close>

text \<open>A dead letter of the message was taken by the producer: its envelope holds the offset and the payload.\<close>

definition dead_lettered :: "consumer_config \<Rightarrow> cpp_env \<Rightarrow> message \<Rightarrow> effect list \<Rightarrow> bool" where
  "dead_lettered cfg env msg tr \<longleftrightarrow>
     (\<exists>reason doc now body. dump env (dlq_envelope cfg msg reason doc now) = Inr body
        \<and> (m_key msg, body) \<in> set (produced tr))"

text \<open>\<open>RouteToDLQ\<close> failed, which the log line right before the commit of the message says.\<close>

definition dlq_failed :: "message \<Rightarrow> effect list \<Rightarrow> bool" where
  "dlq_failed msg tr \<longleftrightarrow>
     (\<exists>before_it ev as after_it. tr = before_it @ [Logged (ev, as), Committed (m_offset msg)] @ after_it
        \<and> ev \<in> {''dlq_produce_failed'', ''dlq_producer_unavailable''})"

lemma dead_lettered_append: "dead_lettered cfg env msg tr \<Longrightarrow> dead_lettered cfg env msg (tr @ tr')"
  "dead_lettered cfg env msg tr \<Longrightarrow> dead_lettered cfg env msg (tr' @ tr)"
  by (auto simp: dead_lettered_def)

lemma dlq_failed_append: "dlq_failed msg tr \<Longrightarrow> dlq_failed msg (tr @ tr')" "dlq_failed msg tr \<Longrightarrow> dlq_failed msg (tr' @ tr)"
  unfolding dlq_failed_def by (metis append.assoc)+

lemma dlq_failed_last:
  "ev \<in> {''dlq_produce_failed'', ''dlq_producer_unavailable''} \<Longrightarrow> dlq_failed msg (tr @ [Logged (ev, as), Committed (m_offset msg)])"
  unfolding dlq_failed_def by (metis append_Nil2)

section \<open>One message\<close>

text \<open>Which of the four ways a handled message took.\<close>

definition committed_last :: "int \<Rightarrow> effect list \<Rightarrow> bool" where
  "committed_last k tr \<longleftrightarrow> commits tr = [k] \<and> tr \<noteq> [] \<and> last tr = Committed k"

lemma committed_last_snoc [simp]: "committed_last k (tr @ [Committed k]) \<longleftrightarrow> commits tr = []"
  by (simp add: committed_last_def)

lemma committed_last_append [simp]:
  "commits tr = [] \<Longrightarrow> committed_last k tr' \<Longrightarrow> committed_last k (tr @ tr')"
  by (auto simp: committed_last_def)

lemma committed_last_commits: "committed_last k tr \<Longrightarrow> commits tr = [k]"
  by (simp add: committed_last_def)

datatype handling = Accepted | DeadLettered bool | Interrupted | Thrown string

definition handled ::
    "consumer_config \<Rightarrow> 'v avro_env \<Rightarrow> cpp_env \<Rightarrow> message \<Rightarrow> bool \<Rightarrow> handling \<Rightarrow> effect list \<Rightarrow> bool" where
  "handled cfg av env msg dlq_up h tr \<longleftrightarrow>
     (case h of
        Accepted \<Rightarrow> deserialize av (m_payload msg) \<noteq> None \<and> delivered tr \<and> \<not> dlq_tried tr
          \<and> produced tr = [] \<and> committed_last (m_offset msg) tr
      | DeadLettered flag \<Rightarrow> \<not> delivered tr \<and> dlq_tried tr \<and> committed_last (m_offset msg) tr
          \<and> (flag \<longleftrightarrow> produced tr \<noteq> []) \<and> (if flag then dead_lettered cfg env msg tr else dlq_failed msg tr) \<and> (dlq_up \<longrightarrow> flag)
          \<and> (deserialize av (m_payload msg) = None \<or> failures tr = nat (max_retries cfg))
      | Interrupted \<Rightarrow> \<not> delivered tr \<and> commits tr = [] \<and> produced tr = []
      | Thrown e \<Rightarrow> \<not> delivered tr \<and> commits tr = [] \<and> produced tr = [])"

text \<open>Log, route, commit: the tail of both dead-letter branches.\<close>

lemma dead_letter_step:
  assumes "route_to_dlq cfg env msg reason doc (emit (Logged (ev, as)) b) = (rr, b2)"
    and "ev \<notin> {''routed_to_dlq'', ''dlq_produce_failed'', ''dlq_producer_unavailable''}"
  obtains (thrown) e where "rr = Inl e" "grows b [Logged (ev, as)] b2"
  | (routed) flag tr where "rr = Inr flag" "grows b tr (emit (Committed (m_offset msg)) b2)"
      "\<not> delivered tr" "failures tr = 0" "dlq_tried tr" "committed_last (m_offset msg) tr"
      "flag \<longleftrightarrow> produced tr \<noteq> []" "has_producer b \<and> produce_plan b = [] \<longrightarrow> flag"
      "if flag then dead_lettered cfg env msg tr else dlq_failed msg tr"
  using assms(1)
proof (cases rule: route_to_dlq_cases)
  case (thrown e)
  then show thesis using that(1) grows_emit [of b] by blast
next
  case (refused ev' as')
  have "grows b (([Logged (ev, as)] @ [Logged (ev', as')]) @ [Committed (m_offset msg)])
      (emit (Committed (m_offset msg)) b2)"
    using grows_emit refused(2) grows_emit by (blast intro: grows_trans)
  moreover have "dlq_failed msg (([Logged (ev, as)] @ [Logged (ev', as')]) @ [Committed (m_offset msg)])"
    using dlq_failed_last [OF refused(4), of msg "[Logged (ev, as)]" as'] by simp
  ultimately show thesis using that(2) [OF refused(1)] refused(4,5) by (auto simp: committed_last_def)
next
  case (routed body as')
  have "grows b (([Logged (ev, as)] @ [Produced (m_key msg) body, Polled 0, Flushed 1000, Logged (''routed_to_dlq'', as')])
      @ [Committed (m_offset msg)]) (emit (Committed (m_offset msg)) b2)"
    using grows_emit routed(3) grows_emit by (blast intro: grows_trans)
  moreover have "dead_lettered cfg env msg (([Logged (ev, as)] @ [Produced (m_key msg) body, Polled 0, Flushed 1000, Logged (''routed_to_dlq'', as')])
      @ [Committed (m_offset msg)])"
    using routed(4) by (auto simp: dead_lettered_def)
  ultimately show thesis using that(2) [OF routed(1)] by (simp add: committed_last_def)
qed

lemma handle_unparseable:
  assumes "handle_message cfg av env process msg b = (res, b')"
    and "message_key av env msg = Inr key" "deserialize av (m_payload msg) = None"
  shows "\<exists>h tr. grows b tr b' \<and> handled cfg av env msg (has_producer b \<and> produce_plan b = []) h tr
    \<and> (case h of Thrown e \<Rightarrow> res = Inl e | _ \<Rightarrow> res = Inr ()) \<and> h \<noteq> Interrupted"
proof -
  let ?as = "[show_int (m_offset msg)]" and ?ev = "''unparseable_payload_routing_dlq''"
  obtain rr b2 where rt:
    "route_to_dlq cfg env msg ''Payload deserialization failed'' JNull (emit (Logged (?ev, ?as)) b) = (rr, b2)"
    by fastforce
  have plain: "?ev \<notin> {''routed_to_dlq'', ''dlq_produce_failed'', ''dlq_producer_unavailable''}" by simp
  from rt plain show ?thesis
  proof (cases rule: dead_letter_step)
    case (thrown e)
    with assms rt show ?thesis
      by (intro exI [of _ "Thrown e"] exI [of _ "[Logged (?ev, ?as)]"]) (simp add: handle_message_def handled_def)
  next
    case (routed flag tr)
    with assms rt show ?thesis
      by (intro exI [of _ "DeadLettered flag"] exI [of _ tr]) (auto simp: handle_message_def handled_def)
  qed
qed

lemma handle_exhausted:
  assumes "handle_message cfg av env process msg b = (res, b')"
    and "message_key av env msg = Inr key" "deserialize av (m_payload msg) = Some doc"
    and "retry cfg process doc key (m_offset msg) 1 (initial_backoff_ms cfg) [] b = (False, err, b1)"
    and "read_running b1 = (True, b2)" "grows b tr b2" "produce_plan b2 = produce_plan b"
    and "retry_trace False (nat (max_retries cfg)) True tr"
  shows "\<exists>h tr. grows b tr b' \<and> handled cfg av env msg (has_producer b \<and> produce_plan b = []) h tr
    \<and> (case h of Thrown e \<Rightarrow> res = Inl e | _ \<Rightarrow> res = Inr ()) \<and> h \<noteq> Interrupted"
proof -
  let ?as = "[show_int (m_offset msg), err]" and ?ev = "''retries_exhausted_routing_dlq''"
  obtain rr b4 where rt: "route_to_dlq cfg env msg err doc (emit (Logged (?ev, ?as)) b2) = (rr, b4)" by fastforce
  have plain: "?ev \<notin> {''routed_to_dlq'', ''dlq_produce_failed'', ''dlq_producer_unavailable''}" by simp
  from rt plain show ?thesis
  proof (cases rule: dead_letter_step)
    case (thrown e)
    with assms rt show ?thesis
      by (intro exI [of _ "Thrown e"] exI [of _ "tr @ [Logged (?ev, ?as)]"])
        (auto simp: handle_message_def handled_def retry_trace_def intro: grows_trans)
  next
    case (routed flag tr')
    have "b' = emit (Committed (m_offset msg)) b4" "res = Inr ()"
      using assms rt routed(1) by (simp_all add: handle_message_def)
    moreover have "has_producer b2 = has_producer b" using assms(6) by (simp add: grows_def)
    ultimately show ?thesis
      using assms(6-8) routed
      by (intro exI [of _ "DeadLettered flag"] exI [of _ "tr @ tr'"])
        (auto simp: handled_def retry_trace_def intro: grows_trans dead_lettered_append(2) dlq_failed_append(2) split: if_splits)
  qed
qed

lemma handle_message_effects:
  assumes "handle_message cfg av env process msg b = (res, b')"
  shows "\<exists>h tr. grows b tr b' \<and> handled cfg av env msg (has_producer b \<and> produce_plan b = []) h tr
    \<and> (case h of Thrown e \<Rightarrow> res = Inl e | _ \<Rightarrow> res = Inr ())
    \<and> (h = Interrupted \<longrightarrow> \<not> still_running b')"
proof (cases "message_key av env msg")
  case (Inl e)
  with assms show ?thesis
    by (intro exI [of _ "Thrown e"] exI [of _ "[]"]) (simp add: handle_message_def handled_def grows_refl)
next
  case (Inr key)
  show ?thesis
  proof (cases "deserialize av (m_payload msg)")
    case None
    with handle_unparseable [OF assms Inr] show ?thesis by blast
  next
    case (Some doc)
    obtain ok err b1 where rt:
      "retry cfg process doc key (m_offset msg) 1 (initial_backoff_ms cfg) [] b = (ok, err, b1)"
      by (metis prod_cases3)
    obtain tr where tr: "grows b tr b1" "produce_plan b1 = produce_plan b"
        "retry_trace ok (nat (max_retries cfg)) (still_running b1) tr"
      using retry_effects [OF rt] by auto
    obtain x b2 where rd: "read_running b1 = (x, b2)" by fastforce
    have g2: "grows b tr b2" using grows_trans [OF tr(1) grows_read [OF rd]] by simp
    note rp = read_running_pair [OF rd] read_running_stop [OF rd]
    consider "ok" | "\<not> ok" "x" | "\<not> ok" "\<not> x" by blast
    then show ?thesis
    proof cases
      case 1
      with assms Inr Some rt have "b' = emit (Committed (m_offset msg)) b1" "res = Inr ()"
        by (simp_all add: handle_message_def)
      with tr 1 Some show ?thesis
        by (intro exI [of _ Accepted] exI [of _ "tr @ [Committed (m_offset msg)]"])
          (auto simp: handled_def retry_trace_def intro: grows_trans [OF tr(1) grows_emit])
    next
      case 2
      with handle_exhausted [OF assms Inr Some _ _ g2] rt rd rp tr show ?thesis by auto
    next
      case 3
      with assms Inr Some rt rd g2 rp tr(3) show ?thesis
        by (intro exI [of _ Interrupted] exI [of _ tr])
          (auto simp: handle_message_def handled_def retry_trace_def)
    qed
  qed
qed

section \<open>Whole runs\<close>

lemma handle_poll_effects:
  assumes "handle_poll cfg av env process p b = (res, b')"
  shows "\<exists>tr. grows b tr b' \<and>
    (commits tr = [] \<or> (\<exists>msg. p = PollMessage msg \<and> res = Inr () \<and> commits tr = [m_offset msg]))"
proof (cases p)
  case (PollMessage msg)
  with assms have "handle_message cfg av env process msg b = (res, b')" by (simp add: handle_poll_def)
  from handle_message_effects [OF this] obtain h tr where
    g: "grows b tr b'" and h: "handled cfg av env msg (has_producer b \<and> produce_plan b = []) h tr"
    and r: "case h of Thrown e \<Rightarrow> res = Inl e | _ \<Rightarrow> res = Inr ()" by blast
  from h r have "commits tr = [] \<or> res = Inr () \<and> commits tr = [m_offset msg]"
    by (cases h) (auto simp: handled_def dest: committed_last_commits)
  with g PollMessage show ?thesis by blast
next
  case (PollError e)
  with assms have "b' = emit (Logged (''kafka_consumer_warning'', [e])) b" by (simp add: handle_poll_def)
  with grows_emit show ?thesis by (intro exI [of _ "[Logged (''kafka_consumer_warning'', [e])]"]) simp
qed (use assms in \<open>auto simp: handle_poll_def intro!: exI [of _ "[]"] grows_refl\<close>)

fun poll_offsets :: "poll list \<Rightarrow> int list" where
  "poll_offsets [] = []"
| "poll_offsets (PollMessage msg # ps) = m_offset msg # poll_offsets ps"
| "poll_offsets (_ # ps) = poll_offsets ps"

lemma poll_offsets_Cons:
  "poll_offsets (p # ps) = (case p of PollMessage msg \<Rightarrow> [m_offset msg] | _ \<Rightarrow> []) @ poll_offsets ps"
  by (cases p) auto

lemma run_commits:
  "run cfg av env process polls b = (out, b') \<Longrightarrow>
   \<exists>tr. trace b' = trace b @ tr \<and> subseq (commits tr) (poll_offsets polls)"
proof (induction polls arbitrary: b)
  case Nil
  obtain x b1 where rd: "read_running b = (x, b1)" by fastforce
  have "trace b' = trace b \<or> trace b' = trace b @ wind_up_trace b1"
    using Nil rd read_running_pair [OF rd] by (cases x) auto
  then show ?case
    by (elim disjE) (rule exI [of _ "[]"], simp, rule exI [of _ "wind_up_trace b1"], simp)
next
  case (Cons p ps)
  obtain x b1 where rd: "read_running b = (x, b1)" by fastforce
  note tr1 = read_running_pair [OF rd]
  show ?case
  proof (cases x)
    case False
    with Cons.prems rd tr1 show ?thesis
      by (intro exI [of _ "wind_up_trace b1"]) auto
  next
    case True
    obtain r b2 where hp: "handle_poll cfg av env process p b1 = (r, b2)" by fastforce
    obtain tr where tr: "grows b1 tr b2" "commits tr = [] \<or>
        (\<exists>msg. p = PollMessage msg \<and> r = Inr () \<and> commits tr = [m_offset msg])"
      using handle_poll_effects [OF hp] by blast
    have sub: "subseq (commits tr) (poll_offsets [p])"
      using tr(2) by (auto simp: poll_offsets_Cons)
    show ?thesis
    proof (cases r)
      case (Inl e)
      with Cons.prems rd True hp have "b' = b2" by simp
      with tr(1) tr1 sub show ?thesis
        by (intro exI [of _ tr]) (auto simp: grows_def poll_offsets_Cons [of p ps] poll_offsets_Cons [of p "[]"]
            intro: subseq_order.order_trans [OF sub])
    next
      case (Inr u)
      with Cons.prems rd True hp have "run cfg av env process ps b2 = (out, b')" by simp
      from Cons.IH [OF this] obtain tr2 where
        tr2: "trace b' = trace b2 @ tr2" "subseq (commits tr2) (poll_offsets ps)" by blast
      have "subseq (commits tr @ commits tr2) (poll_offsets [p] @ poll_offsets ps)"
        using sub tr2(2) by (rule list_emb_append_mono)
      then have "subseq (commits (tr @ tr2)) (poll_offsets (p # ps))"
        by (simp add: poll_offsets_Cons [of p ps] poll_offsets_Cons [of p "[]"])
      moreover have "trace b' = trace b @ (tr @ tr2)" using tr(1) tr1 tr2(1) by (simp add: grows_def)
      ultimately show ?thesis by blast
    qed
  qed
qed

lemma run_stops:
  "stop_in b = Some n \<Longrightarrow> n \<le> length polls \<Longrightarrow> fst (run cfg av env process polls b) \<noteq> Waiting"
proof (induction polls arbitrary: b n)
  case Nil
  then show ?case by (simp add: read_running_def)
next
  case (Cons p ps)
  show ?case
  proof (cases n)
    case 0
    with Cons.prems show ?thesis by (simp add: read_running_def)
  next
    case (Suc k)
    let ?b1 = "b\<lparr>stop_in := Some k\<rparr>"
    have rd: "read_running b = (True, ?b1)" using Cons.prems(1) Suc by (simp add: read_running_def)
    obtain r b2 where hp: "handle_poll cfg av env process p ?b1 = (r, b2)" by fastforce
    have "stop_le (stop_in b2) (Some k)" using handle_poll_effects [OF hp] by (auto simp: grows_def)
    then obtain m where "stop_in b2 = Some m" "m \<le> k" by (auto simp: stop_le_def)
    with Cons.IH [of b2 m] Cons.prems(2) Suc have "fst (run cfg av env process ps b2) \<noteq> Waiting" by simp
    with rd hp show ?thesis by (cases r) auto
  qed
qed

section \<open>The backoff schedule\<close>

fun backoffs :: "int \<Rightarrow> int \<Rightarrow> nat \<Rightarrow> int list" where
  "backoffs d cap 0 = []"
| "backoffs d cap (Suc n) = d # backoffs (min (d * 2) cap) cap n"

lemma backoffs_length [simp]: "length (backoffs d cap n) = n"
  by (induction n arbitrary: d) auto

lemma capped_doubling:
  assumes "0 \<le> (cap :: int)"
  shows "min (min (d * 2) cap * 2 ^ j) cap = min (d * 2 ^ Suc j) cap"
proof -
  have grow: "cap \<le> cap * 2 ^ j" using assms by (simp add: mult_le_cancel_left1)
  show ?thesis
  proof (cases "d * 2 \<le> cap")
    case True
    then show ?thesis by (simp add: mult.assoc)
  next
    case False
    then have "cap * 2 ^ j \<le> d * 2 * 2 ^ j" by (intro mult_right_mono) simp_all
    then have "cap \<le> d * 2 * 2 ^ j" using grow by (rule order_trans [rotated])
    moreover have "d * 2 ^ Suc j = d * 2 * 2 ^ j" by simp
    ultimately have "cap \<le> d * 2 ^ Suc j" by (simp only:)
    with grow False show ?thesis by (simp add: min_absorb2)
  qed
qed

lemma backoffs_nth:
  "0 \<le> cap \<Longrightarrow> k < n \<Longrightarrow> backoffs d cap n ! k = (if k = 0 then d else min (d * 2 ^ k) cap)"
proof (induction n arbitrary: d k)
  case (Suc n)
  show ?case
  proof (cases k)
    case (Suc j)
    with Suc.prems Suc.IH [of j "min (d * 2) cap"] show ?thesis
      using capped_doubling [of cap d j] by auto
  qed simp
qed simp

end
