(* ===== verification/Record_Sink.thy ===== *)
theory Record_Sink
  imports Consumer_Guarantees
begin

text \<open>
  The contract between \<open>KafkaConsumerBase\<close> and the sinks that override \<open>ProcessRecord\<close>, as a
  locale: a normal return stores the record, what is stored stays stored, an invariant of the
  sink's state is kept. From it, once for all sinks: no committed message is lost silently, that is, it is
  stored, its dead letter was taken by the producer, or the log says that the dead letter failed.
\<close>

section \<open>The dead letter queue is up\<close>

definition dlq_up :: "'w consumer \<Rightarrow> bool" where
  "dlq_up b \<longleftrightarrow> has_producer b \<and> produce_plan b = []"

lemma dlq_up_frame [simp]: "dlq_up (emit e b) = dlq_up b"
  by (simp add: dlq_up_def)

lemma dlq_up_read: "read_running b = (x, b') \<Longrightarrow> dlq_up b' = dlq_up b"
  by (auto simp: dlq_up_def dest: read_running_pair)

lemma route_to_dlq_up:
  assumes "route_to_dlq cfg env msg reason doc b = (res, b')" "dlq_up b"
  shows "sink b' = sink b \<and> dlq_up b' \<and>
    (case res of
       Inl e \<Rightarrow> trace b' = trace b
     | Inr _ \<Rightarrow> \<exists>tr. trace b' = trace b @ tr \<and> commits tr = [] \<and> dead_lettered cfg env msg tr)"
proof (cases "dump env (dlq_envelope cfg msg reason doc (now_ms b))")
  case (Inl e)
  with assms show ?thesis by (auto simp: route_to_dlq_def dlq_up_def)
next
  case (Inr body)
  let ?as = "[dlq_topic cfg, show_int (m_offset msg), reason]"
  have b': "res = Inr True" "b' = emit (Logged (''routed_to_dlq'', ?as)) (emit (Flushed 1000) (emit (Polled 0) (emit (Produced (m_key msg) body) b)))"
    using assms Inr by (auto simp: route_to_dlq_def dlq_up_def next_produce_def)
  have "dead_lettered cfg env msg [Produced (m_key msg) body, Polled 0, Flushed 1000, Logged (''routed_to_dlq'', ?as)]"
    using Inr by (auto simp: dead_lettered_def)
  with b' assms(2) show ?thesis by auto
qed

section \<open>What the loop keeps of the sink\<close>

text \<open>
  \<open>P\<close> is kept by every call of \<open>ProcessRecord\<close>, \<open>Q\<close> holds after one that returns normally: then \<open>P\<close>
  holds after the retries, and \<open>Q\<close> when they succeeded.
\<close>

lemma attempt_keeps:
  assumes "attempt_once process doc key offset k b = (r, b')" "P (sink b)"
    and "\<And>w res w'. P w \<Longrightarrow> process doc key offset w = (res, w') \<Longrightarrow> P w' \<and> (res = Inr () \<longrightarrow> Q w')"
  shows "P (sink b') \<and> (r = Inr () \<longrightarrow> Q (sink b')) \<and> (dlq_up b' \<longleftrightarrow> dlq_up b)"
proof -
  obtain x w where p: "process doc key offset (sink b) = (x, w)" by fastforce
  from assms(3) [OF assms(2) p] assms(1) p show ?thesis
    by (auto simp: attempt_once_def dlq_up_def split: sum.splits)
qed

lemma retry_keeps:
  assumes "retry cfg process doc key offset k bo err b = (ok, err', b')" "P (sink b)"
    and keeps: "\<And>w res w'. P w \<Longrightarrow> process doc key offset w = (res, w') \<Longrightarrow> P w' \<and> (res = Inr () \<longrightarrow> Q w')"
  shows "P (sink b') \<and> (ok \<longrightarrow> Q (sink b')) \<and> (dlq_up b' \<longleftrightarrow> dlq_up b)"
  using assms(1,2)
proof (induction "nat (max_retries cfg + 1 - k)" arbitrary: k bo err b)
  case 0
  from 0(2) show ?case
    by (cases rule: retry_cases) (use 0(1,3) in auto)
next
  case (Suc n)
  from Suc.prems(1) show ?case
  proof (cases rule: retry_cases)
    case exhausted
    with Suc.hyps(2) show ?thesis by simp
  next
    case stopped
    with Suc.prems(2) show ?thesis
      using read_running_pair [OF stopped(2)] dlq_up_read [OF stopped(2)] by auto
  next
    case (success b1)
    note rd = read_running_pair [OF success(2)]
    then have "P (sink b1)" using Suc.prems(2) by simp
    from attempt_keeps [where Q = Q, OF success(3) this keeps] dlq_up_read [OF success(2)] show ?thesis by simp
  next
    case (failure b1 e b2 b3 bo')
    have "P (sink b1)" using read_running_pair [OF failure(2)] Suc.prems(2) by simp
    note at = attempt_keeps [where Q = Q, OF failure(3) this keeps]
    have b3: "sink b3 = sink b2" "dlq_up b3 = dlq_up b2"
      using failure(5) by (auto dest: read_running_pair dlq_up_read split: if_splits prod.splits bool.splits)
    have "n = nat (max_retries cfg + 1 - (k + 1))" using Suc.hyps(2) by simp
    from Suc.hyps(1) [OF this failure(4)] at b3 dlq_up_read [OF failure(2)] show ?thesis by simp
  qed
qed

text \<open>Routing to the dead letter queue does not touch the sink; it throws, succeeds, or fails with a log line.\<close>

definition routing_kept :: "consumer_config \<Rightarrow> cpp_env \<Rightarrow> message \<Rightarrow> bool result \<Rightarrow> 'w consumer \<Rightarrow> 'w consumer \<Rightarrow> bool" where
  "routing_kept cfg env msg res b b' \<longleftrightarrow>
     sink b' = sink b \<and>
     (\<exists>tr. trace b' = trace b @ tr \<and> commits tr = [] \<and>
        ((\<forall>e. res \<noteq> Inl e) \<longrightarrow> dead_lettered cfg env msg tr \<or> dlq_failed msg (tr @ [Committed (m_offset msg)])))"

lemma route_to_dlq_kept:
  assumes "route_to_dlq cfg env msg reason doc b = (res, b')"
  shows "routing_kept cfg env msg res b b'"
  using assms
proof (cases rule: route_to_dlq_cases)
  case (refused ev as)
  with dlq_failed_last [OF refused(4), of msg "[]" as] show ?thesis by (auto simp: routing_kept_def grows_def)
next
  case (routed body as)
  then have "dead_lettered cfg env msg [Produced (m_key msg) body, Polled 0, Flushed 1000, Logged (''routed_to_dlq'', as)]"
    by (auto simp: dead_lettered_def)
  with routed show ?thesis by (auto simp: routing_kept_def grows_def)
qed (auto simp: routing_kept_def)

definition retries_exhausted :: "effect list \<Rightarrow> bool" where
  "retries_exhausted tr \<longleftrightarrow>
     list_ex (\<lambda>e. case e of Logged (name, _) \<Rightarrow> name = ''retries_exhausted_routing_dlq'' | _ \<Rightarrow> False) tr"

lemma retries_exhausted_append [simp]:
  "retries_exhausted (xs @ ys) \<longleftrightarrow> retries_exhausted xs \<or> retries_exhausted ys"
  by (simp add: retries_exhausted_def)

text \<open>
  What handling a message comes to: no commit (then the loop ends, or an exception left it), or a commit
  of its own offset after \<open>Q\<close> or after the way through the dead letter queue.
\<close>

definition message_kept ::
    "consumer_config \<Rightarrow> 'v avro_env \<Rightarrow> cpp_env \<Rightarrow> message \<Rightarrow> (json \<Rightarrow> string \<Rightarrow> 'w \<Rightarrow> bool) \<Rightarrow> unit result
      \<Rightarrow> 'w consumer \<Rightarrow> 'w consumer \<Rightarrow> bool" where
  "message_kept cfg av env msg Q res b b' \<longleftrightarrow>
     (\<exists>tr. trace b' = trace b @ tr \<and>
        (commits tr = [] \<and> (res = Inr () \<longrightarrow> \<not> still_running b')
         \<or> commits tr = [m_offset msg] \<and> res = Inr () \<and>
           ((\<exists>doc key. deserialize av (m_payload msg) = Some doc \<and> message_key av env msg = Inr key
               \<and> Q doc key (sink b'))
            \<or> (dead_lettered cfg env msg tr \<or> dlq_failed msg tr)
              \<and> (deserialize av (m_payload msg) = None \<or> retries_exhausted tr))))"

lemma message_kept_dlq:
  assumes "route_to_dlq cfg env msg reason doc b1 = (r, b2)"
    and "trace b1 = trace b @ tr1" "commits tr1 = []"
    and "(res, b') = (case r of Inl e \<Rightarrow> (Inl e, b2) | Inr _ \<Rightarrow> (Inr (), emit (Committed (m_offset msg)) b2))"
    and "deserialize av (m_payload msg) = None \<or> retries_exhausted tr1"
  shows "sink b' = sink b1 \<and> message_kept cfg av env msg Q res b b'"
proof -
  from route_to_dlq_kept [OF assms(1)] obtain tr where tr: "sink b2 = sink b1"
      "trace b2 = trace b1 @ tr" "commits tr = []"
      "(\<forall>e. r \<noteq> Inl e) \<longrightarrow> dead_lettered cfg env msg tr \<or> dlq_failed msg (tr @ [Committed (m_offset msg)])"
    unfolding routing_kept_def by blast
  show ?thesis
  proof (cases r)
    case (Inl e)
    with tr assms show ?thesis by (auto simp: message_kept_def)
  next
    case (Inr f)
    let ?tr = "tr1 @ tr @ [Committed (m_offset msg)]"
    have "dead_lettered cfg env msg ?tr \<or> dlq_failed msg ?tr"
      using tr(4) Inr dlq_failed_append(2) [of msg _ tr1] by (auto intro: dead_lettered_append)
    moreover have "deserialize av (m_payload msg) = None \<or> retries_exhausted ?tr" using assms(5) by auto
    moreover have "res = Inr ()" "b' = emit (Committed (m_offset msg)) b2" "trace b' = trace b @ ?tr" "commits ?tr = [m_offset msg]"
      using assms(2-4) Inr tr by simp_all
    ultimately show ?thesis
      using tr(1) unfolding message_kept_def by auto
  qed
qed

lemma handle_message_keeps:
  assumes "handle_message cfg av env process msg b = (res, b')" "P (sink b)"
    and keeps: "\<And>doc key w res w'. deserialize av (m_payload msg) = Some doc \<Longrightarrow> message_key av env msg = Inr key \<Longrightarrow>
      P w \<Longrightarrow> process doc key (m_offset msg) w = (res, w') \<Longrightarrow> P w' \<and> (res = Inr () \<longrightarrow> Q doc key w')"
  shows "P (sink b') \<and> message_kept cfg av env msg Q res b b'"
proof (cases "message_key av env msg")
  case (Inl e)
  with assms(1,2) show ?thesis by (auto simp: handle_message_def message_kept_def)
next
  case (Inr key)
  show ?thesis
  proof (cases "deserialize av (m_payload msg)")
    case None
    let ?e = "Logged (''unparseable_payload_routing_dlq'', [show_int (m_offset msg)])"
    obtain r b2 where rt: "route_to_dlq cfg env msg ''Payload deserialization failed'' JNull (emit ?e b) = (r, b2)" by fastforce
    have "(res, b') = (case r of Inl e \<Rightarrow> (Inl e, b2) | Inr _ \<Rightarrow> (Inr (), emit (Committed (m_offset msg)) b2))"
      using assms(1) Inr None rt by (auto simp: handle_message_def split: sum.splits)
    from message_kept_dlq [where Q = Q and av = av and b = b and ?tr1.0 = "[?e]", OF rt _ _ this] None assms(2) show ?thesis by simp
  next
    case (Some doc)
    obtain ok err b1 where rt: "retry cfg process doc key (m_offset msg) 1 (initial_backoff_ms cfg) [] b = (ok, err, b1)"
      by (metis prod_cases3)
    note sk = retry_keeps [where P = P and Q = "Q doc key", OF rt assms(2) keeps [OF Some Inr]]
    obtain tr where tr: "trace b1 = trace b @ tr" "commits tr = []"
      using retry_effects [OF rt] by (auto simp: grows_def retry_trace_def)
    obtain x b2 where rd: "read_running b1 = (x, b2)" by fastforce
    note rp = read_running_pair [OF rd] read_running_stop [OF rd]
    consider "ok" | "\<not> ok" "x" | "\<not> ok" "\<not> x" by blast
    then show ?thesis
    proof cases
      case 1
      then have "b' = emit (Committed (m_offset msg)) b1" "res = Inr ()"
        using assms(1) Inr Some rt by (simp_all add: handle_message_def)
      with sk tr 1 Inr Some show ?thesis by (auto simp: message_kept_def)
    next
      case 2
      let ?e = "Logged (''retries_exhausted_routing_dlq'', [show_int (m_offset msg), err])"
      obtain r b4 where rq: "route_to_dlq cfg env msg err doc (emit ?e b2) = (r, b4)" by fastforce
      have res: "(res, b') = (case r of Inl e \<Rightarrow> (Inl e, b4) | Inr _ \<Rightarrow> (Inr (), emit (Committed (m_offset msg)) b4))"
        using assms(1) Inr Some rt rd rq 2 by (auto simp: handle_message_def split: sum.splits)
      have "retries_exhausted (tr @ [?e])" by (simp add: retries_exhausted_def)
      with message_kept_dlq [where Q = Q and av = av and b = b and ?tr1.0 = "tr @ [?e]", OF rq _ _ res] sk rp tr dlq_up_read [OF rd]
      show ?thesis by simp
    next
      case 3
      then have "b' = b2" "res = Inr ()" using assms(1) Inr Some rt rd by (simp_all add: handle_message_def)
      with 3 sk tr rp dlq_up_read [OF rd] show ?thesis
        using read_running_stop [OF rd] rd by (auto simp: message_kept_def read_running_def still_running_def split: option.splits nat.splits)
    qed
  qed
qed

section \<open>Settled messages\<close>

text \<open>What became of a message whose offset was committed.\<close>

definition settled ::
    "(json \<Rightarrow> string \<Rightarrow> 'w \<Rightarrow> bool) \<Rightarrow> consumer_config \<Rightarrow> 'v avro_env \<Rightarrow> cpp_env \<Rightarrow> effect list \<Rightarrow> 'w \<Rightarrow> message \<Rightarrow> bool" where
  "settled stored cfg av env tr w msg \<longleftrightarrow>
     (\<exists>doc key. deserialize av (m_payload msg) = Some doc \<and> message_key av env msg = Inr key \<and> stored doc key w)
     \<or> dead_lettered cfg env msg tr \<or> dlq_failed msg tr"

definition message_fits :: "(json \<Rightarrow> string \<Rightarrow> bool) \<Rightarrow> 'v avro_env \<Rightarrow> cpp_env \<Rightarrow> message \<Rightarrow> bool" where
  "message_fits fits av env msg \<longleftrightarrow>
     (case (deserialize av (m_payload msg), message_key av env msg) of
        (Some doc, Inr key) \<Rightarrow> fits doc key
      | _ \<Rightarrow> True)"

definition poll_message :: "poll \<Rightarrow> message option" where
  "poll_message p = (case p of PollMessage msg \<Rightarrow> Some msg | _ \<Rightarrow> None)"

section \<open>The contract\<close>

locale record_sink =
  fixes process :: "'w processor"
    and inv :: "'w \<Rightarrow> bool"
    and fits :: "json \<Rightarrow> string \<Rightarrow> bool"
    and stored :: "json \<Rightarrow> string \<Rightarrow> 'w \<Rightarrow> bool"
  assumes process_inv: "inv w \<Longrightarrow> fits doc key \<Longrightarrow> process doc key offset w = (res, w') \<Longrightarrow> inv w'"
    and process_stores: "inv w \<Longrightarrow> fits doc key \<Longrightarrow> process doc key offset w = (Inr (), w') \<Longrightarrow> stored doc key w'"
    and stored_stays: "inv w \<Longrightarrow> fits doc key \<Longrightarrow> stored doc' key' w \<Longrightarrow> process doc key offset w = (res, w')
      \<Longrightarrow> stored doc' key' w'"
begin

definition later :: "'w \<Rightarrow> 'w \<Rightarrow> bool" where
  "later w w' \<longleftrightarrow> inv w' \<and> (\<forall>doc key. stored doc key w \<longrightarrow> stored doc key w')"

lemma later_refl: "inv w \<Longrightarrow> later w w"
  by (simp add: later_def)

lemma later_trans: "later u v \<Longrightarrow> later v w \<Longrightarrow> later u w"
  by (simp add: later_def)

lemma settled_later:
  "settled stored cfg av env tr w msg \<Longrightarrow> later w w' \<Longrightarrow> settled stored cfg av env (tr @ tr') w' msg"
  by (auto simp: settled_def later_def intro: dead_lettered_append(1) dlq_failed_append(1))

lemma settled_prefix: "settled stored cfg av env tr w msg \<Longrightarrow> settled stored cfg av env (tr' @ tr) w msg"
  by (auto simp: settled_def intro: dead_lettered_append(2) dlq_failed_append(2))

text \<open>A message and the sink: at most its own commit, and a commit only when it is settled.\<close>

definition settles :: "consumer_config \<Rightarrow> 'v avro_env \<Rightarrow> cpp_env \<Rightarrow> message \<Rightarrow> 'w consumer \<Rightarrow> 'w consumer \<Rightarrow> bool" where
  "settles cfg av env msg b b' \<longleftrightarrow>
     later (sink b) (sink b') \<and>
     (\<exists>tr. trace b' = trace b @ tr \<and>
        (commits tr = [] \<or> commits tr = [m_offset msg] \<and> settled stored cfg av env tr (sink b') msg))"

lemma handle_message_later:
  assumes "handle_message cfg av env process msg b = (res, b')" "inv (sink b)" "message_fits fits av env msg"
  shows "later (sink b) (sink b') \<and> message_kept cfg av env msg stored res b b'"
proof (rule handle_message_keeps [where P = "later (sink b)", OF assms(1) later_refl [OF assms(2)]])
  fix doc key w r w'
  assume "deserialize av (m_payload msg) = Some doc" "message_key av env msg = Inr key"
  then have fits: "fits doc key" using assms(3) by (simp add: message_fits_def)
  assume w: "later (sink b) w" and p: "process doc key (m_offset msg) w = (r, w')"
  have i: "inv w" using w by (simp add: later_def)
  have "later w w'" using process_inv [OF i fits p] stored_stays [OF i fits _ p] by (simp add: later_def)
  with w process_stores [OF i fits] p show "later (sink b) w' \<and> (r = Inr () \<longrightarrow> stored doc key w')"
    by (auto intro: later_trans)
qed

lemma handle_message_settles:
  assumes "handle_message cfg av env process msg b = (res, b')" "inv (sink b)" "message_fits fits av env msg"
  shows "settles cfg av env msg b b'"
  using handle_message_later [OF assms]
  unfolding message_kept_def settles_def settled_def by blast

lemma handle_poll_settles:
  assumes "handle_poll cfg av env process p b = (res, b')" "inv (sink b)"
    and "case poll_message p of None \<Rightarrow> True | Some msg \<Rightarrow> message_fits fits av env msg"
  obtains (none) tr where "later (sink b) (sink b')" "trace b' = trace b @ tr" "commits tr = []"
  | (committed) msg tr where "poll_message p = Some msg" "later (sink b) (sink b')"
      "trace b' = trace b @ tr" "commits tr = [m_offset msg]" "settled stored cfg av env tr (sink b') msg"
proof (cases "poll_message p")
  case (Some msg)
  then have "handle_message cfg av env process msg b = (res, b')" "message_fits fits av env msg"
    using assms by (auto simp: handle_poll_def poll_message_def split: poll.splits)
  from handle_message_settles [OF this(1) assms(2) this(2)] show thesis
    using that Some by (auto simp: settles_def)
next
  case None
  with assms obtain tr where "trace b' = trace b @ tr" "commits tr = []" "sink b' = sink b"
    by (auto simp: handle_poll_def poll_message_def split: poll.splits)
  then show thesis using that(1) [of tr] assms(2) by (simp add: later_refl)
qed

lemma run_settles:
  assumes "run cfg av env process polls b = (out, b')" "inv (sink b)"
    and "list_all (message_fits fits av env) (List.map_filter poll_message polls)"
  shows "\<exists>tr msgs. trace b' = trace b @ tr \<and> commits tr = map m_offset msgs
    \<and> subseq msgs (List.map_filter poll_message polls)
    \<and> list_all (settled stored cfg av env tr (sink b')) msgs \<and> later (sink b) (sink b')"
  using assms
proof (induction polls arbitrary: b)
  case Nil
  obtain x b1 where rd: "read_running b = (x, b1)" by fastforce
  show ?case
    by (rule exI [of _ "if x then [] else wind_up_trace b1"], rule exI [of _ "[]"])
      (use Nil rd read_running_pair [OF rd] in \<open>auto intro: later_refl split: if_splits bool.splits\<close>)
next
  case (Cons p ps)
  obtain x b1 where rd: "read_running b = (x, b1)" by fastforce
  note rp = read_running_pair [OF rd]
  show ?case
  proof (cases x)
    case False
    with Cons.prems rd rp show ?thesis
      by (intro exI [of _ "wind_up_trace b1"] exI [of _ "[]"]) (auto intro: later_refl)
  next
    case True
    obtain r b2 where hp: "handle_poll cfg av env process p b1 = (r, b2)" by fastforce
    have pre: "inv (sink b1)" using Cons.prems rp by simp
    have fit: "case poll_message p of None \<Rightarrow> True | Some msg \<Rightarrow> message_fits fits av env msg"
      using Cons.prems(3) by (auto simp: List.map_filter_simps split: option.splits)
    obtain tr msgs where h: "later (sink b) (sink b2)" "trace b2 = trace b @ tr"
        "commits tr = map m_offset msgs" "list_all (settled stored cfg av env tr (sink b2)) msgs"
        "subseq msgs (List.map_filter poll_message [p])"
      using hp pre fit
    proof (cases rule: handle_poll_settles)
      case (none tr)
      with rp that [of tr "[]"] show ?thesis by simp
    next
      case (committed msg tr)
      with rp that [of tr "[msg]"] show ?thesis by (simp add: List.map_filter_simps)
    qed
    have split: "List.map_filter poll_message (p # ps) = List.map_filter poll_message [p] @ List.map_filter poll_message ps"
      by (auto simp: List.map_filter_simps split: option.splits)
    show ?thesis
    proof (cases r)
      case (Inl e)
      with Cons.prems(1) rd True hp have "b' = b2" by simp
      moreover have "subseq msgs (List.map_filter poll_message (p # ps))"
        unfolding split using h(5) by (rule subseq_rev_drop_many)
      ultimately show ?thesis using h by blast
    next
      case (Inr u)
      with Cons.prems(1) rd True hp have rest: "run cfg av env process ps b2 = (out, b')" by simp
      have "inv (sink b2)" using h(1) by (simp add: later_def)
      moreover have "list_all (message_fits fits av env) (List.map_filter poll_message ps)"
        using Cons.prems(3) unfolding split by simp
      ultimately obtain tr2 msgs2 where t: "trace b' = trace b2 @ tr2" "commits tr2 = map m_offset msgs2"
          "subseq msgs2 (List.map_filter poll_message ps)" "list_all (settled stored cfg av env tr2 (sink b')) msgs2"
          "later (sink b2) (sink b')"
        using Cons.IH [OF rest] by blast
      have "list_all (settled stored cfg av env (tr @ tr2) (sink b')) (msgs @ msgs2)"
        using h(4) t(4,5) by (auto simp: list_all_iff intro: settled_later settled_prefix)
      moreover have "subseq (msgs @ msgs2) (List.map_filter poll_message (p # ps))"
        unfolding split using h(5) t(3) by (rule list_emb_append_mono)
      ultimately show ?thesis
        using h t by (intro exI [of _ "tr @ tr2"] exI [of _ "msgs @ msgs2"]) (auto intro: later_trans)
    qed
  qed
qed

end

end
