(* ===== verification/Versioned_Cache.thy ===== *)
theory Versioned_Cache
  imports Cdc_Prelude
begin

text \<open>
  What the order cache promises, without Redis: per order the highest log sequence number seen
  and the document that came with it (none after a delete). \<open>rank\<close> is how the implementation
  compares sequence numbers. The result: the final cache depends only on which updates were
  delivered, not on their order or multiplicity.
\<close>

type_synonym 'd versioned = "string \<Rightarrow> (int \<times> 'd option) option"
type_synonym 'd update = "string \<times> int \<times> 'd option"

definition versioned_put :: "(int \<Rightarrow> int) \<Rightarrow> 'd update \<Rightarrow> 'd versioned \<Rightarrow> 'd versioned" where
  "versioned_put rank u m =
     (case u of (i, n, d) \<Rightarrow>
        (case m i of
           Some (cur, _) \<Rightarrow> if rank n \<le> rank cur then m else m(i \<mapsto> (n, d))
         | None \<Rightarrow> m(i \<mapsto> (n, d))))"

definition versioned_run :: "(int \<Rightarrow> int) \<Rightarrow> 'd update list \<Rightarrow> 'd versioned" where
  "versioned_run rank us = fold (versioned_put rank) us (\<lambda>_. None)"

lemma versioned_put_other: "j \<noteq> i \<Longrightarrow> versioned_put rank (i, n, d) m j = m j"
  by (auto simp: versioned_put_def split: option.splits)

lemma versioned_put_same:
  "versioned_put rank (i, n, d) m i =
     (case m i of Some (cur, d') \<Rightarrow> if rank n \<le> rank cur then Some (cur, d') else Some (n, d)
      | None \<Rightarrow> Some (n, d))"
  by (auto simp: versioned_put_def split: option.splits)

text \<open>Sequence numbers only move up.\<close>

lemma versioned_put_mono:
  assumes "m i = Some (cur, d')"
  obtains n d where "versioned_put rank u m i = Some (n, d)" "rank cur \<le> rank n"
proof -
  obtain j n d where u: "u = (j, n, d)" by (cases u) auto
  show thesis
  proof (cases "i = j")
    case True
    then show thesis
      using assms that by (cases "rank n \<le> rank cur") (auto simp: u versioned_put_same)
  next
    case False
    then show thesis using assms that by (auto simp: u versioned_put_other)
  qed
qed

lemma versioned_put_mono_int:
  assumes "m i = Some (cur, d')" "\<And>a b. rank a < rank b \<Longrightarrow> a < b"
  shows "\<exists>n d. versioned_put rank u m i = Some (n, d) \<and> cur \<le> n"
proof -
  obtain j n d where u: "u = (j, n, d)" by (cases u) auto
  show ?thesis
    using assms(1) assms(2) [of cur n]
    by (cases "i = j"; cases "rank n \<le> rank cur")
      (auto simp: u versioned_put_same versioned_put_other not_le intro: less_imp_le)
qed

text \<open>Delivering an update twice is delivering it once.\<close>

lemma versioned_put_idem: "versioned_put rank u (versioned_put rank u m) = versioned_put rank u m"
  by (cases u) (auto simp: versioned_put_def split: option.splits)

text \<open>
  A source of updates is consistent when two updates of one order with equal rank are the same
  update; then the order of delivery does not matter.
\<close>

definition consistent :: "(int \<Rightarrow> int) \<Rightarrow> 'd update set \<Rightarrow> bool" where
  "consistent rank U \<longleftrightarrow>
     (\<forall>i n d n' d'. (i, n, d) \<in> U \<longrightarrow> (i, n', d') \<in> U \<longrightarrow> rank n = rank n' \<longrightarrow> n = n' \<and> d = d')"

definition is_latest :: "(int \<Rightarrow> int) \<Rightarrow> 'd update set \<Rightarrow> string \<Rightarrow> (int \<times> 'd option) option \<Rightarrow> bool" where
  "is_latest rank U i e \<longleftrightarrow>
     (case e of
        None \<Rightarrow> (\<forall>n d. (i, n, d) \<notin> U)
      | Some (n, d) \<Rightarrow> (i, n, d) \<in> U \<and> (\<forall>n' d'. (i, n', d') \<in> U \<longrightarrow> rank n' \<le> rank n))"

lemma is_latest_unique:
  "consistent rank U \<Longrightarrow> is_latest rank U i e \<Longrightarrow> is_latest rank U i e' \<Longrightarrow> e = e'"
  by (auto simp: is_latest_def consistent_def split: option.splits prod.splits) (meson antisym)+

lemma is_latest_put:
  assumes "is_latest rank U i (m i)"
  shows "is_latest rank (insert u U) i (versioned_put rank u m i)"
proof -
  obtain j n d where u: "u = (j, n, d)" by (cases u) auto
  show ?thesis
  proof (cases "i = j")
    case True
    with assms show ?thesis
      by (auto simp: u is_latest_def versioned_put_same split: option.splits)
  next
    case False
    with assms show ?thesis
      by (auto simp: u is_latest_def versioned_put_other split: option.splits)
  qed
qed

lemma is_latest_fold:
  "(\<And>i. is_latest rank U i (m i)) \<Longrightarrow> is_latest rank (set us \<union> U) i (fold (versioned_put rank) us m i)"
proof (induction us arbitrary: U m)
  case Nil
  then show ?case by simp
next
  case (Cons u us)
  have "is_latest rank (set us \<union> insert u U) i (fold (versioned_put rank) us (versioned_put rank u m) i)"
    by (rule Cons.IH) (rule is_latest_put, rule Cons.prems)
  then show ?case by simp
qed

lemma versioned_run_latest: "is_latest rank (set us) i (versioned_run rank us i)"
  unfolding versioned_run_def
  using is_latest_fold [of rank "{}" "\<lambda>_. None" us i] by (simp add: is_latest_def)

lemma versioned_run_set:
  assumes "consistent rank (set us)" "set us = set vs"
  shows "versioned_run rank us = versioned_run rank vs"
proof
  fix i
  show "versioned_run rank us i = versioned_run rank vs i"
    using is_latest_unique [OF assms(1) versioned_run_latest] versioned_run_latest [of rank vs i] assms(2)
    by simp
qed

end
