(* ===== verification/Redis_Updater.thy ===== *)
theory Redis_Updater
  imports Order_Event Redis_Link Versioned_Cache
begin

text \<open>
  \<open>RedisUpdater\<close> (\<open>consumers/src/redis_updater.cpp\<close>): the sink that keeps the order cache. Its
  \<open>ProcessRecord\<close> on every branch, the abstraction of the Redis key space to a versioned cache,
  the refinement of the versioned cache by \<open>ProcessRecord\<close>, and what follows for stale and
  repeated deliveries.
\<close>

section \<open>ProcessRecord\<close>

definition order_key :: "string \<Rightarrow> string" where
  "order_key order_id = ''order:'' @ order_id"

definition cache_ttl :: nat where "cache_ttl = 86400"

definition reply_error :: "reply option \<Rightarrow> string option" where
  "reply_error r =
     (case r of
        None \<Rightarrow> Some ''Null reply / connection error''
      | Some (RError e) \<Rightarrow> Some e
      | Some _ \<Rightarrow> None)"

definition redis_delete ::
    "cpp_env \<Rightarrow> 'r redis_api \<Rightarrow> json \<Rightarrow> json \<Rightarrow> string \<Rightarrow> int \<Rightarrow> 'r redis_client
      \<Rightarrow> unit result \<times> 'r redis_client" where
  "redis_delete env api record prior key offset c =
     (case order_id_of env (unwrap prior) key of
        Inl e \<Rightarrow> (Inl e, c)
      | Inr order_id \<Rightarrow>
          if order_id = [] then (Inr (), c)
          else
            (case ensure_connected ''RedisUpdater'' ''redis_updater_connected'' c of
               (Inl e, c1) \<Rightarrow> (Inl e, c1)
             | (Inr _, c1) \<Rightarrow>
                 (let lsn = extract_lsn env record;
                      cmd = lua_del env api (order_key order_id) (to_string lsn) cache_ttl in
                  case redis_command cmd c1 of
                    (reply, c2) \<Rightarrow>
                      (case reply_error reply of
                         Some e \<Rightarrow> (Inl (''Redis delete failed: '' @ e), c2)
                       | None \<Rightarrow>
                           (Inr (), log_event (''redis_deleted'', [order_id, to_string lsn, show_int offset]) c2)))))"

definition redis_upsert ::
    "cpp_env \<Rightarrow> 'r redis_api \<Rightarrow> json \<Rightarrow> json \<Rightarrow> string \<Rightarrow> int \<Rightarrow> 'r redis_client
      \<Rightarrow> unit result \<times> 'r redis_client" where
  "redis_upsert env api record data key offset c =
     (case order_id_of env data key of
        Inl e \<Rightarrow> (Inl e, c)
      | Inr order_id \<Rightarrow>
          if order_id = [] then (Inr (), log_event (''redis_updater_skip_no_id'', [show_int offset]) c)
          else
            (let lsn = extract_lsn env record in
             case ensure_connected ''RedisUpdater'' ''redis_updater_connected'' c of
               (Inl e, c1) \<Rightarrow> (Inl e, c1)
             | (Inr _, c1) \<Rightarrow>
                 (case dump env data of
                    Inl e \<Rightarrow> (Inl e, c1)
                  | Inr doc \<Rightarrow>
                      (case redis_command
                              (lua_upsert env api (order_key order_id) doc (to_string lsn) cache_ttl) c1 of
                         (reply, c2) \<Rightarrow>
                           (case reply_error reply of
                              Some e \<Rightarrow> (Inl (''Redis upsert failed: '' @ e), c2)
                            | None \<Rightarrow>
                                if reply = Some (RInt 0) then
                                  (Inr (), log_event (''redis_stale_event_ignored'',
                                              [order_id, to_string lsn, show_int offset]) c2)
                                else
                                  (case value_string env data ''status'' ''UNKNOWN'' of
                                     Inl e \<Rightarrow> (Inl e, c2)
                                   | Inr status \<Rightarrow>
                                       (Inr (), log_event (''redis_updated'',
                                          [order_id, status, to_string lsn, show_int offset]) c2)))))))"

definition redis_process ::
    "cpp_env \<Rightarrow> 'r redis_api \<Rightarrow> json \<Rightarrow> string \<Rightarrow> int \<Rightarrow> 'r redis_client
      \<Rightarrow> unit result \<times> 'r redis_client" where
  "redis_process env api record key offset c =
     (case classify record of
        Upsert data \<Rightarrow> redis_upsert env api record (unwrap data) key offset c
      | Delete prior \<Rightarrow> redis_delete env api record prior key offset c
      | Unrelated \<Rightarrow> (Inr (), c))"

section \<open>The update a record asks for\<close>

text \<open>
  \<open>None\<close>: the record carries no order, has no identifier, or cannot be printed.
\<close>

definition record_update :: "cpp_env \<Rightarrow> json \<Rightarrow> string \<Rightarrow> string update option" where
  "record_update env record key =
     (let lsn = sint (extract_lsn env record) in
      case classify record of
        Upsert data \<Rightarrow>
          (case (order_id_of env (unwrap data) key, dump env (unwrap data)) of
             (Inr i, Inr doc) \<Rightarrow> if i = [] then None else Some (i, lsn, Some doc)
           | _ \<Rightarrow> None)
      | Delete prior \<Rightarrow>
          (case order_id_of env (unwrap prior) key of
             Inr i \<Rightarrow> if i = [] then None else Some (i, lsn, None)
           | _ \<Rightarrow> None)
      | Unrelated \<Rightarrow> None)"

section \<open>The cache held in Redis\<close>

text \<open>
  The data key of one order is the guard key of another when an identifier ends in \<open>:lsn\<close>;
  identifiers are UUIDs, which do not.
\<close>

definition plain_id :: "string \<Rightarrow> bool" where
  "plain_id i \<longleftrightarrow> \<not> ends_with i '':lsn''"

definition cache_view :: "'r redis_api \<Rightarrow> 'r \<Rightarrow> string versioned" where
  "cache_view api r i =
     (if plain_id i then
        (case redis_get api (order_key i @ '':lsn'') r of
           None \<Rightarrow> None
         | Some v \<Rightarrow> map_option (\<lambda>n. (n, redis_get api (order_key i) r)) (decimal_int v))
      else None)"

definition guards_ok :: "'r redis_api \<Rightarrow> 'r \<Rightarrow> bool" where
  "guards_ok api r \<longleftrightarrow>
     (\<forall>i v. plain_id i \<longrightarrow> redis_get api (order_key i @ '':lsn'') r = Some v \<longrightarrow> (\<exists>w. v = to_string w))"

definition plain_record :: "cpp_env \<Rightarrow> json \<Rightarrow> string \<Rightarrow> bool" where
  "plain_record env record key \<longleftrightarrow>
     (case record_update env record key of None \<Rightarrow> True | Some (i, _, _) \<Rightarrow> plain_id i)"

lemma key_apart [simp]:
  "order_key i = order_key j \<longleftrightarrow> i = j"
  "order_key i @ '':lsn'' = order_key j @ '':lsn'' \<longleftrightarrow> i = j"
  "plain_id j \<Longrightarrow> order_key i @ '':lsn'' \<noteq> order_key j"
  "plain_id j \<Longrightarrow> order_key j \<noteq> order_key i @ '':lsn''"
  by (auto simp: order_key_def plain_id_def)

lemma decimal_guard:
  assumes "guards_ok api r" "plain_id i" "redis_get api (order_key i @ '':lsn'') r = Some v"
  obtains w where "v = to_string w"
  using assms by (auto simp: guards_ok_def)

section \<open>The scripts on the cache\<close>

definition apply_update :: "cpp_env \<Rightarrow> 'r redis_api \<Rightarrow> string \<Rightarrow> i64 \<Rightarrow> string option \<Rightarrow> 'r \<Rightarrow> reply \<times> 'r" where
  "apply_update env api i lsn d =
     (case d of
        Some doc \<Rightarrow> lua_upsert env api (order_key i) doc (to_string lsn) cache_ttl
      | None \<Rightarrow> lua_del env api (order_key i) (to_string lsn) cache_ttl)"

lemma stale_cache_view:
  assumes "guards_ok api r" "plain_id i"
  shows "lua_is_stale env api (order_key i) (to_string lsn) r \<longleftrightarrow>
    (case cache_view api r i of
       None \<Rightarrow> False | Some (cur, _) \<Rightarrow> double_of_int (sint lsn) \<le> double_of_int cur)"
proof (cases "redis_get api (order_key i @ '':lsn'') r")
  case None
  then show ?thesis by (simp add: lua_is_stale_def cache_view_def)
next
  case (Some v)
  then obtain w where "v = to_string w" by (rule decimal_guard [OF assms])
  with Some assms(2) show ?thesis by (simp add: stale_iff_to_string cache_view_def)
qed

lemma apply_update_cases:
  "apply_update env api i lsn d r =
     (if lua_is_stale env api (order_key i) (to_string lsn) r then (RInt 0, r)
      else (RInt 1, redis_set_ex api (order_key i @ '':lsn'') (to_string lsn) cache_ttl
             (case d of Some doc \<Rightarrow> redis_set_ex api (order_key i) doc cache_ttl r
                      | None \<Rightarrow> redis_del api (order_key i) r)))"
  by (simp add: apply_update_def lua_upsert_def lua_del_def split: option.splits)

lemma apply_update_refines:
  assumes "redis_laws api" "guards_ok api r" "plain_id i"
  shows "cache_view api (snd (apply_update env api i lsn d r))
    = versioned_put double_of_int (i, sint lsn, d) (cache_view api r)"
proof
  fix j
  show "cache_view api (snd (apply_update env api i lsn d r)) j
    = versioned_put double_of_int (i, sint lsn, d) (cache_view api r) j"
  proof (cases "j = i")
    case True
    with assms show ?thesis
      by (simp add: apply_update_cases stale_cache_view versioned_put_same redis_reads
          cache_view_def [of api "redis_set_ex _ _ _ _ _"] split: option.splits)
  next
    case False
    with assms show ?thesis
      by (auto simp: apply_update_cases versioned_put_other cache_view_def redis_reads
          split: option.splits)
  qed
qed

lemma apply_update_guards:
  assumes "redis_laws api" "guards_ok api r" "plain_id i"
  shows "guards_ok api (snd (apply_update env api i lsn d r))"
  using assms
  by (auto simp: apply_update_cases guards_ok_def redis_reads split: option.splits if_splits)

lemma apply_update_reply: "fst (apply_update env api i lsn d r) \<in> {RInt 0, RInt 1}"
  by (simp add: apply_update_cases)

section \<open>What one call does to the cache\<close>

lemma log_event_frame [frame]:
  "server (log_event e c) = server c" "redis_ctx (log_event e c) = redis_ctx c"
  "cmd_plan (log_event e c) = cmd_plan c" "conn_plan (log_event e c) = conn_plan c"
  "events (log_event e c) = events c @ [e]"
  by (simp_all add: log_event_def)

lemma reply_error_served: "reply_error (Some (RInt n)) = None"
  by (simp add: reply_error_def)

lemma redis_command_reply:
  assumes "redis_command cmd c = (rep, c')" "reply_error rep = None"
  shows "rep = Some (fst (cmd (server c))) \<and> server c' = snd (cmd (server c))"
  using assms
  by (auto simp: redis_command_def next_cmd_def reply_error_def split: list.splits cmd_fate.splits)

lemma ensure_connected_pair:
  "ensure_connected n e c = (x, c') \<Longrightarrow> server c' = server c \<and> cmd_plan c' = cmd_plan c"
  using ensure_connected_frame [of n e c] by simp

lemma redis_command_pair:
  "redis_command cmd c = (x, c') \<Longrightarrow> server c' = server c \<or> server c' = snd (cmd (server c))"
  using redis_command_server [of cmd c] by simp

lemma redis_upsert_server:
  assumes "redis_upsert env api record data key offset c = (res, c')"
  shows "server c' = server c \<or>
    (\<exists>i doc. order_id_of env data key = Inr i \<and> i \<noteq> [] \<and> dump env data = Inr doc \<and>
       server c' = snd (apply_update env api i (extract_lsn env record) (Some doc) (server c)))"
  using assms
  by (auto simp: redis_upsert_def Let_def apply_update_def frame
      dest!: ensure_connected_pair redis_command_pair
      split: sum.splits prod.splits option.splits if_splits)

lemma redis_delete_server:
  assumes "redis_delete env api record prior key offset c = (res, c')"
  shows "server c' = server c \<or>
    (\<exists>i. order_id_of env (unwrap prior) key = Inr i \<and> i \<noteq> [] \<and>
       server c' = snd (apply_update env api i (extract_lsn env record) None (server c)))"
  using assms
  by (auto simp: redis_delete_def Let_def apply_update_def frame
      dest!: ensure_connected_pair redis_command_pair
      split: sum.splits prod.splits option.splits if_splits)

lemma redis_process_server:
  assumes "redis_process env api record key offset c = (res, c')"
  shows "server c' = server c \<or>
    (\<exists>i d. record_update env record key = Some (i, sint (extract_lsn env record), d) \<and>
       server c' = snd (apply_update env api i (extract_lsn env record) d (server c)))"
proof (cases "classify record")
  case (Upsert data)
  then show ?thesis
    using assms redis_upsert_server [of env api "record" "unwrap data" key offset c res c']
    by (auto simp: redis_process_def record_update_def Let_def)
next
  case (Delete prior)
  then show ?thesis
    using assms redis_delete_server [of env api "record" prior key offset c res c']
    by (auto simp: redis_process_def record_update_def Let_def)
next
  case Unrelated
  with assms show ?thesis by (simp add: redis_process_def)
qed

lemma redis_upsert_done:
  assumes "redis_upsert env api record data key offset c = (Inr (), c')"
    and "order_id_of env data key = Inr i" "i \<noteq> []" "dump env data = Inr doc"
  shows "server c' = snd (apply_update env api i (extract_lsn env record) (Some doc) (server c))"
  using assms
  by (auto simp: redis_upsert_def Let_def apply_update_def frame
      dest!: ensure_connected_pair redis_command_reply
      split: sum.splits prod.splits option.splits if_splits)

lemma redis_delete_done:
  assumes "redis_delete env api record prior key offset c = (Inr (), c')"
    and "order_id_of env (unwrap prior) key = Inr i" "i \<noteq> []"
  shows "server c' = snd (apply_update env api i (extract_lsn env record) None (server c))"
  using assms
  by (auto simp: redis_delete_def Let_def apply_update_def frame
      dest!: ensure_connected_pair redis_command_reply
      split: sum.splits prod.splits option.splits if_splits)

text \<open>A call that returns normally has had its effect on the key space.\<close>

lemma redis_process_done:
  assumes "redis_process env api record key offset c = (Inr (), c')"
    and "record_update env record key = Some (i, n, d)"
  shows "server c' = snd (apply_update env api i (extract_lsn env record) d (server c))
    \<and> n = sint (extract_lsn env record)"
proof (cases "classify record")
  case (Upsert data)
  with assms show ?thesis
    using redis_upsert_done [of env api "record" "unwrap data" key offset c c']
    by (auto simp: redis_process_def record_update_def Let_def split: sum.splits if_splits)
next
  case (Delete prior)
  with assms show ?thesis
    using redis_delete_done [of env api "record" prior key offset c c']
    by (auto simp: redis_process_def record_update_def Let_def split: sum.splits if_splits)
next
  case Unrelated
  with assms show ?thesis by (simp add: record_update_def)
qed

lemma redis_process_none:
  assumes "redis_process env api record key offset c = (res, c')"
    and "record_update env record key = None"
  shows "server c' = server c"
  using redis_process_server [OF assms(1)] assms(2) by auto

section \<open>Deliveries one after another\<close>

type_synonym delivery = "json \<times> string \<times> int"

definition redis_deliver ::
    "cpp_env \<Rightarrow> 'r redis_api \<Rightarrow> delivery \<Rightarrow> 'r redis_client \<Rightarrow> 'r redis_client" where
  "redis_deliver env api d c = (case d of (record, key, offset) \<Rightarrow> snd (redis_process env api record key offset c))"

definition redis_run ::
    "cpp_env \<Rightarrow> 'r redis_api \<Rightarrow> delivery list \<Rightarrow> 'r redis_client \<Rightarrow> 'r redis_client" where
  "redis_run env api ds c = fold (redis_deliver env api) ds c"

definition delivery_update :: "cpp_env \<Rightarrow> delivery \<Rightarrow> string update option" where
  "delivery_update env d = (case d of (record, key, offset) \<Rightarrow> record_update env record key)"

definition plain_deliveries :: "cpp_env \<Rightarrow> delivery list \<Rightarrow> bool" where
  "plain_deliveries env ds \<longleftrightarrow>
     list_all (\<lambda>d. case delivery_update env d of None \<Rightarrow> True | Some (i, _, _) \<Rightarrow> plain_id i) ds"

lemma redis_deliver_cases:
  obtains "server (redis_deliver env api d c) = server c"
  | i lsn doc where "delivery_update env d = Some (i, sint lsn, doc)"
      "server (redis_deliver env api d c) = snd (apply_update env api i lsn doc (server c))"
proof -
  obtain rcd key offset where d: "d = (rcd, key, offset)" by (cases d) auto
  obtain res c' where r: "redis_process env api rcd key offset c = (res, c')" by fastforce
  show thesis
    using redis_process_server [OF r] that by (auto simp: d r redis_deliver_def delivery_update_def)
qed

lemma redis_deliver_step:
  assumes "redis_laws api" "guards_ok api (server c)" "plain_deliveries env [d]"
  shows "guards_ok api (server (redis_deliver env api d c)) \<and>
    (cache_view api (server (redis_deliver env api d c)) = cache_view api (server c) \<or>
     (\<exists>u. delivery_update env d = Some u \<and>
        cache_view api (server (redis_deliver env api d c))
          = versioned_put double_of_int u (cache_view api (server c))))"
proof (rule redis_deliver_cases [of env api d c])
  assume "server (redis_deliver env api d c) = server c"
  with assms(2) show ?thesis by simp
next
  fix i lsn doc
  assume u: "delivery_update env d = Some (i, sint lsn, doc)"
    and s: "server (redis_deliver env api d c) = snd (apply_update env api i lsn doc (server c))"
  from u assms(3) have "plain_id i" by (simp add: plain_deliveries_def)
  with assms u s show ?thesis
    by (simp add: apply_update_refines apply_update_guards)
qed

lemma double_put_mono:
  "m i = Some (cur, d') \<Longrightarrow> \<exists>n d. versioned_put double_of_int u m i = Some (n, d) \<and> cur \<le> n"
  by (rule versioned_put_mono_int) (auto intro: double_of_int_less_imp)

lemma redis_run_Cons: "redis_run env api (d # ds) c = redis_run env api ds (redis_deliver env api d c)"
  by (simp add: redis_run_def)

lemma redis_run_guard_mono:
  assumes "redis_laws api" "guards_ok api (server c)" "plain_deliveries env ds"
    and "cache_view api (server c) i = Some (n, d)"
  shows "\<exists>n' d'. cache_view api (server (redis_run env api ds c)) i = Some (n', d') \<and> n \<le> n'"
  using assms
proof (induction ds arbitrary: c n d)
  case Nil
  then show ?case by (simp add: redis_run_def)
next
  case (Cons x xs)
  let ?c = "redis_deliver env api x c"
  have plain: "plain_deliveries env [x]" "plain_deliveries env xs"
    using Cons.prems(3) by (auto simp: plain_deliveries_def)
  note step = redis_deliver_step [OF Cons.prems(1,2) plain(1)]
  have "\<exists>m e. cache_view api (server ?c) i = Some (m, e) \<and> n \<le> m"
    using step Cons.prems(4) double_put_mono [where m = "cache_view api (server c)", OF Cons.prems(4)]
    by auto
  then obtain m e where m: "cache_view api (server ?c) i = Some (m, e)" "n \<le> m" by blast
  have "guards_ok api (server ?c)" using step by blast
  from Cons.IH [OF Cons.prems(1) this plain(2) m(1)] m(2) show ?case
    by (auto simp: redis_run_Cons)
qed

section \<open>Deliveries to a healthy server\<close>

definition healthy :: "'r redis_client \<Rightarrow> bool" where
  "healthy c \<longleftrightarrow> redis_ctx c = CtxOk \<and> cmd_plan c = []"

lemma healthy_log [simp]: "healthy (log_event e c) \<longleftrightarrow> healthy c"
  by (simp add: healthy_def frame)

lemma healthy_server [simp]: "healthy (c\<lparr>server := r\<rparr>) \<longleftrightarrow> healthy c"
  by (simp add: healthy_def)

lemma healthy_command:
  "healthy c \<Longrightarrow> redis_command cmd c = (Some (fst (cmd (server c))), c\<lparr>server := snd (cmd (server c))\<rparr>)"
  by (simp add: healthy_def redis_command_served)

lemma healthy_connected: "healthy c \<Longrightarrow> ensure_connected n e c = (Inr (), c)"
  by (simp add: healthy_def ensure_connected_up)

lemma apply_update_no_error:
  "reply_error (Some (fst (apply_update env api i lsn d r))) = None"
  by (simp add: apply_update_cases reply_error_def)

text \<open>On a healthy server every record with an update is applied, even when the call throws.\<close>

lemma redis_upsert_healthy:
  assumes "healthy c" "order_id_of env data key = Inr i" "i \<noteq> []" "dump env data = Inr doc"
  shows "snd (redis_upsert env api record data key offset c) =
    (let lsn = extract_lsn env record; r = apply_update env api i lsn (Some doc) (server c);
         c' = c\<lparr>server := snd r\<rparr> in
     if fst r = RInt 0 then log_event (''redis_stale_event_ignored'', [i, to_string lsn, show_int offset]) c'
     else case value_string env data ''status'' ''UNKNOWN'' of
         Inl e \<Rightarrow> c'
       | Inr st \<Rightarrow> log_event (''redis_updated'', [i, st, to_string lsn, show_int offset]) c')"
  and "fst (redis_upsert env api record data key offset c) =
    (if fst (apply_update env api i (extract_lsn env record) (Some doc) (server c)) = RInt 0 then Inr ()
     else case value_string env data ''status'' ''UNKNOWN'' of Inl e \<Rightarrow> Inl e | Inr st \<Rightarrow> Inr ())"
  using assms apply_update_no_error [of env api i "extract_lsn env record" "Some doc" "server c"]
  by (auto simp: redis_upsert_def Let_def healthy_connected healthy_command apply_update_def
      split: sum.splits)

lemma redis_delete_healthy:
  assumes "healthy c" "order_id_of env (unwrap prior) key = Inr i" "i \<noteq> []"
  shows "redis_delete env api record prior key offset c =
    (Inr (), log_event (''redis_deleted'', [i, to_string (extract_lsn env record), show_int offset])
       (c\<lparr>server := snd (apply_update env api i (extract_lsn env record) None (server c))\<rparr>))"
  using assms apply_update_no_error [of env api i "extract_lsn env record" None "server c"]
  by (auto simp: redis_delete_def Let_def healthy_connected healthy_command apply_update_def
      split: sum.splits)

lemma healthy_update_ctx: "healthy c \<Longrightarrow> healthy (c\<lparr>server := r, events := e\<rparr>)"
  by (simp add: healthy_def)

lemma redis_process_healthy:
  assumes "healthy c" "redis_process env api record key offset c = (res, c')"
    and "record_update env record key = Some (i, n, d)"
  shows "healthy c' \<and> n = sint (extract_lsn env record)
    \<and> server c' = snd (apply_update env api i (extract_lsn env record) d (server c))"
proof (cases "classify record")
  case (Upsert data)
  then obtain doc where u: "order_id_of env (unwrap data) key = Inr i" "i \<noteq> []"
      "dump env (unwrap data) = Inr doc" "d = Some doc" "n = sint (extract_lsn env record)"
    using assms(3) by (auto simp: record_update_def Let_def split: sum.splits if_splits)
  have "c' = snd (redis_upsert env api record (unwrap data) key offset c)"
    using assms(2) Upsert by (simp add: redis_process_def)
  then show ?thesis
    using u assms(1)
    by (auto simp: redis_upsert_healthy(1) [OF assms(1) u(1-3)] Let_def frame healthy_def
        split: sum.splits)
next
  case (Delete prior)
  then have u: "order_id_of env (unwrap prior) key = Inr i" "i \<noteq> []" "d = None"
      "n = sint (extract_lsn env record)"
    using assms(3) by (auto simp: record_update_def Let_def split: sum.splits if_splits)
  then show ?thesis
    using assms(1,2) Delete
    by (auto simp: redis_process_def redis_delete_healthy [OF assms(1) u(1,2)] frame healthy_def)
next
  case Unrelated
  with assms(3) show ?thesis by (simp add: record_update_def)
qed

definition updates_of :: "cpp_env \<Rightarrow> delivery list \<Rightarrow> string update list" where
  "updates_of env ds = List.map_filter (delivery_update env) ds"

lemma redis_deliver_healthy:
  assumes "redis_laws api" "guards_ok api (server c)" "plain_deliveries env [d]" "healthy c"
    and "delivery_update env d = Some u"
  shows "healthy (redis_deliver env api d c) \<and> guards_ok api (server (redis_deliver env api d c)) \<and>
    cache_view api (server (redis_deliver env api d c))
      = versioned_put double_of_int u (cache_view api (server c))"
proof -
  obtain rcd key offset where d: "d = (rcd, key, offset)" by (cases d) auto
  obtain i n doc where u: "u = (i, n, doc)" by (cases u) auto
  obtain res c' where r: "redis_process env api rcd key offset c = (res, c')" by fastforce
  have ru: "record_update env rcd key = Some (i, n, doc)" using assms(5) by (simp add: d u delivery_update_def)
  have "plain_id i" using assms(3) ru by (simp add: plain_deliveries_def d delivery_update_def)
  then show ?thesis
    using redis_process_healthy [OF assms(4) r ru] assms(1,2) r
    by (simp add: d u redis_deliver_def apply_update_refines apply_update_guards)
qed

lemma redis_deliver_none:
  assumes "healthy c" "delivery_update env d = None"
  shows "healthy (redis_deliver env api d c) \<and> server (redis_deliver env api d c) = server c"
proof -
  obtain rcd key offset where d: "d = (rcd, key, offset)" by (cases d) auto
  have none: "record_update env rcd key = None" using assms(2) by (simp add: d delivery_update_def)
  have "healthy (snd (redis_process env api rcd key offset c))"
    using none assms(1)
    by (auto simp: redis_process_def redis_upsert_def redis_delete_def record_update_def Let_def
        healthy_connected split: change.splits sum.splits if_splits)
  with none show ?thesis
    using redis_process_none [of env api rcd key offset c]
    by (auto simp: d redis_deliver_def prod_eq_iff)
qed

lemma redis_run_healthy:
  assumes "redis_laws api" "guards_ok api (server c)" "plain_deliveries env ds" "healthy c"
  shows "cache_view api (server (redis_run env api ds c))
    = fold (versioned_put double_of_int) (updates_of env ds) (cache_view api (server c))"
  using assms
proof (induction ds arbitrary: c)
  case Nil
  then show ?case by (simp add: redis_run_def updates_of_def List.map_filter_simps)
next
  case (Cons x xs)
  have plain: "plain_deliveries env [x]" "plain_deliveries env xs"
    using Cons.prems(3) by (auto simp: plain_deliveries_def)
  let ?c = "redis_deliver env api x c"
  show ?case
  proof (cases "delivery_update env x")
    case None
    note step = redis_deliver_none [OF Cons.prems(4) None, of api]
    have "cache_view api (server (redis_run env api xs ?c))
      = fold (versioned_put double_of_int) (updates_of env xs) (cache_view api (server ?c))"
      using step Cons.prems plain by (intro Cons.IH) auto
    with step None show ?thesis by (simp add: redis_run_Cons updates_of_def List.map_filter_simps)
  next
    case (Some u)
    note step = redis_deliver_healthy [OF Cons.prems(1,2) plain(1) Cons.prems(4) Some]
    have "cache_view api (server (redis_run env api xs ?c))
      = fold (versioned_put double_of_int) (updates_of env xs) (cache_view api (server ?c))"
      using step Cons.prems plain by (intro Cons.IH) auto
    with step Some show ?thesis by (simp add: redis_run_Cons updates_of_def List.map_filter_simps)
  qed
qed

lemma consistent_double:
  assumes "consistent id U" "\<And>i n d. (i, n, d) \<in> U \<Longrightarrow> \<bar>n\<bar> \<le> 2 ^ 53"
  shows "consistent double_of_int U"
  using assms by (auto simp: consistent_def double_of_int_exact)

lemma is_latest_double:
  assumes "is_latest double_of_int U i e" "\<And>i n d. (i, n, d) \<in> U \<Longrightarrow> \<bar>n\<bar> \<le> 2 ^ 53"
  shows "is_latest id U i e"
proof (cases e)
  case None
  with assms(1) show ?thesis by (simp add: is_latest_def)
next
  case (Some p)
  obtain n d where p: "p = (n, d)" by (cases p)
  have n: "(i, n, d) \<in> U" "double_of_int n = n"
    using assms by (auto simp: Some p is_latest_def intro!: double_of_int_exact)
  have "n' \<le> n" if "(i, n', d') \<in> U" for n' d'
    using assms(1) that n(2) double_of_int_exact [OF assms(2) [OF that]]
    by (auto simp: Some p is_latest_def)
  with n(1) show ?thesis by (auto simp: Some p is_latest_def)
qed

section \<open>Properties\<close>

text \<open>
  C8. Refinement under any network behaviour. When \<open>ProcessRecord\<close> returns normally, the cache
  has taken the record's update exactly as the versioned cache prescribes (a stale update is
  ignored); when it throws, the update has been applied or nothing has changed; a record with
  no update never changes the cache. The connection and command plans are arbitrary.
\<close>

theorem redis_process_refines:
  assumes "redis_laws api" "guards_ok api (server c)" "plain_record env record key"
    and "redis_process env api record key offset c = (res, c')"
  shows "case record_update env record key of
      None \<Rightarrow> server c' = server c
    | Some u \<Rightarrow>
        guards_ok api (server c') \<and>
        (if res = Inr () then
           cache_view api (server c') = versioned_put double_of_int u (cache_view api (server c))
         else
           cache_view api (server c') = cache_view api (server c) \<or>
           cache_view api (server c') = versioned_put double_of_int u (cache_view api (server c)))"
proof (cases "record_update env record key")
  case None
  with redis_process_none [OF assms(4)] show ?thesis by simp
next
  case (Some u)
  obtain i n d where u: "u = (i, n, d)" by (cases u) auto
  have plain: "plain_id i" using assms(3) Some by (simp add: plain_record_def u)
  note refines = apply_update_refines [OF assms(1,2) plain] apply_update_guards [OF assms(1,2) plain]
  show ?thesis
  proof (cases "res = Inr ()")
    case True
    with redis_process_done [of env api "record" key offset c c' i n d] assms(4) Some u refines
    show ?thesis by simp
  next
    case False
    with redis_process_server [OF assms(4)] Some u refines assms(2) show ?thesis by auto
  qed
qed

definition sample_record :: "string \<Rightarrow> string \<Rightarrow> int \<Rightarrow> json" where
  "sample_record i status lsn =
     JObj [(''after'', JObj [(''id'', JStr i), (''status'', JStr status)]), (''op'', JStr ''u''),
           (''source'', JObj [(''lsn'', JInt lsn)])]"

definition sample_client :: "(string \<Rightarrow> string option) redis_client" where
  "sample_client = \<lparr>redis_ctx = CtxOk, server = (\<lambda>_. None), conn_plan = [], cmd_plan = [], events = []\<rparr>"

lemma sample_guards [simp]: "guards_ok map_redis (\<lambda>_. None)"
  by (simp add: guards_ok_def map_redis_def)

lemma sample_view [simp]: "cache_view map_redis (\<lambda>_. None) = (\<lambda>_. None)"
  by (simp add: cache_view_def map_redis_def fun_eq_iff)

lemma sample_update:
  "record_update sample_env (sample_record i st n) key
    = (if i = [] then (if key = [] then None else Some (key, sint (word_of_int n :: i64), Some ''{}''))
       else Some (i, sint (word_of_int n :: i64), Some ''{}''))"
  by (simp add: record_update_def sample_record_def classify_def contains_def at_key_def is_null_def
      unwrap_def is_object_def object_size_def order_id_of_def document_id_def text_of_def
      extract_lsn_def lsn_field_def is_number_def get_int64_def sample_env_def Let_def)

definition sample_doc :: "string \<Rightarrow> string \<Rightarrow> json" where
  "sample_doc i status = JObj [(''id'', JStr i), (''status'', JStr status)]"

lemma sample_classify: "classify (sample_record i st n) = Upsert (sample_doc i st)"
  by (simp add: sample_record_def sample_doc_def classify_def contains_def at_key_def is_null_def)

lemma sample_unwrap: "unwrap (sample_doc i st) = sample_doc i st"
  by (simp add: sample_doc_def unwrap_def is_object_def contains_def object_size_def)

lemma sample_order_id: "i \<noteq> [] \<Longrightarrow> order_id_of env (sample_doc i st) key = Inr i"
  by (simp add: sample_doc_def order_id_of_def document_id_str)

lemma sample_status: "value_string env (sample_doc i st) ''status'' d = Inr st"
  by (simp add: sample_doc_def)

lemma sample_dump: "dump sample_env (sample_doc i st) = Inr ''{}''"
  by (simp add: sample_env_def sample_doc_def)

lemmas sample_facts = sample_classify sample_unwrap sample_order_id sample_status sample_dump

lemma sample_process:
  "healthy c \<Longrightarrow> i \<noteq> [] \<Longrightarrow>
   fst (redis_process sample_env api (sample_record i st n) key offset c) = Inr ()"
  by (simp add: redis_process_def sample_facts redis_upsert_healthy(2))

lemma sample_healthy [simp]: "healthy sample_client"
  by (simp add: healthy_def sample_client_def)

theorem redis_process_refines_witness:
  "redis_laws map_redis \<and> guards_ok map_redis (server sample_client)
    \<and> plain_record sample_env (sample_record ''7'' ''SHIPPED'' 12) ''k''
    \<and> cache_view map_redis
        (server (snd (redis_process sample_env map_redis (sample_record ''7'' ''SHIPPED'' 12) ''k'' 0 sample_client)))
        ''7'' = Some (12, Some ''{}'')"
proof -
  let ?r = "sample_record ''7'' ''SHIPPED'' 12"
  have plain: "plain_id ''7''" by code_simp
  have hyps: "redis_laws map_redis" "guards_ok map_redis (server sample_client)"
    "plain_record sample_env ?r ''k''"
    using plain by (simp_all add: sample_client_def plain_record_def sample_update)
  obtain res c' where r: "redis_process sample_env map_redis ?r ''k'' 0 sample_client = (res, c')"
    by fastforce
  have "res = Inr ()" using sample_process [of sample_client "''7''"] r by (metis fst_conv list.discI sample_healthy)
  then have "cache_view map_redis (server c') ''7'' = Some (12, Some ''{}'')"
    using redis_process_refines [OF hyps r]
    by (simp add: sample_update sample_client_def versioned_put_same)
  with hyps r show ?thesis by simp
qed

text \<open>
 The guard never regresses. Over any sequence of deliveries, replays and out-of-order
  events included, and any sequence of connection and command failures, the sequence number the
  cache holds for an order never goes down (while the key does not expire).
\<close>

theorem redis_guard_monotone:
  assumes "redis_laws api" "guards_ok api (server c)" "plain_deliveries env ds"
    and "cache_view api (server c) i = Some (n, d)"
  shows "\<exists>n' d'. cache_view api (server (redis_run env api ds c)) i = Some (n', d') \<and> n \<le> n'"
  by (rule redis_run_guard_mono [OF assms])

definition sample_guarded :: "(string \<Rightarrow> string option) redis_client" where
  "sample_guarded = sample_client\<lparr>server := [''order:7:lsn'' \<mapsto> to_string 5, ''order:7'' \<mapsto> ''x'']\<rparr>"

lemma sample_guarded_ok [simp]: "guards_ok map_redis (server sample_guarded)"
  by (auto simp: guards_ok_def sample_guarded_def map_redis_def order_key_def split: if_splits)

lemma plain_7 [simp]: "plain_id ''7''"
  by code_simp

lemma sample_guarded_view: "cache_view map_redis (server sample_guarded) ''7'' = Some (5, Some ''x'')"
  by (simp add: cache_view_def sample_guarded_def map_redis_def order_key_def)

theorem redis_guard_monotone_witness:
  "redis_laws map_redis \<and> guards_ok map_redis (server sample_guarded)
    \<and> cache_view map_redis (server sample_guarded) ''7'' = Some (5, Some ''x'')
    \<and> (\<exists>n d. cache_view map_redis (server (redis_run sample_env map_redis
          [(sample_record ''7'' ''SHIPPED'' 12, ''7'', 3), (sample_record ''7'' ''CREATED'' 4, ''7'', 1)]
          sample_guarded)) ''7'' = Some (n, d) \<and> 5 \<le> n)"
proof -
  have plain: "plain_deliveries sample_env
      [(sample_record ''7'' ''SHIPPED'' 12, ''7'', 3), (sample_record ''7'' ''CREATED'' 4, ''7'', 1)]"
    by (simp add: plain_deliveries_def delivery_update_def sample_update)
  show ?thesis
    using redis_guard_monotone [OF map_redis_laws sample_guarded_ok plain sample_guarded_view]
      sample_guarded_view by simp
qed

text \<open>
  C9. Convergence under at-least-once delivery. Starting from an empty cache and a healthy
  server, two delivery sequences that carry the same set of updates, in any order and with any
  repetitions, leave the same cache, and that cache holds for each order the update with the
  highest sequence number. Sequence numbers up to \<open>2 ^ 53\<close> in magnitude; two different updates
  of one order have different sequence numbers.
\<close>

theorem redis_convergence:
  assumes "redis_laws api" "healthy c" "guards_ok api (server c)"
    and "cache_view api (server c) = (\<lambda>_. None)"
    and "plain_deliveries env ds" "plain_deliveries env es"
    and "consistent id (set (updates_of env ds))"
    and "\<And>i n d. (i, n, d) \<in> set (updates_of env ds) \<Longrightarrow> \<bar>n\<bar> \<le> 2 ^ 53"
    and "set (updates_of env ds) = set (updates_of env es)"
  shows "cache_view api (server (redis_run env api ds c)) = cache_view api (server (redis_run env api es c))
    \<and> is_latest id (set (updates_of env ds)) i (cache_view api (server (redis_run env api ds c)) i)"
proof -
  have run: "cache_view api (server (redis_run env api xs c)) = versioned_run double_of_int (updates_of env xs)"
    if "plain_deliveries env xs" for xs
    using redis_run_healthy [OF assms(1,3) that assms(2)] by (simp add: assms(4) versioned_run_def)
  have "versioned_run double_of_int (updates_of env ds) = versioned_run double_of_int (updates_of env es)"
    using assms(7-9) by (intro versioned_run_set consistent_double) auto
  moreover have "is_latest id (set (updates_of env ds)) i (versioned_run double_of_int (updates_of env ds) i)"
    using versioned_run_latest assms(8) by (rule is_latest_double)
  ultimately show ?thesis using run assms(5,6) by simp
qed

theorem redis_convergence_witness:
  "let new = (sample_record ''7'' ''SHIPPED'' 12, ''7'', 3); old = (sample_record ''7'' ''CREATED'' 4, ''7'', 1) in
     healthy sample_client \<and>
     cache_view map_redis (server (redis_run sample_env map_redis [old, new] sample_client))
       = cache_view map_redis (server (redis_run sample_env map_redis [new, old, new, old] sample_client)) \<and>
     is_latest id {(''7'', 4, Some ''{}''), (''7'', 12, Some ''{}'')} ''7''
       (cache_view map_redis (server (redis_run sample_env map_redis [old, new] sample_client)) ''7'')"
proof -
  let ?new = "(sample_record ''7'' ''SHIPPED'' 12, ''7'', 3)" and ?old = "(sample_record ''7'' ''CREATED'' 4, ''7'', 1)"
  have ups: "updates_of sample_env [?old, ?new] = [(''7'', 4, Some ''{}''), (''7'', 12, Some ''{}'')]"
    "set (updates_of sample_env [?new, ?old, ?new, ?old]) = {(''7'', 4, Some ''{}''), (''7'', 12, Some ''{}'')}"
    by (auto simp: updates_of_def List.map_filter_simps delivery_update_def sample_update)
  have plain: "plain_deliveries sample_env [?old, ?new]" "plain_deliveries sample_env [?new, ?old, ?new, ?old]"
    by (simp_all add: plain_deliveries_def delivery_update_def sample_update)
  have start: "guards_ok map_redis (server sample_client)"
    "cache_view map_redis (server sample_client) = (\<lambda>_. None)"
    by (simp_all add: sample_client_def)
  have U: "set (updates_of sample_env [?old, ?new]) = {(''7'', 4, Some ''{}''), (''7'', 12, Some ''{}'')}"
    using ups(1) by simp
  have con: "consistent id (set (updates_of sample_env [?old, ?new]))"
    by (simp add: U consistent_def)
  have exact: "\<bar>n\<bar> \<le> 2 ^ 53" if "(i, n, d) \<in> set (updates_of sample_env [?old, ?new])" for i n d
    using that by (auto simp: U)
  have same: "set (updates_of sample_env [?old, ?new]) = set (updates_of sample_env [?new, ?old, ?new, ?old])"
    using U ups(2) by simp
  note res = redis_convergence
    [OF map_redis_laws sample_healthy start plain con exact same, where i = "''7''", unfolded U]
  show ?thesis
    unfolding Let_def by (intro conjI sample_healthy res [THEN conjunct1] res [THEN conjunct2])
qed

text \<open>
 An order whose status is not a string is written to the cache and only then rejected:
  the first call throws after the script has run, and the retry finds its own sequence number
  in the guard, takes itself for a stale replay and returns normally, so the record is
  committed without ever reaching the dead letter queue.
\<close>

theorem redis_status_type_error:
  assumes "redis_laws api" "healthy c" "classify record = Upsert data"
    and "order_id_of env (unwrap data) key = Inr i" "i \<noteq> []" "dump env (unwrap data) = Inr doc"
    and "value_string env (unwrap data) ''status'' ''UNKNOWN'' = Inl e"
    and "\<not> lua_is_stale env api (order_key i) (to_string (extract_lsn env record)) (server c)"
    and "redis_process env api record key offset c = (res, c1)"
    and "redis_process env api record key offset c1 = (res', c2)"
  shows "res = Inl e \<and> redis_get api (order_key i) (server c1) = Some doc
    \<and> res' = Inr () \<and> server c2 = server c1"
proof -
  let ?lsn = "extract_lsn env record"
  have p: "redis_process env api record key offset = redis_upsert env api record (unwrap data) key offset"
    using assms(3) by (intro ext) (simp add: redis_process_def)
  have up: "record_update env record key = Some (i, sint ?lsn, Some doc)"
    using assms(3-6) by (simp add: record_update_def)
  have c1: "healthy c1" "server c1 = snd (apply_update env api i ?lsn (Some doc) (server c))"
    using redis_process_healthy [OF assms(2,9) up] by simp_all
  have first: "res = Inl e"
    using redis_upsert_healthy(2) [OF assms(2,4-6), of api "record" offset] assms(7-9)
    by (simp add: p apply_update_cases)
  have guard: "redis_get api (order_key i @ '':lsn'') (server c1) = Some (to_string ?lsn)"
    using assms(1,8) by (simp add: c1(2) apply_update_cases redis_reads)
  then have stale: "lua_is_stale env api (order_key i) (to_string ?lsn) (server c1)"
    by (simp add: stale_iff_to_string)
  have "redis_get api (order_key i) (server c1) = Some doc"
    using assms(1,8) by (simp add: c1(2) apply_update_cases redis_reads)
  moreover have "res' = Inr ()"
    using redis_upsert_healthy(2) [OF c1(1) assms(4-6), of api "record" offset] stale assms(10)
    by (simp add: p apply_update_cases)
  moreover have "server c2 = server c1"
    using redis_process_healthy [OF c1(1) assms(10) up] stale by (simp add: apply_update_cases)
  ultimately show ?thesis using first by simp
qed

definition bad_status_record :: json where
  "bad_status_record =
     JObj [(''after'', JObj [(''id'', JStr ''7''), (''status'', JNull)]), (''op'', JStr ''u''),
           (''source'', JObj [(''lsn'', JInt 9)])]"

theorem redis_status_type_error_witness:
  "\<exists>c1. redis_process sample_env map_redis bad_status_record ''7'' 0 sample_client = (Inl ''type_error'', c1)
    \<and> redis_get map_redis ''order:7'' (server c1) = Some ''{}''
    \<and> fst (redis_process sample_env map_redis bad_status_record ''7'' 0 c1) = Inr ()"
proof -
  let ?d = "JObj [(''id'', JStr ''7''), (''status'', JNull)]"
  have facts: "classify bad_status_record = Upsert ?d" "unwrap ?d = ?d"
    "order_id_of sample_env ?d ''7'' = Inr ''7''" "dump sample_env ?d = Inr ''{}''"
    "value_string sample_env ?d ''status'' ''UNKNOWN'' = Inl ''type_error''"
    by (simp_all add: bad_status_record_def classify_def contains_def at_key_def is_null_def unwrap_def
        is_object_def object_size_def order_id_of_def document_id_str sample_env_def value_string_def)
  obtain res c1 where r: "redis_process sample_env map_redis bad_status_record ''7'' 0 sample_client = (res, c1)"
    by fastforce
  obtain res' c2 where r': "redis_process sample_env map_redis bad_status_record ''7'' 0 c1 = (res', c2)"
    by fastforce
  have "\<not> lua_is_stale sample_env map_redis (order_key ''7'')
      (to_string (extract_lsn sample_env bad_status_record)) (server sample_client)"
    by (rule not_stale_empty) (simp add: sample_client_def map_redis_def)
  with redis_status_type_error [OF map_redis_laws sample_healthy facts(1) _ _ _ _ _ r r', of "''7''"] facts
  show ?thesis using r r' by (simp add: order_key_def)
qed

text \<open>
 What the guard's arithmetic guarantees. Lua compares sequence numbers as doubles: a replay
  (a sequence number not above the stored one) is always recognised, whatever its size; up to
  \<open>2 ^ 53\<close> the comparison is exact; beyond, some strictly newer update is taken for stale and
  dropped.
\<close>

theorem lua_guard_precision:
  assumes "redis_get api (key @ '':lsn'') r = Some (to_string cur)"
  shows "(sint new \<le> sint cur \<longrightarrow> lua_is_stale env api key (to_string new) r)
    \<and> (\<bar>sint new\<bar> \<le> 2 ^ 53 \<and> \<bar>sint cur\<bar> \<le> 2 ^ 53 \<longrightarrow>
        (lua_is_stale env api key (to_string new) r \<longleftrightarrow> sint new \<le> sint cur))
    \<and> (cur = 2 ^ 53 \<and> new = 2 ^ 53 + 1 \<longrightarrow>
        sint cur < sint new \<and> lua_is_stale env api key (to_string new) r)"
proof -
  note iff = stale_iff_to_string [OF assms]
  show ?thesis
    unfolding iff using double_of_int_collision double_of_int_exact [of "2 ^ 53"]
    by (auto simp: double_of_int_mono double_of_int_exact)
qed

theorem lua_guard_precision_witness:
  "lua_is_stale sample_env map_redis ''order:7'' (to_string (2 ^ 53 + 1)) [''order:7:lsn'' \<mapsto> to_string (2 ^ 53)]
    \<and> \<not> lua_is_stale sample_env map_redis ''order:7'' (to_string 9) [''order:7:lsn'' \<mapsto> to_string 8]"
proof -
  have g: "redis_get map_redis (''order:7'' @ '':lsn'') [''order:7:lsn'' \<mapsto> to_string w] = Some (to_string w)" for w
    by (simp add: map_redis_def)
  show ?thesis
    using lua_guard_precision [OF g, of "2 ^ 53 + 1" "2 ^ 53" sample_env]
      lua_guard_precision [OF g, of 9 8 sample_env] by simp
qed

lemma extract_lsn_absent:
  "\<not> contains record ''source'' \<Longrightarrow> \<not> contains record ''ts_ms'' \<Longrightarrow> extract_lsn env record = 0"
  by (simp add: extract_lsn_def ts_ms_field_def)

text \<open>
  A record without a sequence number and without a timestamp counts as sequence number 0.
  Once the cache holds any version of the order with a non-negative number, every later such
  record is ignored as a stale replay although its content may be new.
\<close>

theorem redis_unversioned_ignored:
  assumes "redis_laws api" "guards_ok api (server c)" "healthy c"
    and "\<not> contains record ''source''" "\<not> contains record ''ts_ms''"
    and "record_update env record key = Some (i, 0, Some doc)" "plain_id i"
    and "cache_view api (server c) i = Some (n, d)" "0 \<le> n"
    and "redis_process env api record key offset c = (res, c')"
  shows "res = Inr () \<and> server c' = server c"
proof -
  obtain data where cl: "classify record = Upsert data" and
    up: "order_id_of env (unwrap data) key = Inr i" "i \<noteq> []" "dump env (unwrap data) = Inr doc"
    using assms(6) by (auto simp: record_update_def Let_def split: change.splits sum.splits if_splits)
  have lsn: "extract_lsn env record = 0" using assms(4,5) by (rule extract_lsn_absent)
  have stale: "lua_is_stale env api (order_key i) (to_string 0) (server c)"
    using assms(8,9) by (simp add: stale_cache_view [OF assms(2,7)] double_of_int_mono)
  have "server c' = server c"
    using redis_process_healthy [OF assms(3,10,6)] stale by (simp add: lsn apply_update_cases)
  moreover have "res = Inr ()"
    using redis_upsert_healthy(2) [OF assms(3) up, of api "record" offset] assms(10) stale
    by (simp add: redis_process_def cl lsn apply_update_cases)
  ultimately show ?thesis by simp
qed

theorem redis_unversioned_ignored_witness:
  "\<exists>c'. redis_process sample_env map_redis (JObj [(''id'', JStr ''7''), (''status'', JStr ''NEW'')]) ''k'' 0 sample_guarded
      = (Inr (), c') \<and> server c' = server sample_guarded"
proof -
  let ?r = "JObj [(''id'', JStr ''7''), (''status'', JStr ''NEW'')]"
  have none: "\<not> contains ?r ''source''" "\<not> contains ?r ''ts_ms''" by (simp_all add: contains_def)
  have up: "record_update sample_env ?r ''k'' = Some (''7'', 0, Some ''{}'')"
    by (simp add: record_update_def classify_def contains_def at_key_def is_null_def unwrap_def
        is_object_def object_size_def order_id_of_def document_id_str extract_lsn_def ts_ms_field_def sample_env_def)
  have h: "healthy sample_guarded" by (simp add: sample_guarded_def)
  obtain res c' where r: "redis_process sample_env map_redis ?r ''k'' 0 sample_guarded = (res, c')" by fastforce
  show ?thesis
    using redis_unversioned_ignored [OF map_redis_laws sample_guarded_ok h none up plain_7 sample_guarded_view _ r] r
    by simp
qed

end
