(* ===== verification/Notifier.thy ===== *)
theory Notifier
  imports Redis_Updater
begin

text \<open>
  \<open>Notifier\<close> (\<open>consumers/src/notifier.cpp\<close>): the sink that sends one simulated e-mail per order
  and status, deduplicated by a Redis key set with \<open>NX\<close>. \<open>ProcessRecord\<close> on every branch, and how
  often an e-mail is sent over any deliveries and failures.
\<close>

section \<open>ProcessRecord\<close>

definition customer_of :: "cpp_env \<Rightarrow> json \<Rightarrow> string result" where
  "customer_of env data =
     (if contains data ''user_id'' \<and> \<not> is_null (at_key data ''user_id'')
      then text_of env (at_key data ''user_id'')
      else if contains data ''customer_id'' \<and> \<not> is_null (at_key data ''customer_id'')
      then text_of env (at_key data ''customer_id'')
      else Inr ''guest'')"

definition dedup_key :: "string \<Rightarrow> string \<Rightarrow> string" where
  "dedup_key order_id status = ''email_sent:'' @ order_id @ '':'' @ status"

definition dedup_ttl :: nat where "dedup_ttl = 86400"

text \<open>\<open>SET key 1 EX 86400 NX\<close>: status \<open>OK\<close> when the key was set, nil when it existed.\<close>

definition set_nx :: "'r redis_api \<Rightarrow> string \<Rightarrow> 'r \<Rightarrow> reply \<times> 'r" where
  "set_nx api key r =
     (case redis_set_nx_ex api key ''1'' dedup_ttl r of
        (True, r') \<Rightarrow> (RStatus ''OK'', r')
      | (False, r') \<Rightarrow> (RNil, r'))"

definition notify ::
    "'r redis_api \<Rightarrow> string \<Rightarrow> string \<Rightarrow> string \<Rightarrow> int \<Rightarrow> 'r redis_client \<Rightarrow> unit result \<times> 'r redis_client" where
  "notify api customer_id order_id status offset c =
     (case ensure_connected ''Notifier'' ''notifier_redis_connected'' c of
        (Inl e, c1) \<Rightarrow> (Inl e, c1)
      | (Inr _, c1) \<Rightarrow>
          (case redis_command (set_nx api (dedup_key order_id status)) c1 of
             (reply, c2) \<Rightarrow>
               (case reply_error reply of
                  Some e \<Rightarrow> (Inl (''Notifier Redis command failed: '' @ e), c2)
                | None \<Rightarrow>
                    if reply = Some (RStatus ''OK'') then
                      (Inr (), log_event (''email_notification_sent'',
                         [customer_id @ ''@example.com'', order_id, status, show_int offset]) c2)
                    else
                      (Inr (), log_event (''email_notification_skipped_duplicate'',
                         [order_id, status, show_int offset]) c2))))"

definition notifier_process ::
    "cpp_env \<Rightarrow> 'r redis_api \<Rightarrow> json \<Rightarrow> string \<Rightarrow> int \<Rightarrow> 'r redis_client
      \<Rightarrow> unit result \<times> 'r redis_client" where
  "notifier_process env api record key offset c =
     (case classify record of
        Upsert wrapped \<Rightarrow>
          (let data = unwrap wrapped in
           case order_id_of env data key of
             Inl e \<Rightarrow> (Inl e, c)
           | Inr order_id \<Rightarrow>
               if order_id = [] then (Inr (), c)
               else
                 (case value_string env data ''status'' [] of
                    Inl e \<Rightarrow> (Inl e, c)
                  | Inr status \<Rightarrow>
                      (case customer_of env data of
                         Inl e \<Rightarrow> (Inl e, c)
                       | Inr customer_id \<Rightarrow>
                           if status = ''SHIPPED'' \<or> status = ''DELIVERED''
                           then notify api customer_id order_id status offset c
                           else (Inr (), c))))
      | _ \<Rightarrow> (Inr (), c))"

section \<open>The e-mail a record asks for\<close>

definition notification_for :: "cpp_env \<Rightarrow> json \<Rightarrow> string \<Rightarrow> (string \<times> string \<times> string) option" where
  "notification_for env record key =
     (case classify record of
        Upsert wrapped \<Rightarrow>
          (let data = unwrap wrapped in
           case (order_id_of env data key, value_string env data ''status'' [], customer_of env data) of
             (Inr order_id, Inr status, Inr customer_id) \<Rightarrow>
               if order_id \<noteq> [] \<and> (status = ''SHIPPED'' \<or> status = ''DELIVERED'')
               then Some (customer_id, order_id, status) else None
           | _ \<Rightarrow> None)
      | _ \<Rightarrow> None)"

text \<open>A record that asks for no e-mail leaves everything as it is; one that does runs \<open>notify\<close>.\<close>

lemma notifier_process_cases:
  assumes "notifier_process env api record key offset c = (res, c')"
  obtains (quiet) "c' = c" "notification_for env record key = None"
  | (asks) cust i st where "notification_for env record key = Some (cust, i, st)"
      "notify api cust i st offset c = (res, c')" "st = ''SHIPPED'' \<or> st = ''DELIVERED''"
  using assms
  by (auto simp: notifier_process_def notification_for_def Let_def
      split: change.splits sum.splits if_splits)

text \<open>How many e-mails a log holds for an order and a status.\<close>

definition is_email :: "string \<Rightarrow> string \<Rightarrow> log_entry \<Rightarrow> bool" where
  "is_email i st e =
     (case e of (name, args) \<Rightarrow> name = ''email_notification_sent'' \<and>
        (case args of [_, i', st', _] \<Rightarrow> i' = i \<and> st' = st | _ \<Rightarrow> False))"

definition emails :: "string \<Rightarrow> string \<Rightarrow> 'r redis_client \<Rightarrow> nat" where
  "emails i st c = length (filter (is_email i st) (events c))"

lemma dedup_key_inj:
  assumes "dedup_key i st = dedup_key j st'" "st = ''SHIPPED'' \<or> st = ''DELIVERED''"
    "st' = ''SHIPPED'' \<or> st' = ''DELIVERED''"
  shows "i = j \<and> st = st'"
proof -
  have eq: "rev st @ '':'' @ rev i = rev st' @ '':'' @ rev j"
    using assms(1) by (simp add: dedup_key_def rev_eq_Cons_iff) (metis append.assoc append_Cons append_Nil rev.simps(2) rev_append)
  show ?thesis using eq assms(2,3) by auto
qed

lemma ensure_connected_events:
  "ensure_connected n e c = (x, c') \<Longrightarrow> events c' = events c \<or> events c' = events c @ [(e, [])]"
  by (auto simp: ensure_connected_def next_conn_def log_event_def split: if_splits list.splits conn_fate.splits prod.splits)

lemma emails_connected:
  "ensure_connected ''Notifier'' ''notifier_redis_connected'' c = (x, c') \<Longrightarrow> emails i st c' = emails i st c"
  by (drule ensure_connected_events) (auto simp: emails_def is_email_def)

text \<open>
  The ways through \<open>notify\<close>: the command did not run, the key existed, the e-mail was sent, or the
  key was set and the reply lost.
\<close>

lemma notify_cases:
  assumes "redis_laws api" "notify api cust i st offset c = (res, c')"
  obtains (unchanged) e where "res = Inl e" "server c' = server c" "\<And>j s. emails j s c' = emails j s c"
  | (duplicate) "res = Inr ()" "redis_get api (dedup_key i st) (server c) \<noteq> None" "server c' = server c"
      "\<And>j s. emails j s c' = emails j s c"
  | (sent) "res = Inr ()" "redis_get api (dedup_key i st) (server c) = None"
      "server c' = redis_set_ex api (dedup_key i st) ''1'' dedup_ttl (server c)"
      "\<And>j s. emails j s c' = emails j s c + (if j = i \<and> s = st then 1 else 0)"
  | (lost) e where "res = Inl e" "redis_get api (dedup_key i st) (server c) = None"
      "server c' = redis_set_ex api (dedup_key i st) ''1'' dedup_ttl (server c)"
      "\<And>j s. emails j s c' = emails j s c"
proof -
  obtain x c1 where ec: "ensure_connected ''Notifier'' ''notifier_redis_connected'' c = (x, c1)" by fastforce
  note s1 = ensure_connected_pair [OF ec] and e1 = emails_connected [OF ec]
  have nx: "set_nx api (dedup_key i st) (server c) =
      (if redis_get api (dedup_key i st) (server c) = None
       then (RStatus ''OK'', redis_set_ex api (dedup_key i st) ''1'' dedup_ttl (server c)) else (RNil, server c))"
    by (simp add: set_nx_def set_nx_ex [OF assms(1)])
  show thesis
  proof (cases x)
    case (Inl e)
    with assms(2) ec s1 e1 show thesis by (intro unchanged [of e]) (auto simp: notify_def)
  next
    case (Inr u)
    obtain rep c2 where rc: "redis_command (set_nx api (dedup_key i st)) c1 = (rep, c2)" by fastforce
    have e2: "emails j s c2 = emails j s c" for j s
      using redis_command_events [of "set_nx api (dedup_key i st)" c1] rc e1 by (simp add: emails_def)
    show thesis
    proof (cases "reply_error rep")
      case (Some e)
      have "res = Inl (''Notifier Redis command failed: '' @ e)" "c' = c2"
        using assms(2) ec Inr rc Some by (auto simp: notify_def)
      with redis_command_pair [OF rc] s1 nx e2 show thesis
        by (cases "redis_get api (dedup_key i st) (server c) = None")
          (auto intro: unchanged lost)
    next
      case None
      note rs = redis_command_reply [OF rc None]
      show thesis
      proof (cases "redis_get api (dedup_key i st) (server c) = None")
        case True
        with rs s1 nx have "rep = Some (RStatus ''OK'')"
          "server c2 = redis_set_ex api (dedup_key i st) ''1'' dedup_ttl (server c)" by simp_all
        with assms(2) ec Inr rc None True e2 show thesis
          by (intro sent) (auto simp: notify_def emails_def is_email_def frame)
      next
        case False
        with rs s1 nx have "rep = Some RNil" "server c2 = server c" by simp_all
        with assms(2) ec Inr rc None False e2 show thesis
          by (intro duplicate) (auto simp: notify_def emails_def is_email_def frame)
      qed
    qed
  qed
qed

section \<open>Deliveries one after another\<close>

definition notifier_deliver ::
    "cpp_env \<Rightarrow> 'r redis_api \<Rightarrow> delivery \<Rightarrow> 'r redis_client \<Rightarrow> 'r redis_client" where
  "notifier_deliver env api d c = (case d of (record, key, offset) \<Rightarrow> snd (notifier_process env api record key offset c))"

definition notifier_run ::
    "cpp_env \<Rightarrow> 'r redis_api \<Rightarrow> delivery list \<Rightarrow> 'r redis_client \<Rightarrow> 'r redis_client" where
  "notifier_run env api ds c = fold (notifier_deliver env api) ds c"

definition mails_guarded :: "'r redis_api \<Rightarrow> 'r redis_client \<Rightarrow> bool" where
  "mails_guarded api c \<longleftrightarrow>
     (\<forall>i st. st = ''SHIPPED'' \<or> st = ''DELIVERED'' \<longrightarrow>
        emails i st c \<le> (if redis_get api (dedup_key i st) (server c) = None then 0 else 1))"

lemma mails_guardedD:
  "mails_guarded api c \<Longrightarrow> st = ''SHIPPED'' \<or> st = ''DELIVERED'' \<Longrightarrow>
   emails i st c \<le> (if redis_get api (dedup_key i st) (server c) = None then 0 else 1)"
  unfolding mails_guarded_def by blast

lemma mails_guarded_notify:
  assumes "redis_laws api" "mails_guarded api c" "st = ''SHIPPED'' \<or> st = ''DELIVERED''"
    "notify api cust i st offset c = (res, c')"
  shows "mails_guarded api c'"
  using assms(1,4)
proof (cases rule: notify_cases)
  case sent
  have "emails j s c' \<le> (if redis_get api (dedup_key j s) (server c') = None then 0 else 1)"
    if "s = ''SHIPPED'' \<or> s = ''DELIVERED''" for j s
  proof (cases "j = i \<and> s = st")
    case True
    then have "emails j s c = 0" using mails_guardedD [OF assms(2,3), of i] sent(2) by simp
    with True sent assms(1) show ?thesis by (simp add: get_set_ex)
  next
    case False
    with dedup_key_inj [OF _ that assms(3), of j i] have "dedup_key j s \<noteq> dedup_key i st" by blast
    with False sent assms(1) mails_guardedD [OF assms(2) that, of j] show ?thesis
      by (auto simp: get_set_ex split: if_splits)
  qed
  then show ?thesis by (simp add: mails_guarded_def)
next
  case (lost e)
  have "emails j s c' \<le> (if redis_get api (dedup_key j s) (server c') = None then 0 else 1)"
    if "s = ''SHIPPED'' \<or> s = ''DELIVERED''" for j s
    using mails_guardedD [OF assms(2) that, of j] assms(1) lost(3,4) by (auto simp: get_set_ex split: if_splits)
  then show ?thesis by (simp add: mails_guarded_def)
qed (use assms(2) in \<open>simp_all add: mails_guarded_def\<close>)

lemma mails_guarded_process:
  assumes "redis_laws api" "mails_guarded api c" "notifier_process env api record key offset c = (res, c')"
  shows "mails_guarded api c'"
  using assms(3)
proof (cases rule: notifier_process_cases)
  case (asks cust i st)
  show ?thesis using assms(1,2) asks(3,2) by (rule mails_guarded_notify)
qed (use assms(2) in simp)

lemma mails_guarded_run:
  "redis_laws api \<Longrightarrow> mails_guarded api c \<Longrightarrow> mails_guarded api (notifier_run env api ds c)"
proof (induction ds arbitrary: c)
  case (Cons d ds)
  obtain rcd key offset where d: "d = (rcd, key, offset)" by (cases d) auto
  obtain res c' where p: "notifier_process env api rcd key offset c = (res, c')" by fastforce
  have "mails_guarded api c'" using mails_guarded_process [OF Cons.prems p] .
  with Cons.IH [OF Cons.prems(1) this] p d show ?case by (simp add: notifier_run_def notifier_deliver_def)
qed (simp add: notifier_run_def)

text \<open>No e-mail is sent for a status other than the two.\<close>

lemma emails_other:
  assumes "redis_laws api" "notifier_process env api record key offset c = (res, c')"
    and "st \<noteq> ''SHIPPED''" "st \<noteq> ''DELIVERED''"
  shows "emails i st c' = emails i st c"
  using assms(2)
proof (cases rule: notifier_process_cases)
  case (asks cust j s)
  from assms(1) asks(2) show ?thesis by (cases rule: notify_cases) (use asks(3) assms(3,4) in auto)
qed simp

lemma notifier_run_Cons:
  "notifier_process env api rcd key offset c = (res, c') \<Longrightarrow>
   notifier_run env api ((rcd, key, offset) # ds) c = notifier_run env api ds c'"
  by (simp add: notifier_run_def notifier_deliver_def)

lemma emails_other_run:
  "redis_laws api \<Longrightarrow> st \<noteq> ''SHIPPED'' \<Longrightarrow> st \<noteq> ''DELIVERED'' \<Longrightarrow>
   emails i st (notifier_run env api ds c) = emails i st c"
proof (induction ds arbitrary: c)
  case (Cons d ds)
  obtain rcd key offset where d: "d = (rcd, key, offset)" by (cases d) auto
  obtain res c' where p: "notifier_process env api rcd key offset c = (res, c')" by fastforce
  from Cons.IH [of c'] Cons.prems emails_other [OF Cons.prems(1) p Cons.prems(2,3)] p d show ?case
    by (simp add: notifier_run_Cons)
qed (simp add: notifier_run_def)

text \<open>Once the key of an e-mail is set it stays set, and the e-mail is not sent again.\<close>

lemma emails_frozen_process:
  assumes "redis_laws api" "notifier_process env api record key offset c = (res, c')"
    and "st = ''SHIPPED'' \<or> st = ''DELIVERED''" "redis_get api (dedup_key i st) (server c) \<noteq> None"
  shows "redis_get api (dedup_key i st) (server c') \<noteq> None \<and> emails i st c' = emails i st c"
  using assms(2)
proof (cases rule: notifier_process_cases)
  case (asks cust j s)
  from assms(1) asks(2) show ?thesis
  proof (cases rule: notify_cases)
    case sent
    then have "dedup_key i st \<noteq> dedup_key j s" using assms(4) by auto
    with sent assms(1,4) show ?thesis by (auto simp: get_set_ex)
  next
    case (lost e)
    with assms(1,4) show ?thesis by (auto simp: get_set_ex)
  qed (use assms(4) in auto)
qed (use assms(4) in simp)

lemma emails_frozen:
  "redis_laws api \<Longrightarrow> st = ''SHIPPED'' \<or> st = ''DELIVERED'' \<Longrightarrow>
   redis_get api (dedup_key i st) (server c) \<noteq> None \<Longrightarrow>
   emails i st (notifier_run env api ds c) = emails i st c"
proof (induction ds arbitrary: c)
  case (Cons d ds)
  obtain rcd key offset where d: "d = (rcd, key, offset)" by (cases d) auto
  obtain res c' where p: "notifier_process env api rcd key offset c = (res, c')" by fastforce
  from Cons.IH [of c'] emails_frozen_process [OF Cons.prems(1) p Cons.prems(2,3)] Cons.prems(1,2) p d
  show ?case by (simp add: notifier_run_Cons)
qed (simp add: notifier_run_def)

section \<open>Deliveries to a healthy server\<close>

definition asks_for :: "cpp_env \<Rightarrow> string \<Rightarrow> string \<Rightarrow> delivery \<Rightarrow> bool" where
  "asks_for env i st d =
     (case d of (record, key, offset) \<Rightarrow>
        (case notification_for env record key of None \<Rightarrow> False | Some (_, i', st') \<Rightarrow> i' = i \<and> st' = st))"

lemma notify_healthy:
  assumes "redis_laws api" "healthy c" "notify api cust i st offset c = (res, c')"
  shows "healthy c' \<and> res = Inr () \<and> redis_get api (dedup_key i st) (server c') \<noteq> None
    \<and> (\<forall>k. k \<noteq> dedup_key i st \<longrightarrow> redis_get api k (server c') = redis_get api k (server c))
    \<and> emails j s c' = emails j s c +
        (if redis_get api (dedup_key i st) (server c) = None \<and> j = i \<and> s = st then 1 else 0)"
proof (cases "redis_get api (dedup_key i st) (server c) = None")
  case True
  with assms show ?thesis
    by (auto simp: notify_def healthy_connected healthy_command set_nx_def set_nx_ex reply_error_def
        frame get_set_ex emails_def is_email_def)
next
  case False
  with assms show ?thesis
    by (auto simp: notify_def healthy_connected healthy_command set_nx_def set_nx_ex reply_error_def
        frame get_set_ex emails_def is_email_def)
qed

lemma emails_healthy_run:
  "redis_laws api \<Longrightarrow> healthy c \<Longrightarrow> st = ''SHIPPED'' \<or> st = ''DELIVERED'' \<Longrightarrow>
   emails i st (notifier_run env api ds c) = emails i st c +
     (if redis_get api (dedup_key i st) (server c) = None \<and> list_ex (asks_for env i st) ds then 1 else 0)"
proof (induction ds arbitrary: c)
  case (Cons d ds)
  obtain rcd key offset where d: "d = (rcd, key, offset)" by (cases d) auto
  obtain res c' where p: "notifier_process env api rcd key offset c = (res, c')" by fastforce
  note IH = Cons.IH [OF Cons.prems(1) _ Cons.prems(3), of c']
  from p show ?case
  proof (cases rule: notifier_process_cases)
    case quiet
    with IH Cons.prems(2) p d show ?thesis by (simp add: notifier_run_Cons asks_for_def)
  next
    case (asks cust j s)
    note h = notify_healthy [OF Cons.prems(1,2) asks(2), of i st]
    show ?thesis
    proof (cases "j = i \<and> s = st")
      case True
      with IH h p d asks(1) show ?thesis by (auto simp: notifier_run_Cons asks_for_def)
    next
      case False
      with dedup_key_inj [OF _ Cons.prems(3) asks(3), of i j]
      have "dedup_key i st \<noteq> dedup_key j s" by blast
      with False IH h p d asks(1) show ?thesis by (auto simp: notifier_run_Cons asks_for_def)
    qed
  qed
qed (simp add: notifier_run_def)

section \<open>Properties\<close>

text \<open>
 At most one e-mail per order and status, over any deliveries, replays, and failures of
  connections and commands, as long as the key lives (\<open>Key_Expiry\<close> has what happens then).
\<close>

theorem notifier_at_most_once:
  assumes "redis_laws api" "events c = []"
  shows "emails i st (notifier_run env api ds c) \<le> 1"
proof (cases "st = ''SHIPPED'' \<or> st = ''DELIVERED''")
  case True
  have "mails_guarded api c" by (simp add: mails_guarded_def emails_def assms(2))
  from mails_guardedD [OF mails_guarded_run [OF assms(1) this, of env ds] True, of i]
  show ?thesis by (simp split: if_splits)
next
  case False
  with emails_other_run [OF assms(1), of st i env ds c] show ?thesis by (simp add: emails_def assms(2))
qed

definition shipped_record :: json where
  "shipped_record = JObj [(''id'', JStr ''7''), (''status'', JStr ''SHIPPED'')]"

lemma shipped_asks [simp]: "notification_for sample_env shipped_record k = Some (''guest'', ''7'', ''SHIPPED'')"
  by (simp add: notification_for_def shipped_record_def classify_def contains_def at_key_def is_null_def
      unwrap_def is_object_def object_size_def order_id_of_def document_id_str customer_of_def)

theorem notifier_at_most_once_witness:
  "redis_laws map_redis \<and> emails ''7'' ''SHIPPED''
    (notifier_run sample_env map_redis [(shipped_record, ''7'', 0), (shipped_record, ''7'', 0)] sample_client) \<le> 1"
proof -
  have "events sample_client = []" by (simp add: sample_client_def)
  from notifier_at_most_once [OF map_redis_laws this] show ?thesis by simp
qed

text \<open>
 Exactly one e-mail on a healthy server: whatever the other deliveries and however often it
  is replayed, an order that reaches one of the two statuses gets exactly one e-mail for it.
\<close>

theorem notifier_exactly_once:
  assumes "redis_laws api" "healthy c" "events c = []" "st = ''SHIPPED'' \<or> st = ''DELIVERED''"
    and "redis_get api (dedup_key i st) (server c) = None"
  shows "emails i st (notifier_run env api ds c) = (if list_ex (asks_for env i st) ds then 1 else 0)"
  using emails_healthy_run [OF assms(1,2,4), of i env ds] assms(3,5) by (simp add: emails_def)

theorem notifier_exactly_once_witness:
  "emails ''7'' ''SHIPPED''
    (notifier_run sample_env map_redis [(shipped_record, ''7'', 0), (shipped_record, ''7'', 0)] sample_client) = 1"
proof -
  have c: "events sample_client = []" "redis_get map_redis (dedup_key ''7'' ''SHIPPED'') (server sample_client) = None"
    by (simp_all add: sample_client_def map_redis_def)
  have st: "''SHIPPED'' = ''SHIPPED'' \<or> ''SHIPPED'' = ''DELIVERED''" by simp
  show ?thesis
    using notifier_exactly_once [OF map_redis_laws sample_healthy c(1) st c(2)] by (simp add: asks_for_def)
qed

text \<open>
  C30. An e-mail can be lost for good: when the server sets the key but its reply does not arrive,
  the call throws, and every later delivery, the retries included, finds the key and skips the
  e-mail.
\<close>

theorem notifier_lost_email:
  assumes "redis_laws api" "redis_ctx c = CtxOk" "cmd_plan c = NoReply True e # plan"
    and "notification_for env record key = Some (cust, i, st)"
    and "redis_get api (dedup_key i st) (server c) = None"
    and "notifier_process env api record key offset c = (res, c')"
  shows "res = Inl ''Notifier Redis command failed: Null reply / connection error''
    \<and> emails i st (notifier_run env api ds c') = emails i st c"
  using assms(6)
proof (cases rule: notifier_process_cases)
  case quiet
  with assms(4) show ?thesis by simp
next
  case (asks cust' i' st')
  with assms(4) have same: "cust' = cust" "i' = i" "st' = st" by auto
  have "res = Inl ''Notifier Redis command failed: Null reply / connection error''"
    "server c' = redis_set_ex api (dedup_key i st) ''1'' dedup_ttl (server c)" "events c' = events c"
    using asks(2) assms(1-3,5) same
    by (auto simp: notify_def ensure_connected_def redis_command_def next_cmd_def reply_error_def set_nx_def set_nx_ex)
  then show ?thesis
    using emails_frozen [OF assms(1), of st i c' env ds] asks(3) same assms(1)
    by (simp add: get_set_ex emails_def)
qed

theorem notifier_lost_email_witness:
  "emails ''7'' ''SHIPPED'' (notifier_run sample_env map_redis [(shipped_record, ''7'', 0)]
     (snd (notifier_process sample_env map_redis shipped_record ''7'' 0
        (sample_client\<lparr>cmd_plan := [NoReply True ''timeout'']\<rparr>)))) = 0"
proof -
  let ?c = "sample_client\<lparr>cmd_plan := [NoReply True ''timeout'']\<rparr>"
  obtain res c' where p: "notifier_process sample_env map_redis shipped_record ''7'' 0 ?c = (res, c')" by fastforce
  have hyps: "redis_ctx ?c = CtxOk" "cmd_plan ?c = NoReply True ''timeout'' # []"
    "redis_get map_redis (dedup_key ''7'' ''SHIPPED'') (server ?c) = None"
    by (simp_all add: sample_client_def map_redis_def)
  have "emails ''7'' ''SHIPPED'' ?c = 0" by (simp add: sample_client_def emails_def)
  then show ?thesis
    using notifier_lost_email [OF map_redis_laws hyps(1,2) shipped_asks hyps(3) p, of "[(shipped_record, ''7'', 0)]"] p
    by simp
qed

end
