(* ===== verification/ES_Indexer.thy ===== *)
theory ES_Indexer
  imports Order_Event Redis_Updater
begin

text \<open>
  \<open>ESIndexer\<close> (\<open>consumers/src/es_indexer.cpp\<close>): the sink that keeps the search index. Its
  \<open>ProcessRecord\<close> on every branch, the abstraction of the index to a map from order identifiers to
  documents, and what follows for replays and for deliveries out of order.
\<close>

section \<open>Elasticsearch\<close>

text \<open>
  A response of the HTTP client: status (0 when there was no answer), error message and body.
  \<open>es_read\<close> is the document stored under a URL; it only serves to state what the requests do.
\<close>

record es_response =
  status_code :: int
  error_message :: string
  response_text :: string

record 'e es_api =
  es_put_doc :: "string \<Rightarrow> string \<Rightarrow> 'e \<Rightarrow> es_response \<times> 'e"
  es_delete_doc :: "string \<Rightarrow> 'e \<Rightarrow> es_response \<times> 'e"
  es_read :: "string \<Rightarrow> 'e \<Rightarrow> string option"

record 'e es_client =
  index :: 'e
  es_events :: "log_entry list"

definition es_log :: "log_entry \<Rightarrow> 'e es_client \<Rightarrow> 'e es_client" where
  "es_log e c = c\<lparr>es_events := es_events c @ [e]\<rparr>"

definition successful :: "es_response \<Rightarrow> bool" where
  "successful r \<longleftrightarrow> 200 \<le> status_code r \<and> status_code r < 300"

section \<open>ProcessRecord\<close>

definition doc_url :: "string \<Rightarrow> string \<Rightarrow> string" where
  "doc_url es_url order_id = es_url @ ''/orders/_doc/'' @ order_id"

definition es_delete ::
    "cpp_env \<Rightarrow> 'e es_api \<Rightarrow> string \<Rightarrow> json \<Rightarrow> string \<Rightarrow> 'e es_client \<Rightarrow> unit result \<times> 'e es_client" where
  "es_delete env api es_url prior key c =
     (case order_id_of env (unwrap prior) key of
        Inl e \<Rightarrow> (Inl e, c)
      | Inr order_id \<Rightarrow>
          if order_id = [] then (Inr (), c)
          else
            (case es_delete_doc api (doc_url es_url order_id) (index c) of
               (r, e') \<Rightarrow>
                 (let c1 = c\<lparr>index := e'\<rparr> in
                  if successful r then (Inr (), es_log (''es_deleted'', [order_id, show_int (status_code r)]) c1)
                  else if status_code r \<noteq> 404 then
                    (Inl (''Elasticsearch delete failed: status '' @ show_int (status_code r) @ '', error: ''
                            @ error_message r), c1)
                  else (Inr (), c1))))"

definition es_put ::
    "cpp_env \<Rightarrow> 'e es_api \<Rightarrow> string \<Rightarrow> json \<Rightarrow> string \<Rightarrow> int \<Rightarrow> 'e es_client \<Rightarrow> unit result \<times> 'e es_client" where
  "es_put env api es_url data key offset c =
     (case order_id_of env data key of
        Inl e \<Rightarrow> (Inl e, c)
      | Inr order_id \<Rightarrow>
          if order_id = [] then (Inr (), es_log (''es_indexer_skip_no_id'', [show_int offset]) c)
          else
            (case dump env data of
               Inl e \<Rightarrow> (Inl e, c)
             | Inr doc \<Rightarrow>
                 (case es_put_doc api (doc_url es_url order_id) doc (index c) of
                    (r, e') \<Rightarrow>
                      (let c1 = c\<lparr>index := e'\<rparr> in
                       if successful r then
                         (Inr (), es_log (''es_indexed'', [order_id, show_int (status_code r), show_int offset]) c1)
                       else
                         (Inl (''Elasticsearch indexing failed: status '' @ show_int (status_code r) @ '', error: ''
                                 @ error_message r @ '', response: '' @ response_text r), c1)))))"

definition es_process ::
    "cpp_env \<Rightarrow> 'e es_api \<Rightarrow> string \<Rightarrow> json \<Rightarrow> string \<Rightarrow> int \<Rightarrow> 'e es_client \<Rightarrow> unit result \<times> 'e es_client" where
  "es_process env api es_url record key offset c =
     (case classify record of
        Upsert data \<Rightarrow> es_put env api es_url (unwrap data) key offset c
      | Delete prior \<Rightarrow> es_delete env api es_url prior key c
      | Unrelated \<Rightarrow> (Inr (), c))"

section \<open>The index as a map\<close>

type_synonym es_view = "string \<Rightarrow> string option"

definition es_view_of :: "'e es_api \<Rightarrow> string \<Rightarrow> 'e \<Rightarrow> es_view" where
  "es_view_of api es_url e i = es_read api (doc_url es_url i) e"

text \<open>
  What Elasticsearch documents: a successful \<open>PUT\<close> stores the document, a successful or 404
  \<open>DELETE\<close> leaves none; a request that fails may or may not have been carried out; no request
  touches another document.
\<close>

definition es_laws :: "'e es_api \<Rightarrow> bool" where
  "es_laws api \<longleftrightarrow>
     (\<forall>u b e r e'. es_put_doc api u b e = (r, e') \<longrightarrow>
        (if successful r then es_read api u e' = Some b else es_read api u e' \<in> {es_read api u e, Some b})
        \<and> (\<forall>v. v \<noteq> u \<longrightarrow> es_read api v e' = es_read api v e)) \<and>
     (\<forall>u e r e'. es_delete_doc api u e = (r, e') \<longrightarrow>
        (if successful r \<or> status_code r = 404 then es_read api u e' = None
         else es_read api u e' \<in> {es_read api u e, None})
        \<and> (\<forall>v. v \<noteq> u \<longrightarrow> es_read api v e' = es_read api v e))"

definition es_reliable :: "'e es_api \<Rightarrow> bool" where
  "es_reliable api \<longleftrightarrow>
     (\<forall>u b e. successful (fst (es_put_doc api u b e))) \<and>
     (\<forall>u e. successful (fst (es_delete_doc api u e)) \<or> status_code (fst (es_delete_doc api u e)) = 404)"

text \<open>The update of the index a record asks for.\<close>

definition es_update :: "cpp_env \<Rightarrow> json \<Rightarrow> string \<Rightarrow> (string \<times> string option) option" where
  "es_update env record key =
     map_option (\<lambda>(i, _, d). (i, d)) (record_update env record key)"

lemma doc_url_inj [simp]: "doc_url u i = doc_url u j \<longleftrightarrow> i = j"
  by (simp add: doc_url_def)

lemma es_put_law:
  "es_laws api \<Longrightarrow> es_put_doc api u b e = (r, e') \<Longrightarrow>
     (if successful r then es_read api u e' = Some b else es_read api u e' \<in> {es_read api u e, Some b})
     \<and> (\<forall>v. v \<noteq> u \<longrightarrow> es_read api v e' = es_read api v e)"
  unfolding es_laws_def by blast

lemma es_delete_law:
  "es_laws api \<Longrightarrow> es_delete_doc api u e = (r, e') \<Longrightarrow>
     (if successful r \<or> status_code r = 404 then es_read api u e' = None
      else es_read api u e' \<in> {es_read api u e, None})
     \<and> (\<forall>v. v \<noteq> u \<longrightarrow> es_read api v e' = es_read api v e)"
  unfolding es_laws_def by blast

lemma view_put:
  assumes "es_laws api" "es_put_doc api (doc_url u i) b e = (r, e')"
  shows "es_view_of api u e' = (es_view_of api u e)(i \<mapsto> b) \<or> \<not> successful r \<and> es_view_of api u e' = es_view_of api u e"
proof -
  have r: "if successful r then es_read api (doc_url u i) e' = Some b
      else es_read api (doc_url u i) e' \<in> {es_read api (doc_url u i) e, Some b}"
    and o: "\<And>j. j \<noteq> i \<Longrightarrow> es_view_of api u e' j = es_view_of api u e j"
    using es_put_law [OF assms] by (auto simp: es_view_of_def)
  then have "es_view_of api u e' i = Some b \<or> \<not> successful r \<and> es_view_of api u e' i = es_view_of api u e i"
    by (auto simp: es_view_of_def split: if_splits)
  with o show ?thesis by (metis fun_upd_apply ext)
qed

lemma view_delete:
  assumes "es_laws api" "es_delete_doc api (doc_url u i) e = (r, e')"
  shows "es_view_of api u e' = (es_view_of api u e)(i := None)
    \<or> \<not> (successful r \<or> status_code r = 404) \<and> es_view_of api u e' = es_view_of api u e"
proof -
  have r: "if successful r \<or> status_code r = 404 then es_read api (doc_url u i) e' = None
      else es_read api (doc_url u i) e' \<in> {es_read api (doc_url u i) e, None}"
    and o: "\<And>j. j \<noteq> i \<Longrightarrow> es_view_of api u e' j = es_view_of api u e j"
    using es_delete_law [OF assms] by (auto simp: es_view_of_def)
  then have "es_view_of api u e' i = None
      \<or> \<not> (successful r \<or> status_code r = 404) \<and> es_view_of api u e' i = es_view_of api u e i"
    by (auto simp: es_view_of_def split: if_splits)
  with o show ?thesis by (metis fun_upd_apply ext)
qed

lemma es_log_index [simp]: "index (es_log e c) = index c"
  by (simp add: es_log_def)

lemma es_update_None:
  assumes "es_process env api u record key offset c = (res, c')" "es_update env record key = None"
  shows "index c' = index c"
  using assms
  by (auto simp: es_process_def es_put_def es_delete_def es_update_def record_update_def Let_def
      split: change.splits sum.splits if_splits)

lemma es_process_step:
  assumes "es_laws api" "es_process env api u record key offset c = (res, c')"
    and "es_update env record key = Some (i, d)"
  shows "es_view_of api u (index c') = (es_view_of api u (index c))(i := d)
    \<or> (\<exists>e. res = Inl e) \<and> es_view_of api u (index c') = es_view_of api u (index c)"
proof (cases "classify record")
  case (Upsert data)
  then obtain doc where up: "order_id_of env (unwrap data) key = Inr i" "i \<noteq> []"
      "dump env (unwrap data) = Inr doc" "d = Some doc"
    using assms(3) by (auto simp: es_update_def record_update_def Let_def split: sum.splits if_splits)
  obtain r e' where put: "es_put_doc api (doc_url u i) doc (index c) = (r, e')" by fastforce
  with Upsert up assms(2) have "index c' = e'" "successful r \<or> (\<exists>e. res = Inl e)"
    by (auto simp: es_process_def es_put_def Let_def split: if_splits)
  with view_put [OF assms(1) put] up(4) show ?thesis by auto
next
  case (Delete prior)
  then have up: "order_id_of env (unwrap prior) key = Inr i" "i \<noteq> []" "d = None"
    using assms(3) by (auto simp: es_update_def record_update_def Let_def split: sum.splits if_splits)
  obtain r e' where del: "es_delete_doc api (doc_url u i) (index c) = (r, e')" by fastforce
  with Delete up assms(2) have "index c' = e'" "successful r \<or> status_code r = 404 \<or> (\<exists>e. res = Inl e)"
    by (auto simp: es_process_def es_delete_def Let_def split: if_splits)
  with view_delete [OF assms(1) del] up(3) show ?thesis by auto
next
  case Unrelated
  with assms(3) show ?thesis by (simp add: es_update_def record_update_def)
qed

lemma es_process_returns:
  assumes "es_reliable api" "es_process env api u record key offset c = (res, c')" "es_update env record key \<noteq> None"
  shows "res = Inr ()"
  using assms
  by (auto simp: es_process_def es_put_def es_delete_def es_update_def record_update_def Let_def es_reliable_def
      split: change.splits sum.splits if_splits prod.splits) (metis fst_conv)+

lemma es_process_reliable:
  assumes "es_laws api" "es_reliable api" "es_process env api u record key offset c = (res, c')"
    and "es_update env record key = Some (i, d)"
  shows "es_view_of api u (index c') = (es_view_of api u (index c))(i := d)"
  using es_process_step [OF assms(1,3,4)] es_process_returns [OF assms(2,3)] assms(4) by auto

section \<open>Deliveries one after another\<close>

definition es_deliver ::
    "cpp_env \<Rightarrow> 'e es_api \<Rightarrow> string \<Rightarrow> delivery \<Rightarrow> 'e es_client \<Rightarrow> 'e es_client" where
  "es_deliver env api u d c = (case d of (record, key, offset) \<Rightarrow> snd (es_process env api u record key offset c))"

definition es_run ::
    "cpp_env \<Rightarrow> 'e es_api \<Rightarrow> string \<Rightarrow> delivery list \<Rightarrow> 'e es_client \<Rightarrow> 'e es_client" where
  "es_run env api u ds c = fold (es_deliver env api u) ds c"

definition es_put_view :: "cpp_env \<Rightarrow> delivery \<Rightarrow> es_view \<Rightarrow> es_view" where
  "es_put_view env d v =
     (case d of (record, key, offset) \<Rightarrow>
        (case es_update env record key of None \<Rightarrow> v | Some (i, doc) \<Rightarrow> v(i := doc)))"

lemma es_run_view:
  assumes "es_laws api" "es_reliable api"
  shows "es_view_of api u (index (es_run env api u ds c)) = fold (es_put_view env) ds (es_view_of api u (index c))"
proof (induction ds arbitrary: c)
  case (Cons d ds)
  obtain rcd key offset where d: "d = (rcd, key, offset)" by (cases d) auto
  obtain res c' where p: "es_process env api u rcd key offset c = (res, c')" by fastforce
  have "es_view_of api u (index c') = es_put_view env d (es_view_of api u (index c))"
  proof (cases "es_update env rcd key")
    case None
    with es_update_None [OF p] show ?thesis by (simp add: d es_put_view_def)
  next
    case (Some q)
    obtain i doc where q: "q = (i, doc)" by (cases q)
    with es_process_reliable [OF assms p] Some show ?thesis by (simp add: d es_put_view_def)
  qed
  with Cons [of c'] p d show ?case by (simp add: es_run_def es_deliver_def)
qed (simp add: es_run_def)

text \<open>The last update of an order decides; earlier content does not matter once there is one.\<close>

definition touches :: "cpp_env \<Rightarrow> string \<Rightarrow> delivery \<Rightarrow> bool" where
  "touches env i d =
     (case d of (record, key, offset) \<Rightarrow>
        (case es_update env record key of None \<Rightarrow> False | Some (j, _) \<Rightarrow> j = i))"

lemma fold_put_untouched: "\<not> list_ex (touches env i) ds \<Longrightarrow> fold (es_put_view env) ds v i = v i"
proof (induction ds arbitrary: v)
  case (Cons d ds)
  then have "es_put_view env d v i = v i"
    by (auto simp: es_put_view_def touches_def split: prod.splits option.splits)
  with Cons show ?case by simp
qed simp

lemma fold_put_touched:
  "list_ex (touches env i) ds \<Longrightarrow> fold (es_put_view env) ds v i = fold (es_put_view env) ds w i"
proof (induction ds arbitrary: v w)
  case (Cons d ds)
  show ?case
  proof (cases "list_ex (touches env i) ds")
    case False
    then have "touches env i d" using Cons.prems by simp
    then have "es_put_view env d v i = es_put_view env d w i"
      by (auto simp: es_put_view_def touches_def split: prod.splits option.splits)
    with fold_put_untouched [OF False] show ?thesis by simp
  qed (use Cons.IH in simp)
qed simp

lemma fold_put_replay: "fold (es_put_view env) (ds @ ds) v = fold (es_put_view env) ds v"
proof
  fix i
  show "fold (es_put_view env) (ds @ ds) v i = fold (es_put_view env) ds v i"
    by (cases "list_ex (touches env i) ds")
      (simp_all add: fold_put_touched [of env i ds "fold (es_put_view env) ds v" v] fold_put_untouched)
qed

section \<open>Properties\<close>

text \<open>An index that obeys the laws: a map that accepts everything. It instantiates the parameter in the witnesses.\<close>

definition map_es :: "(string \<Rightarrow> string option) es_api" where
  "map_es =
     \<lparr>es_put_doc = (\<lambda>u b e. (\<lparr>status_code = 201, error_message = [], response_text = []\<rparr>, e(u \<mapsto> b))),
      es_delete_doc = (\<lambda>u e. (\<lparr>status_code = 200, error_message = [], response_text = []\<rparr>, e(u := None))),
      es_read = (\<lambda>u e. e u)\<rparr>"

lemma map_es_ok [simp]: "es_laws map_es" "es_reliable map_es"
  by (auto simp: es_laws_def es_reliable_def map_es_def successful_def)

definition sample_index :: "(string \<Rightarrow> string option) es_client" where
  "sample_index = \<lparr>index = Map.empty, es_events = []\<rparr>"

text \<open>
  C31. Refinement. When \<open>ProcessRecord\<close> returns normally, the index has the record's update; when
  it throws, the update has been carried out or nothing has changed; a record without an update
  changes nothing. No answer of Elasticsearch is assumed.
\<close>

theorem es_process_refines:
  assumes "es_laws api" "es_process env api u record key offset c = (res, c')"
  shows "case es_update env record key of
      None \<Rightarrow> index c' = index c
    | Some (i, d) \<Rightarrow>
        if res = Inr () then es_view_of api u (index c') = (es_view_of api u (index c))(i := d)
        else es_view_of api u (index c') \<in> {es_view_of api u (index c), (es_view_of api u (index c))(i := d)}"
proof (cases "es_update env record key")
  case None
  with es_update_None [OF assms(2)] show ?thesis by simp
next
  case (Some p)
  obtain i d where p: "p = (i, d)" by (cases p)
  with es_process_step [OF assms, of i d] Some show ?thesis by auto
qed

theorem es_process_refines_witness:
  "es_view_of map_es ''http://es''
     (index (snd (es_process sample_env map_es ''http://es'' (sample_record ''7'' ''SHIPPED'' 12) ''7'' 3 sample_index))) ''7''
   = Some ''{}''"
proof -
  let ?r = "sample_record ''7'' ''SHIPPED'' 12"
  obtain res c' where p: "es_process sample_env map_es ''http://es'' ?r ''7'' 3 sample_index = (res, c')" by fastforce
  have u: "es_update sample_env ?r ''7'' = Some (''7'', Some ''{}'')" by (simp add: es_update_def sample_update)
  have "es_view_of map_es ''http://es'' (index c') = (es_view_of map_es ''http://es'' (index sample_index))(''7'' := Some ''{}'')"
    using es_process_reliable [OF map_es_ok p u] .
  with es_process_refines [OF map_es_ok(1) p] u p show ?thesis by (auto split: if_splits)
qed

text \<open>
 Redelivery converges. With an Elasticsearch that accepts every request, delivering the
  uncommitted end of the log once more, in the same order, leaves every document as it was.
\<close>

theorem es_replay_converges:
  assumes "es_laws api" "es_reliable api"
  shows "es_view_of api u (index (es_run env api u (ds @ es @ es) c))
    = es_view_of api u (index (es_run env api u (ds @ es) c))"
  using fold_put_replay [of env es] by (simp add: es_run_view [OF assms])

theorem es_replay_converges_witness:
  "es_view_of map_es ''http://es'' (index (es_run sample_env map_es ''http://es'' ([] @ [(sample_record ''7'' ''NEW'' 4, ''7'', 0)] @
      [(sample_record ''7'' ''NEW'' 4, ''7'', 0)]) sample_index))
    = es_view_of map_es ''http://es'' (index (es_run sample_env map_es ''http://es'' ([] @ [(sample_record ''7'' ''NEW'' 4, ''7'', 0)]) sample_index))"
  using es_replay_converges [OF map_es_ok] .

text \<open>
  C32. The two stores can disagree. When an older event of an order is delivered after a newer one,
  the cache keeps the newer document, guarded by its sequence number, while the index, which has
  no such guard, ends up with the older one.
\<close>

theorem stores_diverge:
  assumes "redis_laws rapi" "healthy rc" "guards_ok rapi (server rc)" "cache_view rapi (server rc) = (\<lambda>_. None)"
    and "es_laws api" "es_reliable api" "plain_id i"
    and "delivery_update env newer = Some (i, m, Some new_doc)" "delivery_update env older = Some (i, n, Some old_doc)"
    and "n < m" "\<bar>n\<bar> \<le> 2 ^ 53" "\<bar>m\<bar> \<le> 2 ^ 53"
  shows "cache_view rapi (server (redis_run env rapi [newer, older] rc)) i = Some (m, Some new_doc)
    \<and> es_view_of api u (index (es_run env api u [newer, older] c)) i = Some old_doc"
proof -
  have plain: "plain_deliveries env [newer, older]" using assms(7-9) by (simp add: plain_deliveries_def)
  have ups: "updates_of env [newer, older] = [(i, m, Some new_doc), (i, n, Some old_doc)]"
    using assms(8,9) by (simp add: updates_of_def List.map_filter_simps)
  have "cache_view rapi (server (redis_run env rapi [newer, older] rc)) i = Some (m, Some new_doc)"
    using redis_run_healthy [OF assms(1,3) plain assms(2)] assms(10-12)
    by (simp add: ups assms(4) versioned_put_def double_of_int_exact)
  moreover have "es_view_of api u (index (es_run env api u [newer, older] c)) i = Some old_doc"
    using assms(8,9)
    by (cases newer; cases older)
      (auto simp: es_run_view [OF assms(5,6)] es_put_view_def es_update_def delivery_update_def)
  ultimately show ?thesis by blast
qed

definition tagged_env :: cpp_env where
  "tagged_env = sample_env\<lparr>dump := (\<lambda>j. value_string sample_env j ''status'' ''?'')\<rparr>"

lemma tagged_update:
  "delivery_update tagged_env (sample_record ''7'' st n, ''7'', k) = Some (''7'', sint (word_of_int n :: i64), Some st)"
  by (simp add: delivery_update_def record_update_def sample_record_def classify_def contains_def at_key_def is_null_def
      unwrap_def is_object_def object_size_def order_id_of_def document_id_def text_of_def
      extract_lsn_def lsn_field_def is_number_def get_int64_def tagged_env_def sample_env_def Let_def)

theorem stores_diverge_witness:
  "let newer = (sample_record ''7'' ''SHIPPED'' 12, ''7'', 3); older = (sample_record ''7'' ''CREATED'' 4, ''7'', 1) in
     cache_view map_redis (server (redis_run tagged_env map_redis [newer, older] sample_client)) ''7'' = Some (12, Some ''SHIPPED'')
     \<and> es_view_of map_es ''http://es'' (index (es_run tagged_env map_es ''http://es'' [newer, older] sample_index)) ''7'' = Some ''CREATED''"
proof -
  let ?new = "(sample_record ''7'' ''SHIPPED'' 12, ''7'', 3)" and ?old = "(sample_record ''7'' ''CREATED'' 4, ''7'', 1)"
  have ups: "delivery_update tagged_env ?new = Some (''7'', 12, Some ''SHIPPED'')"
    "delivery_update tagged_env ?old = Some (''7'', 4, Some ''CREATED'')"
    by (simp_all add: tagged_update)
  have start: "guards_ok map_redis (server sample_client)" "cache_view map_redis (server sample_client) = (\<lambda>_. None)"
    by (simp_all add: sample_client_def)
  show ?thesis
    unfolding Let_def
    by (rule stores_diverge [OF map_redis_laws sample_healthy start map_es_ok plain_7 ups]) simp_all
qed

end
