(* ===== verification/Sinks.thy ===== *)
theory Sinks
  imports Record_Sink Notifier ES_Indexer
begin

text \<open>
  The three sinks satisfy the contract of \<open>record_sink\<close>: the interpretations, and what they give for
  whole runs of the consume loop of each sink.
\<close>

section \<open>RedisUpdater\<close>

definition cached :: "cpp_env \<Rightarrow> 'r redis_api \<Rightarrow> json \<Rightarrow> string \<Rightarrow> 'r redis_client \<Rightarrow> bool" where
  "cached env api record key c \<longleftrightarrow>
     (case record_update env record key of
        None \<Rightarrow> True
      | Some (i, n, d) \<Rightarrow>
          (case cache_view api (server c) i of
             None \<Rightarrow> False
           | Some (m, e) \<Rightarrow> double_of_int n \<le> double_of_int m))"

definition redis_inv :: "'r redis_api \<Rightarrow> 'r redis_client \<Rightarrow> bool" where
  "redis_inv api c \<longleftrightarrow> redis_laws api \<and> guards_ok api (server c)"

lemma versioned_put_cached:
  "\<exists>m e. versioned_put double_of_int (i, n, d) v i = Some (m, e) \<and> double_of_int n \<le> double_of_int m"
  by (auto simp: versioned_put_def split: option.splits prod.splits)

lemma redis_step_cases:
  assumes "redis_inv api c" "plain_record env record key" "redis_process env api record key offset c = (res, c')"
  shows "redis_inv api c' \<and>
    (cache_view api (server c') = cache_view api (server c) \<or>
     (\<exists>u. cache_view api (server c') = versioned_put double_of_int u (cache_view api (server c))))"
proof -
  have "redis_laws api" "guards_ok api (server c)" using assms(1) by (simp_all add: redis_inv_def)
  note r = redis_process_server [OF assms(3)] and laws = this
  from r show ?thesis
  proof (elim disjE exE conjE)
    assume "server c' = server c"
    with assms(1) show ?thesis by (simp add: redis_inv_def)
  next
    fix i d
    assume u: "record_update env record key = Some (i, sint (extract_lsn env record), d)"
      and s: "server c' = snd (apply_update env api i (extract_lsn env record) d (server c))"
    have "plain_id i" using assms(2) u by (simp add: plain_record_def)
    then have "redis_inv api c'"
        "cache_view api (server c') = versioned_put double_of_int (i, sint (extract_lsn env record), d) (cache_view api (server c))"
      using laws by (simp_all add: s redis_inv_def apply_update_refines apply_update_guards)
    then show ?thesis by blast
  qed
qed

interpretation redis_sink: record_sink
  "redis_process env api" "redis_inv api" "plain_record env" "cached env api"
  for env :: cpp_env and api :: "'r redis_api"
proof
  fix w w' :: "'r redis_client" and rcd key offset res
  assume "redis_inv api w" "plain_record env rcd key" "redis_process env api rcd key offset w = (res, w')"
  from redis_step_cases [OF this] show "redis_inv api w'" by blast
next
  fix w w' :: "'r redis_client" and rcd key offset
  assume a: "redis_inv api w" "plain_record env rcd key" "redis_process env api rcd key offset w = (Inr (), w')"
  show "cached env api rcd key w'"
  proof (cases "record_update env rcd key")
    case (Some u)
    obtain i n d where u: "u = (i, n, d)" by (cases u) auto
    with a Some have "plain_id i" by (simp add: plain_record_def)
    moreover have "server w' = snd (apply_update env api i (extract_lsn env rcd) d (server w))" "n = sint (extract_lsn env rcd)"
      using redis_process_done [OF a(3), of i n d] Some u by simp_all
    ultimately have "cache_view api (server w') = versioned_put double_of_int (i, n, d) (cache_view api (server w))"
      using a(1) by (simp add: redis_inv_def apply_update_refines)
    moreover obtain m e where "versioned_put double_of_int (i, n, d) (cache_view api (server w)) i = Some (m, e)"
        "double_of_int n \<le> double_of_int m"
      using versioned_put_cached by blast
    ultimately show ?thesis using Some u by (simp add: cached_def)
  qed (simp add: cached_def)
next
  fix w w' :: "'r redis_client" and rcd rcd' key key' offset res
  assume a: "redis_inv api w" "plain_record env rcd key" "cached env api rcd' key' w"
    "redis_process env api rcd key offset w = (res, w')"
  show "cached env api rcd' key' w'"
  proof (cases "record_update env rcd' key'")
    case (Some u)
    obtain i n d where u: "u = (i, n, d)" by (cases u) auto
    with a(3) Some obtain m e where m: "cache_view api (server w) i = Some (m, e)" "double_of_int n \<le> double_of_int m"
      by (auto simp: cached_def split: option.splits)
    have "\<exists>m' e'. cache_view api (server w') i = Some (m', e') \<and> m \<le> m'"
      using redis_step_cases [OF a(1,2,4)] double_put_mono [where m = "cache_view api (server w)", OF m(1)] m(1) by auto
    then obtain m' e' where "cache_view api (server w') i = Some (m', e')" "double_of_int m \<le> double_of_int m'"
      using double_of_int_mono by blast
    with m(2) Some u show ?thesis by (auto simp: cached_def)
  qed (simp add: cached_def)
qed

section \<open>Notifier\<close>

text \<open>The e-mail a record asks for is claimed: its key is set.\<close>

definition claimed :: "cpp_env \<Rightarrow> 'r redis_api \<Rightarrow> json \<Rightarrow> string \<Rightarrow> 'r redis_client \<Rightarrow> bool" where
  "claimed env api record key c \<longleftrightarrow>
     (case notification_for env record key of
        None \<Rightarrow> True
      | Some (cust, i, st) \<Rightarrow> redis_get api (dedup_key i st) (server c) \<noteq> None)"

definition any_record :: "json \<Rightarrow> string \<Rightarrow> bool" where
  "any_record record key \<longleftrightarrow> True"

lemma notification_status:
  "notification_for env record key = Some (cust, i, st) \<Longrightarrow> st = ''SHIPPED'' \<or> st = ''DELIVERED''"
  by (auto simp: notification_for_def Let_def split: change.splits sum.splits if_splits)

interpretation notifier_sink: record_sink
  "notifier_process env api" "\<lambda>_. redis_laws api" any_record "claimed env api"
  for env :: cpp_env and api :: "'r redis_api"
proof
  fix w w' :: "'r redis_client" and rcd key offset
  assume a: "redis_laws api" "notifier_process env api rcd key offset w = (Inr (), w')"
  from a(2) show "claimed env api rcd key w'"
  proof (cases rule: notifier_process_cases)
    case (asks cust i st)
    from a(1) asks(2) show ?thesis
      by (cases rule: notify_cases) (use asks(1) a(1) in \<open>auto simp: claimed_def get_set_ex\<close>)
  qed (simp add: claimed_def)
next
  fix w w' :: "'r redis_client" and rcd rcd' key key' offset res
  assume a: "redis_laws api" "claimed env api rcd' key' w" "notifier_process env api rcd key offset w = (res, w')"
  show "claimed env api rcd' key' w'"
  proof (cases "notification_for env rcd' key'")
    case (Some p)
    obtain cust i st where p: "p = (cust, i, st)" by (cases p) auto
    with a(2) Some have "redis_get api (dedup_key i st) (server w) \<noteq> None" by (simp add: claimed_def)
    moreover have "st = ''SHIPPED'' \<or> st = ''DELIVERED''" using Some p by (intro notification_status) simp
    ultimately have "redis_get api (dedup_key i st) (server w') \<noteq> None"
      using emails_frozen_process [OF a(1,3)] by blast
    with Some p show ?thesis by (simp add: claimed_def)
  qed (simp add: claimed_def)
qed

section \<open>ESIndexer\<close>

text \<open>Elasticsearch has acknowledged the document of the record.\<close>

definition acknowledged :: "cpp_env \<Rightarrow> json \<Rightarrow> string \<Rightarrow> 'e es_client \<Rightarrow> bool" where
  "acknowledged env record key c \<longleftrightarrow>
     (case es_update env record key of
        Some (i, Some d) \<Rightarrow> list_ex (\<lambda>(name, args). name = ''es_indexed'' \<and> take 1 args = [i]) (es_events c)
      | _ \<Rightarrow> True)"

lemma es_process_events:
  assumes "es_process env api u record key offset c = (res, c')"
  shows "\<exists>es. es_events c' = es_events c @ es"
  using assms
  by (auto simp: es_process_def es_put_def es_delete_def es_log_def Let_def
      split: change.splits sum.splits if_splits prod.splits)

lemma es_process_acknowledged:
  assumes "es_process env api u record key offset c = (Inr (), c')"
  shows "acknowledged env record key c'"
  using assms
  by (auto simp: acknowledged_def es_update_def record_update_def es_process_def es_put_def es_log_def Let_def
      split: change.splits sum.splits if_splits prod.splits option.splits)

interpretation es_sink: record_sink
  "es_process env api u" "\<lambda>_. True" any_record "acknowledged env"
  for env :: cpp_env and api :: "'e es_api" and u :: string
proof
  fix w w' :: "'e es_client" and rcd key offset
  assume "es_process env api u rcd key offset w = (Inr (), w')"
  then show "acknowledged env rcd key w'" by (rule es_process_acknowledged)
next
  fix w w' :: "'e es_client" and rcd rcd' key key' offset res
  assume a: "acknowledged env rcd' key' w" "es_process env api u rcd key offset w = (res, w')"
  from es_process_events [OF a(2)] a(1) show "acknowledged env rcd' key' w'"
    by (auto simp: acknowledged_def split: option.splits)
qed

section \<open>Whole runs\<close>

text \<open>What a run commits, and what became of the messages it committed.\<close>

definition no_silent_loss ::
    "(json \<Rightarrow> string \<Rightarrow> 'w \<Rightarrow> bool) \<Rightarrow> consumer_config \<Rightarrow> 'v avro_env \<Rightarrow> cpp_env \<Rightarrow> poll list
      \<Rightarrow> 'w consumer \<Rightarrow> 'w consumer \<Rightarrow> bool" where
  "no_silent_loss stored cfg av env polls b b' \<longleftrightarrow>
     (\<exists>tr msgs. trace b' = trace b @ tr \<and> commits tr = map m_offset msgs
        \<and> subseq msgs (List.map_filter poll_message polls)
        \<and> list_all (settled stored cfg av env tr (sink b')) msgs)"

text \<open>Concrete inputs for the witnesses: one event, one payload that does not parse.\<close>

definition sample_avro :: "unit avro_env" where
  "sample_avro =
     \<lparr>serdes_decode = (\<lambda>_. None), avro_to_json = (\<lambda>_. None),
      json_parse = (\<lambda>s. if s = ''evt'' then Some (sample_record ''7'' ''SHIPPED'' 12) else None)\<rparr>"

definition sample_message :: "int \<Rightarrow> string \<Rightarrow> message" where
  "sample_message k payload =
     \<lparr>m_topic = ''orders'', m_partition = 0, m_offset = k, m_key = ''7'', m_payload = payload\<rparr>"

definition sample_polls :: "poll list" where
  "sample_polls = [PollMessage (sample_message 0 ''evt''), PollTimedOut, PollMessage (sample_message 1 ''bad'')]"

definition sample_consumer :: "'w \<Rightarrow> 'w consumer" where
  "sample_consumer w =
     \<lparr>sink = w, stop_in = None, has_producer = True, produce_plan = [], now_ms = 0, trace = []\<rparr>"

lemma sample_dlq_up [simp]: "dlq_up (sample_consumer w)" "sink (sample_consumer w) = w"
  by (simp_all add: dlq_up_def sample_consumer_def)

lemma sample_fits: "list_all (message_fits (plain_record sample_env) sample_avro sample_env) (List.map_filter poll_message sample_polls)"
  by (simp add: sample_polls_def List.map_filter_simps poll_message_def message_fits_def sample_message_def
      deserialize_def wire_format_def sample_avro_def plain_record_def sample_update split: sum.splits)

text \<open>
  No silent loss into Redis. Over any run of \<open>RedisUpdater\<close>, with any connection and command
  failures, with or without a producer: every offset the run commits belongs to a
  message, in the order of the messages, whose update the cache holds at the end (or a version at
  least as new), or whose dead letter the producer took, or whose commit follows a log line that says the dead
  letter failed.
\<close>

theorem redis_no_silent_loss:
  assumes "redis_laws api" "guards_ok api (server (sink b))"
    and "list_all (message_fits (plain_record env) av env) (List.map_filter poll_message polls)"
    and "run cfg av env (redis_process env api) polls b = (out, b')"
  shows "no_silent_loss (cached env api) cfg av env polls b b'"
  using redis_sink.run_settles [OF assms(4) _ assms(3)] assms(1,2)
  unfolding no_silent_loss_def redis_inv_def by blast

theorem redis_no_silent_loss_witness:
  "let cfg = default_config ''RedisUpdater'' ''orders''; b = sample_consumer sample_client in
     no_silent_loss (cached sample_env map_redis) cfg sample_avro sample_env sample_polls b
       (snd (run cfg sample_avro sample_env (redis_process sample_env map_redis) sample_polls b))"
  unfolding Let_def
  by (rule redis_no_silent_loss [OF map_redis_laws _ sample_fits prod.collapse [symmetric]])
    (simp add: sample_client_def)

text \<open>
  No silent loss of e-mails' claims: every offset a run of \<open>Notifier\<close> commits belongs to a
  message whose e-mail is claimed, or whose dead letter was taken by the producer or failed with a log line.
\<close>

theorem notifier_no_silent_loss:
  assumes "redis_laws api"
    and "run cfg av env (notifier_process env api) polls b = (out, b')"
  shows "no_silent_loss (claimed env api) cfg av env polls b b'"
proof -
  have "list_all (message_fits any_record av env) (List.map_filter poll_message polls)"
    by (auto simp: list_all_iff message_fits_def any_record_def split: option.splits sum.splits)
  with notifier_sink.run_settles [OF assms(2,1)] show ?thesis unfolding no_silent_loss_def by blast
qed

theorem notifier_no_silent_loss_witness:
  "let cfg = default_config ''Notifier'' ''orders''; b = sample_consumer sample_client in
     no_silent_loss (claimed sample_env map_redis) cfg sample_avro sample_env sample_polls b
       (snd (run cfg sample_avro sample_env (notifier_process sample_env map_redis) sample_polls b))"
  unfolding Let_def
  by (rule notifier_no_silent_loss [OF map_redis_laws prod.collapse [symmetric]])

text \<open>
 No silent loss into Elasticsearch: every offset a run of \<open>ESIndexer\<close> commits belongs to a
  message whose document Elasticsearch has acknowledged, or whose dead letter was taken by the producer or
  failed with a log line; nothing is assumed of Elasticsearch's answers.
\<close>

theorem es_no_silent_loss:
  assumes "run cfg av env (es_process env api u) polls b = (out, b')"
  shows "no_silent_loss (acknowledged env) cfg av env polls b b'"
proof -
  have "list_all (message_fits any_record av env) (List.map_filter poll_message polls)"
    by (auto simp: list_all_iff message_fits_def any_record_def split: option.splits sum.splits)
  with es_sink.run_settles [OF assms] show ?thesis unfolding no_silent_loss_def by blast
qed

theorem es_no_silent_loss_witness:
  "let cfg = default_config ''ESIndexer'' ''orders''; b = sample_consumer sample_index in
     no_silent_loss (acknowledged sample_env) cfg sample_avro sample_env sample_polls b
       (snd (run cfg sample_avro sample_env (es_process sample_env map_es ''http://es'') sample_polls b))"
  unfolding Let_def
  by (rule es_no_silent_loss [OF prod.collapse [symmetric]])

end
