(* ===== verification/Consumer_Properties.thy ===== *)
theory Consumer_Properties
  imports Sinks
begin

text \<open>
  The properties of the consume loop for any sink: when it commits, in which order, how long it
  retries, when it stops, and the two ways a message is lost or blocks the partition.
\<close>

section \<open>The retry schedule\<close>

definition always_fails :: "'w processor \<Rightarrow> json \<Rightarrow> bool" where
  "always_fails process doc \<longleftrightarrow> (\<forall>key offset w. \<exists>e. fst (process doc key offset w) = Inl e)"

definition down :: "'w processor" where
  "down doc key offset w = (Inl ''store unreachable'', w)"

lemma down_fails: "always_fails down doc"
  by (simp add: always_fails_def down_def)

lemma retry_sleeps:
  assumes "always_fails process doc" "stop_in b = None"
    and "retry cfg process doc key offset k bo err b = (ok, err', b')"
  shows "\<not> ok \<and> stop_in b' = None \<and> (\<exists>tr. trace b' = trace b @ tr \<and> commits tr = [] \<and> \<not> delivered tr
    \<and> failures tr = nat (max_retries cfg + 1 - k)
    \<and> sleeps tr = backoffs bo (max_backoff_ms cfg) (nat (max_retries cfg - k)))"
  using assms(2-)
proof (induction "nat (max_retries cfg + 1 - k)" arbitrary: k bo err b)
  case 0
  then show ?case
    by (subst (asm) retry.simps) (auto intro!: exI [of _ "[]"])
next
  case (Suc n)
  then have k: "k \<le> max_retries cfg" by simp
  obtain e w where p: "process doc key offset (sink b) = (Inl e, w)"
    using assms(1) unfolding always_fails_def by (metis prod.collapse)
  let ?b2 = "emit (Logged (''record_processing_failed'', [show_int k, show_int offset, e]))
      (emit (Attempt False) (b\<lparr>sink := w\<rparr>))"
  have at: "attempt_once process doc key offset k b = (Inl e, ?b2)" using p by (simp add: attempt_once_def)
  have stop2: "stop_in ?b2 = None" using Suc.prems(1) by simp
  let ?pre = "[Attempt False, Logged (''record_processing_failed'', [show_int k, show_int offset, e])]"
  show ?case
  proof (cases "k < max_retries cfg")
    case True
    have rec: "retry cfg process doc key offset (k + 1) (min (bo * 2) (max_backoff_ms cfg)) e (emit (Slept bo) ?b2)
        = (ok, err', b')"
      using Suc.prems k True at stop2 by (subst (asm) retry.simps) simp
    have n: "nat (max_retries cfg - k) = Suc (nat (max_retries cfg - (k + 1)))" using True by simp
    have m: "n = nat (max_retries cfg + 1 - (k + 1))" using Suc.hyps(2) by simp
    obtain tr where
      tr: "\<not> ok" "stop_in b' = None" "trace b' = trace (emit (Slept bo) ?b2) @ tr" "commits tr = []" "\<not> delivered tr"
        "failures tr = nat (max_retries cfg + 1 - (k + 1))"
        "sleeps tr = backoffs (min (bo * 2) (max_backoff_ms cfg)) (max_backoff_ms cfg) (nat (max_retries cfg - (k + 1)))"
      using Suc.hyps(1) [OF m _ rec] stop2 by auto
    have "nat (max_retries cfg + 1 - k) = Suc (nat (max_retries cfg + 1 - (k + 1)))" using k by simp
    with tr n show ?thesis by (intro conjI exI [of _ "?pre @ Slept bo # tr"]) auto
  next
    case False
    then have "retry cfg process doc key offset (k + 1) bo e ?b2 = (ok, err', b')"
      using Suc.prems k at stop2 by (subst (asm) retry.simps) simp
    then have "ok = False" "b' = ?b2" using False by (subst (asm) retry.simps, simp)+
    with False k stop2 show ?thesis by (intro conjI exI [of _ ?pre]) auto
  qed
qed

section \<open>Properties\<close>

text \<open>
  C18. Commit discipline. Handling one message commits nothing, or exactly its own offset as its
  very last effect, and only after \<open>ProcessRecord\<close> returned normally, or after the producer took the dead letter
  of the message, or right after the log line that \<open>RouteToDLQ\<close> failed; when an exception leaves the loop
  nothing has been committed.
\<close>

theorem commit_discipline:
  assumes "handle_message cfg av env process msg b = (res, b')"
  shows "\<exists>tr. trace b' = trace b @ tr
    \<and> (commits tr = []
       \<or> committed_last (m_offset msg) tr \<and> res = Inr () \<and>
         (if delivered tr then deserialize av (m_payload msg) \<noteq> None \<and> produced tr = []
          else dead_lettered cfg env msg tr \<or> produced tr = [] \<and> dlq_failed msg tr))"
proof -
  from handle_message_effects [OF assms] obtain h tr where
    g: "grows b tr b'" and h: "handled cfg av env msg (has_producer b \<and> produce_plan b = []) h tr"
    and r: "case h of Thrown e \<Rightarrow> res = Inl e | _ \<Rightarrow> res = Inr ()" by blast
  from h r have "commits tr = [] \<or> committed_last (m_offset msg) tr \<and> res = Inr () \<and>
         (if delivered tr then deserialize av (m_payload msg) \<noteq> None \<and> produced tr = []
          else dead_lettered cfg env msg tr \<or> produced tr = [] \<and> dlq_failed msg tr)"
    by (cases h) (auto simp: handled_def split: if_splits)
  with g show ?thesis by (auto simp: grows_def)
qed

definition sample_cfg :: consumer_config where
  "sample_cfg = default_config ''RedisUpdater'' ''orders''"

theorem commit_discipline_witness:
  "\<exists>tr. trace (snd (handle_message sample_cfg sample_avro sample_env (redis_process sample_env map_redis)
        (sample_message 1 ''bad'') (sample_consumer sample_client))) = trace (sample_consumer sample_client) @ tr
    \<and> (commits tr = [] \<or> committed_last 1 tr \<and>
         (if delivered tr then produced tr = []
          else dead_lettered sample_cfg sample_env (sample_message 1 ''bad'') tr \<or> produced tr = [] \<and> dlq_failed (sample_message 1 ''bad'') tr))"
  using commit_discipline [OF prod.collapse [symmetric], of sample_cfg sample_avro sample_env
      "redis_process sample_env map_redis" "sample_message 1 ''bad''" "sample_consumer sample_client"]
  by (fastforce simp: sample_message_def split: if_splits)

text \<open>
  Commits follow the log. The offsets a run commits are a subsequence of the offsets of the
  messages it polled: none is committed twice, or before an earlier one it also commits, or
  without its message having been polled.
\<close>

theorem commits_in_order:
  assumes "run cfg av env process polls b = (out, b')"
  shows "\<exists>tr. trace b' = trace b @ tr \<and> subseq (commits tr) (poll_offsets polls)"
  using assms by (rule run_commits)

theorem commits_in_order_witness:
  "\<exists>tr. trace (snd (run sample_cfg sample_avro sample_env (redis_process sample_env map_redis) sample_polls
        (sample_consumer sample_client))) = trace (sample_consumer sample_client) @ tr
    \<and> subseq (commits tr) [0, 1]"
  using commits_in_order [OF prod.collapse [symmetric], of sample_cfg sample_avro sample_env
      "redis_process sample_env map_redis" sample_polls "sample_consumer sample_client"]
  by (simp add: sample_polls_def sample_message_def)

text \<open>
  C19. Shutdown. Once \<open>Stop()\<close> takes effect within as many reads of the flag as there are poll
  results left, \<open>Run\<close> is not still waiting at the end: it has stopped, or an exception has left it.
\<close>

theorem stop_ends_run:
  assumes "stop_in b = Some n" "n \<le> length polls"
  shows "fst (run cfg av env process polls b) \<noteq> Waiting"
  using assms by (rule run_stops)

theorem stop_ends_run_witness:
  "fst (run sample_cfg sample_avro sample_env (redis_process sample_env map_redis) [PollNone, PollTimedOut]
      ((sample_consumer sample_client)\<lparr>stop_in := Some 1\<rparr>)) \<noteq> Waiting"
  by (rule stop_ends_run [of _ 1]) simp_all

text \<open>
  C20. How long an outage is survived. With the default configuration and a sink that always
  throws, a message is attempted five times with pauses of 100, 200, 400 and 800 milliseconds, and
  then leaves for the dead letter queue, whose producer takes it here, and is committed: an outage of the store longer than 1.5
  seconds (and the five attempts) is not waited out.
\<close>

theorem outage_budget:
  assumes "always_fails process doc" "stop_in b = None" "dlq_up b"
    and "message_key av env msg = Inr key" "deserialize av (m_payload msg) = Some doc"
    and "\<And>reason. \<exists>body. dump env (dlq_envelope (default_config name topic) msg reason doc (now_ms b)) = Inr body"
    and "handle_message (default_config name topic) av env process msg b = (res, b')"
  shows "res = Inr () \<and> (\<exists>tr. trace b' = trace b @ tr \<and> failures tr = 5 \<and> sleeps tr = [100, 200, 400, 800] \<and> \<not> delivered tr
    \<and> commits tr = [m_offset msg] \<and> dead_lettered (default_config name topic) env msg tr)"
proof -
  let ?cfg = "default_config name topic"
  have cfg: "max_retries ?cfg = 5" "initial_backoff_ms ?cfg = 100" "max_backoff_ms ?cfg = 3000"
    by (simp_all add: default_config_def make_config_def)
  obtain ok err b1 where rt: "retry ?cfg process doc key (m_offset msg) 1 (initial_backoff_ms ?cfg) [] b = (ok, err, b1)"
    by (metis prod_cases3)
  have "backoffs 100 3000 4 = [100, 200, 400, 800]" by (simp add: numeral_eq_Suc)
  with retry_sleeps [OF assms(1,2) rt] obtain tr where tr: "\<not> ok" "stop_in b1 = None" "trace b1 = trace b @ tr"
      "commits tr = []" "\<not> delivered tr" "failures tr = 5" "sleeps tr = [100, 200, 400, 800]"
    unfolding cfg by auto
  let ?e = "Logged (''retries_exhausted_routing_dlq'', [show_int (m_offset msg), err])"
  obtain r b2 where rq: "route_to_dlq ?cfg env msg err doc (emit ?e b1) = (r, b2)" by fastforce
  from retry_effects [OF rt] have same: "produce_plan b1 = produce_plan b" "has_producer b1 = has_producer b"
    "now_ms b1 = now_ms b" by (auto simp: grows_def)
  with assms(3) have up: "dlq_up (emit ?e b1)" by (simp add: dlq_up_def)
  have hm: "handle_message ?cfg av env process msg b =
      (case r of Inl e \<Rightarrow> (Inl e, b2) | Inr _ \<Rightarrow> (Inr (), emit (Committed (m_offset msg)) b2))"
    using assms(4,5) rt tr(1,2) rq by (simp add: handle_message_def split: sum.splits)
  obtain f where f: "r = Inr f"
    using rq
  proof (cases rule: route_to_dlq_cases)
    case (thrown e)
    with assms(6) [of err] same(3) show ?thesis by simp
  qed (use that in auto)
  with hm assms(7) have r: "r = Inr f" "res = Inr ()" "b' = emit (Committed (m_offset msg)) b2" by auto
  from route_to_dlq_up [OF rq up] r obtain tr2 where
    t2: "trace b2 = trace b @ tr @ [?e] @ tr2" "commits tr2 = []" "dead_lettered ?cfg env msg tr2"
    using tr(3) by auto
  have quiet: "failures tr2 = 0 \<and> sleeps tr2 = [] \<and> \<not> delivered tr2"
  proof -
    have "route_to_dlq ?cfg env msg err doc (emit ?e b1) = (Inr f, b2)" using rq r(1) by simp
    then show ?thesis
      by (cases rule: route_to_dlq_cases) (use t2(1) tr(3) in \<open>auto simp: grows_def\<close>)
  qed
  have "dead_lettered ?cfg env msg (tr @ [?e] @ tr2 @ [Committed (m_offset msg)])"
    using t2(3) by (intro dead_lettered_append)
  with r(2,3) t2 tr quiet show ?thesis
    by (intro conjI exI [of _ "tr @ [?e] @ tr2 @ [Committed (m_offset msg)]"]) auto
qed

theorem outage_budget_witness:
  "\<exists>b'. handle_message (default_config ''RedisUpdater'' ''orders'') sample_avro sample_env down
      (sample_message 0 ''evt'') (sample_consumer sample_client) = (Inr (), b')
    \<and> (\<exists>tr. trace b' = trace (sample_consumer sample_client) @ tr \<and> failures tr = 5 \<and> sleeps tr = [100, 200, 400, 800])"
proof -
  let ?cfg = "default_config ''RedisUpdater'' ''orders''"
  let ?m = "sample_message 0 ''evt''" and ?b = "sample_consumer sample_client"
  obtain res b' where hm: "handle_message ?cfg sample_avro sample_env down ?m ?b = (res, b')" by fastforce
  have msg: "message_key sample_avro sample_env ?m = Inr ''7''"
    "deserialize sample_avro (m_payload ?m) = Some (sample_record ''7'' ''SHIPPED'' 12)"
    by (simp_all add: message_key_def decoded_key_def wire_format_def deserialize_def sample_message_def sample_avro_def)
  have stop: "stop_in ?b = None" by (simp add: sample_consumer_def)
  have dumps: "\<exists>body. dump sample_env (dlq_envelope cfg m reason doc now) = Inr body" for cfg m reason doc now
    by (simp add: sample_env_def dlq_envelope_def)
  from outage_budget [OF down_fails stop sample_dlq_up(1) msg dumps hm] hm show ?thesis by auto
qed

text \<open>\<open>RouteToDLQ\<close> fails, and a message no sink accepts.\<close>

definition dlq_down :: "'w consumer \<Rightarrow> bool" where
  "dlq_down b \<longleftrightarrow> \<not> has_producer b \<or> (\<exists>err es. produce_plan b = Some err # es)"

definition never_accepted :: "'v avro_env \<Rightarrow> 'w processor \<Rightarrow> message \<Rightarrow> bool" where
  "never_accepted av process msg \<longleftrightarrow>
     (case deserialize av (m_payload msg) of None \<Rightarrow> True | Some doc \<Rightarrow> always_fails process doc)"

lemma route_to_dlq_down:
  assumes "dlq_down b" "has_producer b \<Longrightarrow> \<exists>body. dump env (dlq_envelope cfg msg reason doc (now_ms b)) = Inr body"
  obtains ev as b' where "route_to_dlq cfg env msg reason doc b = (Inr False, b')" "trace b' = trace b @ [Logged (ev, as)]"
    "ev \<in> {''dlq_produce_failed'', ''dlq_producer_unavailable''}"
proof (cases "has_producer b")
  case False
  then show thesis by (intro that [of _ "''dlq_producer_unavailable''"]) (auto simp: route_to_dlq_def)
next
  case True
  with assms show thesis
    by (auto simp: dlq_down_def route_to_dlq_def next_produce_def intro!: that)
qed

text \<open>
  C21. A dead letter can be lost. The result of \<open>RouteToDLQ\<close> is ignored: without a producer, or with one that
  refuses the message, a message whose payload does not parse, and a record the sink refuses until its retries are
  exhausted, is committed although it was neither accepted by the sink nor taken by a producer. No stop comes in
  between, the key of the message can be read, and the letter, where there is a producer, can be printed.
\<close>

theorem dead_letter_lost:
  assumes "dlq_down b" "stop_in b = None" "message_key av env msg = Inr key" "never_accepted av process msg"
    and "\<And>reason doc. has_producer b \<Longrightarrow> \<exists>body. dump env (dlq_envelope cfg msg reason doc (now_ms b)) = Inr body"
    and "handle_message cfg av env process msg b = (res, b')"
  shows "res = Inr () \<and> (\<exists>tr. trace b' = trace b @ tr \<and> commits tr = [m_offset msg] \<and> \<not> delivered tr \<and> produced tr = []
    \<and> dlq_failed msg tr \<and> failures tr = (if deserialize av (m_payload msg) = None then 0 else nat (max_retries cfg)))"
proof (cases "deserialize av (m_payload msg)")
  case None
  let ?e = "Logged (''unparseable_payload_routing_dlq'', [show_int (m_offset msg)])"
  have "dlq_down (emit ?e b)" using assms(1) by (simp add: dlq_down_def)
  then obtain ev as b2 where rt: "route_to_dlq cfg env msg ''Payload deserialization failed'' JNull (emit ?e b) = (Inr False, b2)"
      "trace b2 = trace (emit ?e b) @ [Logged (ev, as)]" "ev \<in> {''dlq_produce_failed'', ''dlq_producer_unavailable''}"
    by (rule route_to_dlq_down) (use assms(5) in auto)
  with assms(3,6) None have "res = Inr ()" "trace b' = trace b @ [?e] @ [Logged (ev, as), Committed (m_offset msg)]"
    by (auto simp: handle_message_def)
  with dlq_failed_last [OF rt(3), of msg "[?e]" as] None show ?thesis by auto
next
  case (Some doc)
  with assms(4) have fails: "always_fails process doc" by (simp add: never_accepted_def)
  obtain ok err b1 where rt: "retry cfg process doc key (m_offset msg) 1 (initial_backoff_ms cfg) [] b = (ok, err, b1)"
    by (metis prod_cases3)
  from retry_sleeps [OF fails assms(2) rt] obtain tr where tr: "\<not> ok" "stop_in b1 = None" "trace b1 = trace b @ tr"
      "commits tr = []" "\<not> delivered tr" "failures tr = nat (max_retries cfg)" by auto
  from retry_effects [OF rt] obtain tr' where same: "produce_plan b1 = produce_plan b" "has_producer b1 = has_producer b"
    "now_ms b1 = now_ms b" "trace b1 = trace b @ tr'" "produced tr' = []" by (auto simp: grows_def retry_trace_def)
  with tr(3) have quiet: "produced tr = []" by simp
  let ?e = "Logged (''retries_exhausted_routing_dlq'', [show_int (m_offset msg), err])"
  have "dlq_down (emit ?e b1)" using assms(1) same by (simp add: dlq_down_def)
  then obtain ev as b2 where rq: "route_to_dlq cfg env msg err doc (emit ?e b1) = (Inr False, b2)"
      "trace b2 = trace (emit ?e b1) @ [Logged (ev, as)]" "ev \<in> {''dlq_produce_failed'', ''dlq_producer_unavailable''}"
    by (rule route_to_dlq_down) (use assms(5) same in auto)
  with assms(3,6) Some rt tr(1,2) have "res = Inr ()"
      "trace b' = trace b @ (tr @ [?e]) @ [Logged (ev, as), Committed (m_offset msg)]"
    by (auto simp: handle_message_def tr(3))
  with dlq_failed_last [OF rq(3), of msg "tr @ [?e]" as] Some tr quiet show ?thesis
    by (intro conjI exI [of _ "(tr @ [?e]) @ [Logged (ev, as), Committed (m_offset msg)]"]) auto
qed

definition sample_offline :: "(string \<Rightarrow> string option) redis_client consumer" where
  "sample_offline = (sample_consumer sample_client)\<lparr>has_producer := False\<rparr>"

theorem dead_letter_lost_witness:
  "\<exists>tr. trace (snd (handle_message sample_cfg sample_avro sample_env down (sample_message 0 ''evt'') sample_offline)) = tr
    \<and> commits tr = [0] \<and> failures tr = 5 \<and> produced tr = [] \<and> \<not> delivered tr"
proof -
  have "dlq_down sample_offline" "stop_in sample_offline = None" "trace sample_offline = []" "\<not> has_producer sample_offline"
    "message_key sample_avro sample_env (sample_message 0 ''evt'') = Inr ''7''"
    "deserialize sample_avro (m_payload (sample_message 0 ''evt'')) = Some (sample_record ''7'' ''SHIPPED'' 12)"
    "never_accepted sample_avro down (sample_message 0 ''evt'')"
    by (simp_all add: dlq_down_def sample_offline_def sample_consumer_def message_key_def decoded_key_def wire_format_def deserialize_def
        sample_message_def sample_avro_def never_accepted_def down_fails)
  note f = this
  from dead_letter_lost [OF f(1,2,5,7) _ prod.collapse [symmetric], of sample_cfg] f(3,4,6) show ?thesis
    by (auto simp: sample_cfg_def default_config_def make_config_def sample_message_def)
qed


definition strict_env :: cpp_env where
  "strict_env = sample_env\<lparr>dump := (\<lambda>j. Inl ''invalid UTF-8 byte'')\<rparr>"


text \<open>
  C23. Tombstones are dead-lettered. Debezium follows every delete by a message without a payload (the
  connector does not switch this off). It never reaches the sink: every consumer whose producer works sends it to
  its dead letter topic as unparseable and commits it, although the delete itself was applied.
\<close>

theorem tombstone_dead_lettered:
  assumes "m_payload msg = []" "message_key av env msg = Inr key" "dlq_up b"
    and "dump env (dlq_envelope cfg msg ''Payload deserialization failed'' JNull (now_ms b)) = Inr body"
  shows "\<exists>b'. handle_message cfg av env process msg b = (Inr (), b') \<and> sink b' = sink b
    \<and> produced (trace b') = produced (trace b) @ [(m_key msg, body)]
    \<and> commits (trace b') = commits (trace b) @ [m_offset msg]"
  using assms by (simp add: handle_message_def route_to_dlq_def next_produce_def dlq_up_def)

theorem tombstone_dead_lettered_witness:
  "\<exists>b'. handle_message sample_cfg sample_avro sample_env (redis_process sample_env map_redis)
      (sample_message 1 []) (sample_consumer sample_client) = (Inr (), b')
    \<and> produced (trace b') = [(''7'', ''{}'')] \<and> commits (trace b') = [1]"
proof -
  have "m_payload (sample_message 1 []) = []" "message_key sample_avro sample_env (sample_message 1 []) = Inr ''7''"
    by (simp_all add: sample_message_def message_key_def decoded_key_def wire_format_def)
  moreover have "dump sample_env (dlq_envelope sample_cfg (sample_message 1 []) ''Payload deserialization failed'' JNull
       (now_ms (sample_consumer sample_client))) = Inr ''{}''"
    by (simp add: sample_env_def dlq_envelope_def)
  ultimately show ?thesis
    using tombstone_dead_lettered [OF _ _ sample_dlq_up(1), of "sample_message 1 []" sample_avro sample_env "''7''" sample_cfg
        sample_client "''{}''" "redis_process sample_env map_redis"]
    by (auto simp: sample_message_def sample_consumer_def)
qed

end
