(* ===== verification/Key_Expiry.thy ===== *)
theory Key_Expiry
  imports Notifier
begin

text \<open>
  What the expiry of the keys does: all that \<open>RedisUpdater\<close> and \<open>Notifier\<close> write to Redis lives 86400
  seconds (\<open>EX 86400\<close> in \<open>redis_updater.cpp\<close> and \<open>notifier.cpp\<close>). Redis with a clock satisfies the laws
  the other theories assume at every instant; from one instant to a later one keys disappear. How far apart
  e-mails for one order and status are then, and what becomes of the guard against stale versions.
\<close>

section \<open>Redis at an instant\<close>

text \<open>
  A key has a value and the second from which it is gone. (The server refuses a time to live of 0, which the
  code never sends; here it counts as 1.)
\<close>

type_synonym timed_store = "string \<Rightarrow> (string \<times> nat) option"

definition live :: "nat \<Rightarrow> string \<Rightarrow> timed_store \<Rightarrow> string option" where
  "live now k r = (case r k of Some (v, gone) \<Rightarrow> if now < gone then Some v else None | None \<Rightarrow> None)"

definition put_key :: "nat \<Rightarrow> string \<Rightarrow> string \<Rightarrow> nat \<Rightarrow> timed_store \<Rightarrow> timed_store" where
  "put_key now k v ttl r = r(k \<mapsto> (v, now + max 1 ttl))"

definition redis_at :: "nat \<Rightarrow> timed_store redis_api" where
  "redis_at now =
     \<lparr>redis_get = live now, redis_set_ex = put_key now,
      redis_set_nx_ex = (\<lambda>k v ttl r. if live now k r = None then (True, put_key now k v ttl r) else (False, r)),
      redis_del = (\<lambda>k r. r(k := None))\<rparr>"

lemma redis_at_parts [simp]:
  "redis_get (redis_at now) = live now" "redis_set_ex (redis_at now) = put_key now"
  "redis_del (redis_at now) = (\<lambda>k r. r(k := None))"
  by (simp_all add: redis_at_def)

lemma redis_at_laws [simp]: "redis_laws (redis_at now)"
  by (auto simp: redis_laws_def redis_at_def live_def put_key_def split: option.splits)

text \<open>What is live later was live before.\<close>

lemma live_earlier: "live t' k r = Some v \<Longrightarrow> t \<le> t' \<Longrightarrow> live t k r = Some v"
  by (auto simp: live_def split: option.splits if_splits)

lemma guards_ok_later: "guards_ok (redis_at t) r \<Longrightarrow> t \<le> t' \<Longrightarrow> guards_ok (redis_at t') r"
  unfolding guards_ok_def redis_at_parts by (blast dest: live_earlier)

section \<open>E-mails over time\<close>

text \<open>Deliveries with the second each happens in; \<open>timed_mails\<close> is when e-mails go out for an order and a status.\<close>

type_synonym timed_delivery = "nat \<times> delivery"

fun timed_mails :: "cpp_env \<Rightarrow> string \<Rightarrow> string \<Rightarrow> timed_delivery list \<Rightarrow> timed_store redis_client \<Rightarrow> nat list" where
  "timed_mails env i st [] c = []"
| "timed_mails env i st ((t, d) # ds) c =
     (let c' = notifier_deliver env (redis_at t) d c in
      (if emails i st c < emails i st c' then [t] else []) @ timed_mails env i st ds c')"

text \<open>One delivery leaves the key as it was and sends nothing, or sets it, having found it gone.\<close>

lemma notifier_at:
  assumes "st = ''SHIPPED'' \<or> st = ''DELIVERED''" "c' = notifier_deliver env (redis_at t) d c"
  shows "server c' (dedup_key i st) = server c (dedup_key i st) \<and> emails i st c' = emails i st c
    \<or> live t (dedup_key i st) (server c) = None \<and> server c' (dedup_key i st) = Some (''1'', t + 86400)"
proof -
  obtain rcd key offset where d: "d = (rcd, key, offset)" by (cases d) auto
  obtain res c1 where p: "notifier_process env (redis_at t) rcd key offset c = (res, c1)" by fastforce
  have c': "c' = c1" using assms(2) by (simp add: d notifier_deliver_def p)
  from p show ?thesis
  proof (cases rule: notifier_process_cases)
    case quiet
    then show ?thesis by (simp add: c')
  next
    case (asks cust j s)
    have key: "dedup_key j s = dedup_key i st \<longleftrightarrow> j = i \<and> s = st"
      using dedup_key_inj [OF _ asks(3) assms(1)] by blast
    have "redis_laws (redis_at t)" by simp
    from this asks(2) show ?thesis
      by (cases rule: notify_cases) (use key in \<open>auto simp: c' put_key_def dedup_ttl_def\<close>)
  qed
qed

lemma mails_after_key:
  "st = ''SHIPPED'' \<or> st = ''DELIVERED'' \<Longrightarrow> sorted (map fst ds) \<Longrightarrow>
   server c (dedup_key i st) = Some (v, gone) \<Longrightarrow> \<forall>t \<in> set (timed_mails env i st ds c). gone \<le> t"
proof (induction ds arbitrary: c v gone)
  case (Cons x ds)
  obtain t d where x: "x = (t, d)" by (cases x)
  let ?c = "notifier_deliver env (redis_at t) d c"
  have sorted: "sorted (map fst ds)" using Cons.prems(2) by simp
  note IH = Cons.IH [OF Cons.prems(1) sorted]
  from notifier_at [OF Cons.prems(1) refl] show ?case
  proof
    assume "server ?c (dedup_key i st) = server c (dedup_key i st) \<and> emails i st ?c = emails i st c"
    with IH [of ?c v gone] Cons.prems(3) show ?thesis by (simp add: x Let_def)
  next
    assume set: "live t (dedup_key i st) (server c) = None \<and> server ?c (dedup_key i st) = Some (''1'', t + 86400)"
    then have "gone \<le> t" using Cons.prems(3) by (auto simp: live_def split: if_splits)
    with IH [of ?c "''1''" "t + 86400"] set show ?thesis by (force simp: x Let_def)
  qed
qed simp

lemma mails_spaced:
  "st = ''SHIPPED'' \<or> st = ''DELIVERED'' \<Longrightarrow> sorted (map fst ds) \<Longrightarrow>
   sorted_wrt (\<lambda>t t'. t + 86400 \<le> t') (timed_mails env i st ds c)"
proof (induction ds arbitrary: c)
  case (Cons x ds)
  obtain t d where x: "x = (t, d)" by (cases x)
  let ?c = "notifier_deliver env (redis_at t) d c"
  have sorted: "sorted (map fst ds)" using Cons.prems(2) by simp
  note IH = Cons.IH [OF Cons.prems(1) sorted, of ?c]
  from notifier_at [OF Cons.prems(1) refl, of env t d c i] show ?case
  proof
    assume "live t (dedup_key i st) (server c) = None \<and> server ?c (dedup_key i st) = Some (''1'', t + 86400)"
    with mails_after_key [OF Cons.prems(1) sorted, of ?c i "''1''" "t + 86400" env] IH show ?thesis by (simp add: x Let_def)
  qed (use IH in \<open>simp add: x Let_def\<close>)
qed simp

lemma no_other_mails:
  "st \<noteq> ''SHIPPED'' \<Longrightarrow> st \<noteq> ''DELIVERED'' \<Longrightarrow> timed_mails env i st ds c = []"
proof (induction ds arbitrary: c)
  case (Cons x ds)
  obtain t rcd key offset where x: "x = (t, rcd, key, offset)" by (cases x) auto
  have "emails i st (notifier_deliver env (redis_at t) (rcd, key, offset) c) = emails i st c"
    using emails_other [OF redis_at_laws prod.collapse [symmetric] Cons.prems] by (simp add: notifier_deliver_def)
  with Cons show ?case by (simp add: x Let_def)
qed simp

section \<open>The cache over time\<close>

lemma delivered_new:
  assumes "healthy c" "delivery_update env d = Some (i, n, Some doc)" "plain_id i"
    and "guards_ok (redis_at t) (server c)" "cache_view (redis_at t) (server c) i = None"
  shows "server (redis_deliver env (redis_at t) d c) =
    put_key t (order_key i @ '':lsn'') (show_int n) 86400 (put_key t (order_key i) doc 86400 (server c))"
proof -
  obtain rcd key off where d: "d = (rcd, key, off)" by (cases d) auto
  obtain res c' where p: "redis_process env (redis_at t) rcd key off c = (res, c')" by fastforce
  have u: "record_update env rcd key = Some (i, n, Some doc)" using assms(2) by (simp add: d delivery_update_def)
  note h = redis_process_healthy [OF assms(1) p u]
  have "\<not> lua_is_stale env (redis_at t) (order_key i) (to_string (extract_lsn env rcd)) (server c)"
    using stale_cache_view [OF assms(4,3)] assms(5) by simp
  with h show ?thesis by (simp add: d redis_deliver_def p apply_update_def lua_upsert_def cache_ttl_def to_string_def)
qed

lemma cached_later:
  assumes "r' = put_key t (order_key i @ '':lsn'') (show_int n) 86400 (put_key t (order_key i) doc 86400 r)" "plain_id i"
    and "decimal_int (show_int n) = Some n"
  shows "cache_view (redis_at t') r' i = (if t' < t + 86400 then Some (n, Some doc) else None)"
  using assms by (simp add: cache_view_def live_def put_key_def)

section \<open>Properties\<close>

text \<open>A client of an empty store for the witnesses.\<close>

definition timed_client :: "timed_store redis_client" where
  "timed_client = \<lparr>redis_ctx = CtxOk, server = Map.empty, conn_plan = [], cmd_plan = [], events = []\<rparr>"

lemma timed_start:
  "healthy timed_client" "live t k (server timed_client) = None" "guards_ok (redis_at t) (server timed_client)"
  "cache_view (redis_at t) (server timed_client) i = None"
  by (simp_all add: healthy_def timed_client_def live_def guards_ok_def cache_view_def)

text \<open>
  C7. The window of the deduplication. Over any deliveries and failures, two e-mails for the same order
  and status are at least 86400 seconds apart. And no more than that holds: on a healthy server a record
  that asks for an e-mail and is delivered twice has it sent twice exactly when the second delivery comes 86400
  seconds or more after the first.
\<close>

theorem email_window:
  assumes "sorted (map fst ds)" "healthy c" "notification_for env rcd key = Some (cust, i, st)" "t \<le> t'"
    and "live t (dedup_key i st) (server c) = None"
  shows "sorted_wrt (\<lambda>t t'. t + 86400 \<le> t') (timed_mails env j s ds b)
    \<and> timed_mails env i st [(t, rcd, key, k), (t', rcd, key, k')] c = (if t' < t + 86400 then [t] else [t, t'])"
proof
  show "sorted_wrt (\<lambda>t t'. t + 86400 \<le> t') (timed_mails env j s ds b)"
    using mails_spaced [OF _ assms(1)] no_other_mails [of s] by (cases "s = ''SHIPPED'' \<or> s = ''DELIVERED''") auto
  have st: "st = ''SHIPPED'' \<or> st = ''DELIVERED''"
    using assms(3) by (auto simp: notification_for_def Let_def split: change.splits sum.splits if_splits)
  have one: "healthy (snd (notifier_process env (redis_at n) rcd key off b))
    \<and> (emails i st b < emails i st (snd (notifier_process env (redis_at n) rcd key off b)) \<longleftrightarrow> live n (dedup_key i st) (server b) = None)
    \<and> (live n (dedup_key i st) (server b) = None \<longrightarrow>
        server (snd (notifier_process env (redis_at n) rcd key off b)) (dedup_key i st) = Some (''1'', n + 86400))"
    if b: "healthy b" for n off and b :: "timed_store redis_client"
  proof -
    obtain res b' where p: "notifier_process env (redis_at n) rcd key off b = (res, b')" by fastforce
    then have nt: "notify (redis_at n) cust i st off b = (res, b')"
      by (cases rule: notifier_process_cases) (use assms(3) in auto)
    note h = notify_healthy [OF redis_at_laws b nt, of i st]
    have "server b' (dedup_key i st) = Some (''1'', n + 86400)" if "live n (dedup_key i st) (server b) = None"
      using notifier_at [OF st, of b' env n "(rcd, key, off)" b i] h that by (simp add: notifier_deliver_def p)
    with h show ?thesis by (simp add: p)
  qed
  show "timed_mails env i st [(t, rcd, key, k), (t', rcd, key, k')] c = (if t' < t + 86400 then [t] else [t, t'])"
    using one [OF assms(2), of t k] one [of "snd (notifier_process env (redis_at t) rcd key k c)" t' k'] assms(5)
    by (auto simp: notifier_deliver_def Let_def live_def)
qed

theorem email_window_witness:
  "timed_mails sample_env ''7'' ''SHIPPED'' [(0, shipped_record, ''7'', 0), (86399, shipped_record, ''7'', 0)] timed_client = [0]
    \<and> timed_mails sample_env ''7'' ''SHIPPED'' [(0, shipped_record, ''7'', 0), (86400, shipped_record, ''7'', 0)] timed_client
      = [0, 86400]"
proof -
  have s: "sorted (map fst ([] :: timed_delivery list))" by simp
  show ?thesis
    using email_window [OF s timed_start(1) shipped_asks [of "''7''"] _ timed_start(2), of 0 86399]
      email_window [OF s timed_start(1) shipped_asks [of "''7''"] _ timed_start(2), of 0 86400]
    by (simp del: timed_mails.simps)
qed

text \<open>
  C10. The cache forgets its guard. A document \<open>RedisUpdater\<close> has written is in the cache for 86400 seconds
  and then gone, although the order is still in the table. While it is there, an older version delivered again
  is ignored; once it is gone, the older version is accepted and served.
\<close>

theorem guard_forgets:
  assumes "healthy c" "guards_ok (redis_at t) (server c)" "cache_view (redis_at t) (server c) i = None" "plain_id i"
    and "delivery_update env new = Some (i, n, Some doc)" "delivery_update env old = Some (i, n0, d0)"
    and "double_of_int n0 \<le> double_of_int n" "t \<le> t'"
  shows "let c1 = redis_deliver env (redis_at t) new c; c2 = redis_deliver env (redis_at t') old c1 in
    cache_view (redis_at t') (server c1) i = (if t' < t + 86400 then Some (n, Some doc) else None)
    \<and> cache_view (redis_at t') (server c2) i = (if t' < t + 86400 then Some (n, Some doc) else Some (n0, d0))"
proof -
  let ?c1 = "redis_deliver env (redis_at t) new c"
  have plain: "plain_deliveries env [new]" "plain_deliveries env [old]"
    using assms(4-6) by (simp_all add: plain_deliveries_def)
  note first = redis_deliver_healthy [OF redis_at_laws assms(2) plain(1) assms(1,5)]
  have "cache_view (redis_at t) (server ?c1) i = Some (n, Some doc)"
    using first assms(3) by (simp add: versioned_put_same)
  then have "decimal_int (show_int n) = Some n"
    using delivered_new [OF assms(1,5,4,2,3)] assms(4) by (auto simp: cache_view_def live_def put_key_def split: option.splits)
  with cached_later [OF delivered_new [OF assms(1,5,4,2,3)] assms(4)]
  have later: "cache_view (redis_at t') (server ?c1) i = (if t' < t + 86400 then Some (n, Some doc) else None)" .
  have "guards_ok (redis_at t') (server ?c1)" using first guards_ok_later assms(8) by blast
  from redis_deliver_healthy [OF redis_at_laws this plain(2) _ assms(6)] first
  have "cache_view (redis_at t') (server (redis_deliver env (redis_at t') old ?c1)) i
      = versioned_put double_of_int (i, n0, d0) (cache_view (redis_at t') (server ?c1)) i" by simp
  with later assms(7) show ?thesis by (simp add: Let_def versioned_put_same)
qed

theorem guard_forgets_witness:
  "let new = (sample_record ''7'' ''SHIPPED'' 12, ''7'', 3); old = (sample_record ''7'' ''CREATED'' 4, ''7'', 1);
       after = (\<lambda>t'. redis_deliver sample_env (redis_at t') old (redis_deliver sample_env (redis_at 0) new timed_client)) in
   cache_view (redis_at 60) (server (after 60)) ''7'' = Some (12, Some ''{}'')
     \<and> cache_view (redis_at 86400) (server (after 86400)) ''7'' = Some (4, Some ''{}'')"
proof -
  have u: "delivery_update sample_env (sample_record ''7'' ''SHIPPED'' 12, ''7'', 3) = Some (''7'', 12, Some ''{}'')"
    "delivery_update sample_env (sample_record ''7'' ''CREATED'' 4, ''7'', 1) = Some (''7'', 4, Some ''{}'')"
    by (simp_all add: delivery_update_def sample_update)
  have le: "double_of_int 4 \<le> double_of_int 12" by (simp add: double_of_int_exact)
  have plain: "plain_id ''7''" by simp
  show ?thesis
    using guard_forgets [OF timed_start(1,3,4) plain u le, of 0 60] guard_forgets [OF timed_start(1,3,4) plain u le, of 0 86400]
    by (simp add: Let_def)
qed

end
