(* ===== verification/Consumer_Group.thy ===== *)
theory Consumer_Group
  imports Record_Sink
begin

text \<open>
  One consumer group over a partition, across stops, exceptions and restarts: which offsets Kafka hands
  out, what a commit saves, and the order in which records reach the sink. \<open>Run\<close>
  (\<open>consumers/src/kafka_consumer_base.cpp\<close>) is taken message by message, so that the steps of several
  groups can interleave.
\<close>

section \<open>Steps\<close>

text \<open>
  The next offset \<open>consume\<close> returns, the offset the broker has saved for the group (restarts resume
  there), and the running instance.
\<close>

record 'w group =
  next_offset :: nat
  saved_offset :: nat
  inst :: "'w consumer"

text \<open>
  \<open>handled\<close>: the loop reads \<open>running_\<close>, polls the next message and handles it; \<open>commitSync\<close> may fail, which
  the code does not look at, so the saved offset moves or stays. \<open>thrown\<close>: an exception leaves \<open>Run\<close> and
  ends the thread. \<open>idle\<close>: a poll without a message. \<open>halted\<close>: \<open>Stop()\<close> takes effect after any number of
  further reads of the flag. \<open>changed\<close>: the world of the sink moves on between messages as far as
  \<open>survives\<close> allows, and so does the clock. \<open>restarted\<close>: a new instance
  resumes at the saved offset, after a crash, a stop, or a rebalance, with or without a producer of dead letters. The trace is kept as history.
\<close>

inductive group_step ::
    "consumer_config \<Rightarrow> 'v avro_env \<Rightarrow> cpp_env \<Rightarrow> 'w processor \<Rightarrow> ('w \<Rightarrow> 'w \<Rightarrow> bool) \<Rightarrow> message list
      \<Rightarrow> 'w group \<Rightarrow> 'w group \<Rightarrow> bool"
  for cfg av env process survives msgs where
  handled:
    "next_offset g < length msgs \<Longrightarrow> read_running (inst g) = (True, b1) \<Longrightarrow>
     handle_message cfg av env process (msgs ! next_offset g) b1 = (Inr (), b2) \<Longrightarrow>
     trace b2 = trace b1 @ tr \<Longrightarrow>
     saved = saved_offset g \<or> commits tr \<noteq> [] \<and> saved = Suc (next_offset g) \<Longrightarrow>
     group_step cfg av env process survives msgs g
       \<lparr>next_offset = Suc (next_offset g), saved_offset = saved, inst = b2\<rparr>"
| thrown:
    "next_offset g < length msgs \<Longrightarrow> read_running (inst g) = (True, b1) \<Longrightarrow>
     handle_message cfg av env process (msgs ! next_offset g) b1 = (Inl e, b2) \<Longrightarrow>
     group_step cfg av env process survives msgs g (g\<lparr>inst := b2\<lparr>stop_in := Some 0\<rparr>\<rparr>)"
| idle:
    "poll_message p = None \<Longrightarrow> read_running (inst g) = (True, b1) \<Longrightarrow>
     handle_poll cfg av env process p b1 = (Inr (), b2) \<Longrightarrow>
     group_step cfg av env process survives msgs g (g\<lparr>inst := b2\<rparr>)"
| halted:
    "stop_in (inst g) = None \<Longrightarrow>
     group_step cfg av env process survives msgs g (g\<lparr>inst := (inst g)\<lparr>stop_in := Some n\<rparr>\<rparr>)"
| changed:
    "survives (sink (inst g)) w \<Longrightarrow>
     group_step cfg av env process survives msgs g (g\<lparr>inst := (inst g)\<lparr>sink := w, now_ms := t\<rparr>\<rparr>)"
| restarted:
    "survives (sink (inst g)) (sink b) \<Longrightarrow> trace b = trace (inst g) \<Longrightarrow>
     group_step cfg av env process survives msgs g (g\<lparr>next_offset := saved_offset g, inst := b\<rparr>)"

definition group_start :: "'w consumer \<Rightarrow> 'w group" where
  "group_start b = \<lparr>next_offset = 0, saved_offset = 0, inst = b\<rparr>"

text \<open>Where the group stands: a running instance goes on, any other resumes at the saved offset.\<close>

definition resume_at :: "'w group \<Rightarrow> nat" where
  "resume_at g = (if still_running (inst g) then next_offset g else saved_offset g)"

definition in_log :: "message list \<Rightarrow> 'w group \<Rightarrow> bool" where
  "in_log msgs g \<longleftrightarrow> saved_offset g \<le> next_offset g \<and> next_offset g \<le> length msgs"

definition with_sink :: "'w \<Rightarrow> 'w group \<Rightarrow> 'w group" where
  "with_sink w g = g\<lparr>inst := (inst g)\<lparr>sink := w\<rparr>\<rparr>"

lemma idle_kept:
  assumes "poll_message p = None" "handle_poll cfg av env process p b = (r, b')"
  shows "sink b' = sink b \<and> (dlq_up b' \<longleftrightarrow> dlq_up b) \<and> (still_running b' \<longleftrightarrow> still_running b) \<and>
    (\<exists>tr. trace b' = trace b @ tr \<and> (retries_exhausted tr \<longleftrightarrow> False))"
  using assms
  by (auto simp: handle_poll_def poll_message_def retries_exhausted_def split: poll.splits)

text \<open>
  A step in terms of the sink: \<open>P\<close> is what calls of \<open>ProcessRecord\<close> and the world keep, \<open>Q\<close> what a normal
  return gives.
\<close>

lemma group_step_sink:
  assumes "group_step cfg av env process survives msgs g g'"
    and "P (sink (inst g))"
    and "\<And>w w'. P w \<Longrightarrow> survives w w' \<Longrightarrow> P w'"
    and "\<And>msg doc key w res w'. msg \<in> set msgs \<Longrightarrow> deserialize av (m_payload msg) = Some doc \<Longrightarrow>
      message_key av env msg = Inr key \<Longrightarrow> P w \<Longrightarrow> process doc key (m_offset msg) w = (res, w') \<Longrightarrow> P w'"
  shows "P (sink (inst g'))"
  using assms(1)
proof cases
  case (handled b1 b2 tr saved)
  have "P (sink b1)" using assms(2) read_running_pair [OF handled(3)] by simp
  from handle_message_keeps [where P = P and Q = "\<lambda>_ _ _. True", OF handled(4) this] assms(4) [OF nth_mem [OF handled(2)]]
  show ?thesis by (simp add: handled(1))
next
  case (thrown b1 e b2)
  have "P (sink b1)" using assms(2) read_running_pair [OF thrown(3)] by simp
  from handle_message_keeps [where P = P and Q = "\<lambda>_ _ _. True", OF thrown(4) this] assms(4) [OF nth_mem [OF thrown(2)]]
  show ?thesis by (simp add: thrown(1))
next
  case (idle p b1 b2)
  with assms(2) idle_kept [OF idle(2,4)] read_running_pair [OF idle(3)] show ?thesis by simp
qed (use assms(2,3) in auto)

lemma group_step_in_log:
  "group_step cfg av env process survives msgs g g' \<Longrightarrow> in_log msgs g \<Longrightarrow> in_log msgs g'"
  by (induction rule: group_step.induct) (auto simp: in_log_def)

section \<open>A record that is accepted at once\<close>

definition accepted_effects :: "int \<Rightarrow> effect list" where
  "accepted_effects offset = [Attempt True, Logged (''record_processed'', [show_int offset]), Committed offset]"

lemma handle_accepted:
  assumes "stop_in b = None" "1 \<le> max_retries cfg"
    and "deserialize av (m_payload msg) = Some doc" "message_key av env msg = Inr key"
    and "process doc key (m_offset msg) (sink b) = (Inr (), w)"
  shows "handle_message cfg av env process msg b
    = (Inr (), b\<lparr>sink := w, trace := trace b @ accepted_effects (m_offset msg)\<rparr>)"
proof -
  have "retry cfg process doc key (m_offset msg) 1 (initial_backoff_ms cfg) [] b
      = (True, [], snd (attempt_once process doc key (m_offset msg) 1 b))"
    using assms(1,2,5) by (subst retry.simps) (simp add: attempt_once_def)
  with assms show ?thesis
    by (simp add: handle_message_def attempt_once_def emit_def accepted_effects_def)
qed

lemma accepted_step:
  assumes "next_offset g < length msgs" "stop_in (inst g) = None" "1 \<le> max_retries cfg"
    and "deserialize av (m_payload (msgs ! next_offset g)) = Some doc" "message_key av env (msgs ! next_offset g) = Inr key"
    and "process doc key (m_offset (msgs ! next_offset g)) (sink (inst g)) = (Inr (), w)"
  shows "group_step cfg av env process survives msgs g
    \<lparr>next_offset = Suc (next_offset g), saved_offset = Suc (next_offset g),
     inst = (inst g)\<lparr>sink := w, trace := trace (inst g) @ accepted_effects (m_offset (msgs ! next_offset g))\<rparr>\<rparr>"
  by (rule group_step.handled [where tr = "accepted_effects (m_offset (msgs ! next_offset g))", OF assms(1) _ handle_accepted [where process = process, OF assms(2-6)]])
    (simp_all add: assms(2) accepted_effects_def)

text \<open>A group that is restarted on a sink that accepts the records gets to the end of the partition.\<close>

lemma group_goes_on:
  assumes "next_offset g \<le> length msgs" "saved_offset g = next_offset g" "stop_in (inst g) = None" "good (sink (inst g))"
    and "1 \<le> max_retries cfg"
    and accepts: "\<And>msg w. msg \<in> set msgs \<Longrightarrow> good w \<Longrightarrow> \<exists>doc key w'. deserialize av (m_payload msg) = Some doc
        \<and> message_key av env msg = Inr key \<and> process doc key (m_offset msg) w = (Inr (), w') \<and> good w'"
  shows "\<exists>g'. (group_step cfg av env process survives msgs)\<^sup>*\<^sup>* g g' \<and> saved_offset g' = length msgs
    \<and> (retries_exhausted (trace (inst g')) \<longleftrightarrow> retries_exhausted (trace (inst g)))"
  using assms(1-4)
proof (induction "length msgs - next_offset g" arbitrary: g)
  case 0
  then show ?case by (intro exI [of _ g]) simp
next
  case (Suc n)
  let ?m = "msgs ! next_offset g"
  have lt: "next_offset g < length msgs" using Suc.hyps(2) by simp
  obtain doc key w where m: "deserialize av (m_payload ?m) = Some doc" "message_key av env ?m = Inr key"
      "process doc key (m_offset ?m) (sink (inst g)) = (Inr (), w)" "good w"
    using accepts [OF nth_mem [OF lt] Suc.prems(4)] by blast
  let ?g = "\<lparr>next_offset = Suc (next_offset g), saved_offset = Suc (next_offset g),
      inst = (inst g)\<lparr>sink := w, trace := trace (inst g) @ accepted_effects (m_offset ?m)\<rparr>\<rparr>"
  have st: "group_step cfg av env process survives msgs g ?g"
    by (rule accepted_step [where process = process, OF lt Suc.prems(3) assms(5) m(1-3)])
  have "retries_exhausted (trace (inst ?g)) \<longleftrightarrow> retries_exhausted (trace (inst g))"
    by (simp add: accepted_effects_def) (simp add: retries_exhausted_def)
  moreover have "\<exists>g'. (group_step cfg av env process survives msgs)\<^sup>*\<^sup>* ?g g' \<and> saved_offset g' = length msgs
      \<and> (retries_exhausted (trace (inst g')) \<longleftrightarrow> retries_exhausted (trace (inst ?g)))"
    using Suc.hyps lt Suc.prems(3) m(4) by (intro Suc.hyps(1)) auto
  ultimately show ?case using st by (blast intro: converse_rtranclp_into_rtranclp)
qed

lemma group_catches_up:
  assumes "in_log msgs g" "survives (sink (inst g)) w0" "good w0" "1 \<le> max_retries cfg"
    and accepts: "\<And>msg w. msg \<in> set msgs \<Longrightarrow> good w \<Longrightarrow> \<exists>doc key w'. deserialize av (m_payload msg) = Some doc
        \<and> message_key av env msg = Inr key \<and> process doc key (m_offset msg) w = (Inr (), w') \<and> good w'"
  shows "\<exists>g'. (group_step cfg av env process survives msgs)\<^sup>*\<^sup>* g g' \<and> saved_offset g' = length msgs
    \<and> (retries_exhausted (trace (inst g')) \<longleftrightarrow> retries_exhausted (trace (inst g)))"
proof -
  let ?b = "\<lparr>sink = w0, stop_in = None, has_producer = True, produce_plan = [], now_ms = 0, trace = trace (inst g)\<rparr>"
  let ?g = "g\<lparr>next_offset := saved_offset g, inst := ?b\<rparr>"
  have st: "group_step cfg av env process survives msgs g ?g"
    using assms(2) by (intro group_step.restarted) simp_all
  have "\<exists>g'. (group_step cfg av env process survives msgs)\<^sup>*\<^sup>* ?g g' \<and> saved_offset g' = length msgs
      \<and> (retries_exhausted (trace (inst g')) \<longleftrightarrow> retries_exhausted (trace (inst ?g)))"
    using assms(1,3) by (intro group_goes_on [where good = good, OF _ _ _ _ assms(4) accepts]) (auto simp: in_log_def)
  with st show ?thesis by (auto intro: converse_rtranclp_into_rtranclp)
qed

section \<open>Committed means settled\<close>

definition all_fit :: "(json \<Rightarrow> string \<Rightarrow> bool) \<Rightarrow> 'v avro_env \<Rightarrow> cpp_env \<Rightarrow> message list \<Rightarrow> bool" where
  "all_fit fits av env msgs \<longleftrightarrow> list_all (message_fits fits av env) msgs"

definition settled_below ::
    "(json \<Rightarrow> string \<Rightarrow> 'w \<Rightarrow> bool) \<Rightarrow> consumer_config \<Rightarrow> 'v avro_env \<Rightarrow> cpp_env \<Rightarrow> message list \<Rightarrow> nat \<Rightarrow> 'w consumer
      \<Rightarrow> bool" where
  "settled_below stored cfg av env msgs n b \<longleftrightarrow>
     (\<forall>k<n. settled stored cfg av env (trace b) (sink b) (msgs ! k))"

lemma settled_below_mono: "settled_below stored cfg av env msgs n b \<Longrightarrow> m \<le> n \<Longrightarrow> settled_below stored cfg av env msgs m b"
  by (simp add: settled_below_def)

locale durable_sink = record_sink +
  fixes survives :: "'a \<Rightarrow> 'a \<Rightarrow> bool"
  assumes survives_inv: "inv w \<Longrightarrow> survives w w' \<Longrightarrow> inv w'"
    and survives_stored: "inv w \<Longrightarrow> survives w w' \<Longrightarrow> stored doc key w \<Longrightarrow> stored doc key w'"
begin

lemma survives_later: "inv w \<Longrightarrow> survives w w' \<Longrightarrow> later w w'"
  by (auto simp: later_def survives_inv survives_stored)

text \<open>Everything before the point where the group resumes is settled.\<close>

definition accounted :: "consumer_config \<Rightarrow> 'v avro_env \<Rightarrow> cpp_env \<Rightarrow> message list \<Rightarrow> 'a group \<Rightarrow> bool" where
  "accounted cfg av env msgs g \<longleftrightarrow> in_log msgs g \<and> inv (sink (inst g))
     \<and> settled_below stored cfg av env msgs (resume_at g) (inst g)"

lemma settled_below_later:
  assumes "settled_below stored cfg av env msgs n b" "later (sink b) (sink b')" "trace b' = trace b @ tr"
  shows "settled_below stored cfg av env msgs n b'"
  using assms by (auto simp: settled_below_def intro: settled_later)

lemma accounted_start: "inv (sink b) \<Longrightarrow> accounted cfg av env msgs (group_start b)"
  by (simp add: accounted_def group_start_def in_log_def settled_below_def resume_at_def)

lemma accounted_append: "accounted cfg av env msgs g \<Longrightarrow> accounted cfg av env (msgs @ [m]) g"
  by (auto simp: accounted_def in_log_def settled_below_def resume_at_def nth_append split: if_splits)

lemma accounted_with_sink:
  "accounted cfg av env msgs g \<Longrightarrow> later (sink (inst g)) w \<Longrightarrow> accounted cfg av env msgs (with_sink w g)"
  by (auto simp: accounted_def with_sink_def in_log_def later_def resume_at_def still_running_def
      settled_below_def settled_def)

lemma accounted_handled:
  assumes "accounted cfg av env msgs g" "all_fit fits av env msgs" "next_offset g < length msgs"
    and "read_running (inst g) = (True, b1)"
    and "handle_message cfg av env process (msgs ! next_offset g) b1 = (Inr (), b2)" "trace b2 = trace b1 @ tr"
    and "saved = saved_offset g \<or> commits tr \<noteq> [] \<and> saved = Suc (next_offset g)"
  shows "accounted cfg av env msgs \<lparr>next_offset = Suc (next_offset g), saved_offset = saved, inst = b2\<rparr>"
proof -
  let ?m = "msgs ! next_offset g"
  note rd = read_running_pair [OF assms(4)] read_running_stop [OF assms(4)]
  have pre: "inv (sink b1)" "resume_at g = next_offset g"
      "settled_below stored cfg av env msgs (next_offset g) b1"
    using assms(1) rd by (auto simp: accounted_def resume_at_def settled_below_def)
  have "message_fits fits av env ?m" using assms(2,3) by (simp add: all_fit_def list_all_iff)
  note h = handle_message_later [OF assms(5) pre(1) this]
  then have old: "settled_below stored cfg av env msgs (next_offset g) b2"
    using settled_below_later [OF pre(3) _ assms(6)] by blast
  have new: "settled stored cfg av env (trace b2) (sink b2) ?m" if "commits tr \<noteq> []"
    using h that assms(6)
    by (auto simp: message_kept_def settled_def intro: dead_lettered_append dlq_failed_append)
  have stop: "commits tr = [] \<longrightarrow> \<not> still_running b2" using h assms(6) by (auto simp: message_kept_def)
  have "settled_below stored cfg av env msgs (resume_at \<lparr>next_offset = Suc (next_offset g), saved_offset = saved, inst = b2\<rparr>) b2"
  proof (cases "commits tr = []")
    case True
    with stop assms(1,7) old show ?thesis
      by (auto simp: resume_at_def accounted_def in_log_def intro: settled_below_mono)
  next
    case False
    from old new [OF False] have "settled_below stored cfg av env msgs (Suc (next_offset g)) b2"
      by (auto simp: settled_below_def less_Suc_eq)
    with assms(1,7) show ?thesis
      by (auto simp: resume_at_def accounted_def in_log_def intro: settled_below_mono)
  qed
  with h pre assms(1,3,7) show ?thesis
    by (auto simp: accounted_def in_log_def later_def message_kept_def)
qed

lemma accounted_step:
  assumes "group_step cfg av env process survives msgs g g'" "accounted cfg av env msgs g" "all_fit fits av env msgs"
  shows "accounted cfg av env msgs g'"
proof -
  have bounds: "in_log msgs g'" using group_step_in_log [OF assms(1)] assms(2) by (simp add: accounted_def)
  have rewind: "settled_below stored cfg av env msgs (saved_offset g) (inst g)"
    using assms(2) by (auto simp: accounted_def in_log_def resume_at_def intro: settled_below_mono split: if_splits)
  from assms(1) show ?thesis
  proof cases
    case (handled b1 b2 tr saved)
    with accounted_handled [OF assms(2,3) handled(2-6)] show ?thesis by simp
  next
    case (thrown b1 e b2)
    note rd = read_running_pair [OF thrown(3)]
    have "message_fits fits av env (msgs ! next_offset g)" using assms(3) thrown(2) by (simp add: all_fit_def list_all_iff)
    with handle_message_later [OF thrown(4)] rd assms(2)
    have h: "later (sink b1) (sink b2)" "\<exists>tr. trace b2 = trace b1 @ tr"
      by (auto simp: accounted_def message_kept_def)
    with settled_below_later [of cfg av env msgs "saved_offset g" b1 b2] rewind rd bounds thrown(1) show ?thesis
      by (auto simp: accounted_def resume_at_def still_running_def settled_below_def later_def)
  next
    case (idle p b1 b2)
    note k = idle_kept [OF idle(2,4)] and rd = read_running_pair [OF idle(3)] read_running_stop [OF idle(3)]
    obtain tr where "trace b2 = trace (inst g) @ tr" using k rd by auto
    moreover have "later (sink (inst g)) (sink b2)" using k rd assms(2) by (simp add: accounted_def later_refl)
    moreover have "settled_below stored cfg av env msgs (next_offset g) (inst g)"
      using assms(2) rd by (simp add: accounted_def resume_at_def)
    ultimately have "settled_below stored cfg av env msgs (next_offset g) b2" using settled_below_later by blast
    then have "settled_below stored cfg av env msgs (resume_at g') b2"
      using assms(2) by (auto simp: idle(1) accounted_def in_log_def resume_at_def intro: settled_below_mono)
    with k rd assms(2) bounds idle(1) show ?thesis by (simp add: accounted_def)
  next
    case (halted n)
    have "settled_below stored cfg av env msgs (resume_at g') (inst g)"
      using rewind assms(2) by (auto simp: halted accounted_def resume_at_def still_running_def)
    with assms(2) bounds halted(1) show ?thesis by (simp add: accounted_def settled_below_def)
  next
    case (changed w t)
    then have "later (sink (inst g)) w" using assms(2) by (auto simp: accounted_def intro: survives_later)
    with accounted_with_sink [OF assms(2) this] show ?thesis
      by (simp add: changed(1) accounted_def with_sink_def in_log_def resume_at_def still_running_def settled_below_def)
  next
    case (restarted b)
    then have "later (sink (inst g)) (sink b)" using assms(2) by (auto simp: accounted_def intro: survives_later)
    with settled_below_later [OF rewind this, of "[]"] restarted bounds show ?thesis
      by (simp add: accounted_def resume_at_def later_def)
  qed
qed

end

end
