(* ===== verification/Group_Replay.thy ===== *)
theory Group_Replay
  imports Consumer_Group
begin

text \<open>
  In which order a consumer group brings the records of the partition to its sink, over any stops,
  crashes, lost commits and restarts: a walk over the offsets that goes forward one by one and may fall
  back. From it, once for all sinks whose \<open>ProcessRecord\<close> applies an idempotent update to what the sink
  shows: the content of the sink is the fold of the updates along such a walk.
\<close>

section \<open>Walks\<close>

text \<open>
  \<open>walk ks p\<close>: the updates at the offsets \<open>ks\<close> have been applied, in this order, and the group stands at
  \<open>p\<close>. An update may be applied without the group moving on (the attempt failed after its effect), and
  the group may fall back to an offset it has passed.
\<close>

inductive walk :: "nat list \<Rightarrow> nat \<Rightarrow> bool" where
  start: "walk [] 0"
| forth: "walk ks p \<Longrightarrow> walk (ks @ [p]) (Suc p)"
| again: "walk ks p \<Longrightarrow> walk (ks @ [p]) p"
| rewound: "walk ks p \<Longrightarrow> q \<le> p \<Longrightarrow> walk ks q"

lemma walk_covers: "walk ks p \<Longrightarrow> k < p \<Longrightarrow> k \<in> set ks"
  by (induction rule: walk.induct) (auto simp: less_Suc_eq)

text \<open>Nothing older is applied last: of the offsets of interest, the last one applied is the newest passed or beyond.\<close>

lemma walk_last:
  "walk ks p \<Longrightarrow> k < p \<Longrightarrow> P k \<Longrightarrow> filter P ks \<noteq> [] \<and> k \<le> last (filter P ks)"
  by (induction rule: walk.induct) (auto simp: less_Suc_eq)

lemma walk_straight: "walk [0..<n] n"
  by (induction n) (auto intro: walk.intros)

text \<open>A walk that has reached the end of the partition ends, for each kind of offset, with the newest.\<close>

lemma walk_complete:
  assumes "walk ks n" "set ks \<subseteq> {..<n}"
  shows "set ks = {..<n}"
    and "{k. k < n \<and> P k} = {} \<Longrightarrow> filter P ks = []"
    and "{k. k < n \<and> P k} \<noteq> {} \<Longrightarrow> filter P ks \<noteq> [] \<and> last (filter P ks) = Max {k. k < n \<and> P k}"
proof -
  show "set ks = {..<n}" using walk_covers [OF assms(1)] assms(2) by auto
  show "filter P ks = []" if "{k. k < n \<and> P k} = {}"
    using that assms(2) by (auto simp: filter_empty_conv)
  assume ne: "{k. k < n \<and> P k} \<noteq> {}"
  let ?K = "{k. k < n \<and> P k}"
  have K: "finite ?K" "Max ?K \<in> ?K" using ne Max_in by auto
  then have l: "filter P ks \<noteq> [] \<and> Max ?K \<le> last (filter P ks)" using walk_last [OF assms(1)] by auto
  then have "last (filter P ks) \<in> set (filter P ks)" by (intro last_in_set) simp
  then have "last (filter P ks) \<in> ?K" using assms(2) by auto
  then have "last (filter P ks) \<le> Max ?K" using K(1) by (intro Max_ge)
  with l show "filter P ks \<noteq> [] \<and> last (filter P ks) = Max ?K" by simp
qed

section \<open>Sinks that apply updates\<close>

definition message_effect ::
    "(json \<Rightarrow> string \<Rightarrow> 'x \<Rightarrow> 'x) \<Rightarrow> 'v avro_env \<Rightarrow> cpp_env \<Rightarrow> message \<Rightarrow> 'x \<Rightarrow> 'x" where
  "message_effect upd av env msg =
     (case (deserialize av (m_payload msg), message_key av env msg) of
        (Some doc, Inr key) \<Rightarrow> upd doc key
      | _ \<Rightarrow> id)"

definition replayed ::
    "(json \<Rightarrow> string \<Rightarrow> 'x \<Rightarrow> 'x) \<Rightarrow> 'v avro_env \<Rightarrow> cpp_env \<Rightarrow> message list \<Rightarrow> nat list \<Rightarrow> 'x \<Rightarrow> 'x" where
  "replayed upd av env msgs ks v = fold (\<lambda>k. message_effect upd av env (msgs ! k)) ks v"

lemma replayed_snoc [simp]:
  "replayed upd av env msgs (ks @ [k]) v = message_effect upd av env (msgs ! k) (replayed upd av env msgs ks v)"
  by (simp add: replayed_def)

lemma replayed_append:
  "set ks \<subseteq> {..<length msgs} \<Longrightarrow> replayed upd av env (msgs @ ms) ks v = replayed upd av env msgs ks v"
  unfolding replayed_def by (rule fold_cong) (auto simp: nth_append)

locale applied_sink =
  fixes process :: "'w processor"
    and inv :: "'w \<Rightarrow> bool"
    and fits :: "json \<Rightarrow> string \<Rightarrow> bool"
    and view :: "'w \<Rightarrow> 'x"
    and upd :: "json \<Rightarrow> string \<Rightarrow> 'x \<Rightarrow> 'x"
    and survives :: "'w \<Rightarrow> 'w \<Rightarrow> bool"
  assumes applies_inv: "inv w \<Longrightarrow> fits doc key \<Longrightarrow> process doc key offset w = (res, w') \<Longrightarrow> inv w'"
    and applies: "inv w \<Longrightarrow> fits doc key \<Longrightarrow> process doc key offset w = (res, w') \<Longrightarrow>
      view w' = upd doc key (view w) \<or> (\<exists>e. res = Inl e) \<and> view w' = view w"
    and upd_idem: "upd doc key (upd doc key x) = upd doc key x"
    and survives_applied: "inv w \<Longrightarrow> survives w w' \<Longrightarrow> inv w' \<and> view w' = view w"
begin

text \<open>The content of the sink comes from a walk, as long as no record's retries were exhausted.\<close>

definition walked :: "'v avro_env \<Rightarrow> cpp_env \<Rightarrow> 'x \<Rightarrow> message list \<Rightarrow> 'w group \<Rightarrow> bool" where
  "walked av env v msgs g \<longleftrightarrow> in_log msgs g \<and> inv (sink (inst g)) \<and>
     (\<not> retries_exhausted (trace (inst g)) \<longrightarrow>
       (\<exists>ks. walk ks (resume_at g) \<and> set ks \<subseteq> {..<length msgs}
          \<and> view (sink (inst g)) = replayed upd av env msgs ks v))"

lemma walked_start: "inv (sink b) \<Longrightarrow> walked av env (view (sink b)) msgs (group_start b)"
  by (auto simp: walked_def group_start_def in_log_def resume_at_def replayed_def intro!: exI [of _ "[]"] walk.start)

lemma walked_append:
  assumes "walked av env v msgs g"
  shows "walked av env v (msgs @ [m]) g"
proof -
  have "\<exists>ks. walk ks (resume_at g) \<and> set ks \<subseteq> {..<length (msgs @ [m])}
      \<and> view (sink (inst g)) = replayed upd av env (msgs @ [m]) ks v"
    if "\<not> retries_exhausted (trace (inst g))"
  proof -
    from that assms obtain ks where "walk ks (resume_at g)" "set ks \<subseteq> {..<length msgs}"
        "view (sink (inst g)) = replayed upd av env msgs ks v"
      unfolding walked_def by blast
    then show ?thesis by (intro exI [of _ ks]) (auto simp: replayed_append)
  qed
  with assms show ?thesis by (simp add: walked_def in_log_def)
qed

text \<open>A step that applies nothing may only fall back.\<close>

lemma walked_still:
  assumes "walked av env v msgs g" "in_log msgs g'" "resume_at g' \<le> resume_at g"
    and "inv (sink (inst g'))" "view (sink (inst g')) = view (sink (inst g))"
    and "retries_exhausted (trace (inst g)) \<longrightarrow> retries_exhausted (trace (inst g'))"
  shows "walked av env v msgs g'"
  using assms unfolding walked_def by (auto intro: walk.rewound)

lemma walked_with_sink:
  "walked av env v msgs g \<Longrightarrow> inv w \<Longrightarrow> view w = view (sink (inst g)) \<Longrightarrow> walked av env v msgs (with_sink w g)"
  by (rule walked_still) (auto simp: walked_def with_sink_def in_log_def resume_at_def still_running_def)

text \<open>Handling a message applies its update, or nothing and then does not pass it.\<close>

lemma handle_message_applies:
  assumes "handle_message cfg av env process msg b = (res, b')" "inv (sink b)" "message_fits fits av env msg"
  shows "inv (sink b') \<and>
    (view (sink b') = view (sink b) \<or> view (sink b') = message_effect upd av env msg (view (sink b))) \<and>
    message_kept cfg av env msg (\<lambda>doc key w. view w = message_effect upd av env msg (view (sink b))) res b b'"
proof -
  let ?E = "message_effect upd av env msg" and ?v = "view (sink b)"
  let ?P = "\<lambda>w. inv w \<and> (view w = ?v \<or> view w = ?E ?v)"
  have "?P (sink b') \<and> message_kept cfg av env msg (\<lambda>doc key w. view w = ?E ?v) res b b'"
  proof (rule handle_message_keeps [where P = ?P, OF assms(1)])
    fix doc key w r w'
    assume m: "deserialize av (m_payload msg) = Some doc" "message_key av env msg = Inr key"
    then have fits: "fits doc key" and E: "?E = upd doc key" using assms(3) by (simp_all add: message_fits_def message_effect_def)
    assume w: "?P w" and p: "process doc key (m_offset msg) w = (r, w')"
    from w applies_inv [OF _ fits p] applies [OF _ fits p] show "?P w' \<and> (r = Inr () \<longrightarrow> view w' = ?E ?v)"
      by (auto simp: E upd_idem)
  qed (use assms(2) in simp)
  then show ?thesis by blast
qed

lemma walked_forth:
  assumes "walk ks p" "set ks \<subseteq> {..<length msgs}" "p < length msgs" "x = replayed upd av env msgs ks v"
    and "y = x \<and> q \<le> p \<or> y = message_effect upd av env (msgs ! p) x \<and> q \<le> Suc p"
  shows "\<exists>ks. walk ks q \<and> set ks \<subseteq> {..<length msgs} \<and> y = replayed upd av env msgs ks v"
  using assms(5)
proof
  assume "y = x \<and> q \<le> p"
  with assms show ?thesis by (auto intro: walk.rewound)
next
  assume "y = message_effect upd av env (msgs ! p) x \<and> q \<le> Suc p"
  with assms show ?thesis by (intro exI [of _ "ks @ [p]"]) (auto intro: walk.rewound walk.forth)
qed

lemma walked_message:
  assumes "walked av env v msgs g" "all_fit fits av env msgs" "next_offset g < length msgs"
    and "read_running (inst g) = (True, b1)"
    and "handle_message cfg av env process (msgs ! next_offset g) b1 = (res, b2)"
    and "in_log msgs g'" "inst g' = b2\<lparr>stop_in := s\<rparr>"
    and "resume_at g' \<le> next_offset g \<or> res = Inr () \<and> resume_at g' = Suc (next_offset g) \<and> (\<exists>tr. trace b2 = trace b1 @ tr \<and> commits tr \<noteq> [])"
  shows "walked av env v msgs g'"
proof -
  let ?m = "msgs ! next_offset g" and ?p = "next_offset g"
  note rd = read_running_pair [OF assms(4)] read_running_stop [OF assms(4)]
  have pre: "inv (sink b1)" "resume_at g = ?p" using assms(1) rd by (auto simp: walked_def resume_at_def)
  have "message_fits fits av env ?m" using assms(2,3) by (simp add: all_fit_def list_all_iff)
  note h = handle_message_applies [OF assms(5) pre(1) this]
  from h obtain tr where tr: "trace b2 = trace b1 @ tr" by (auto simp: message_kept_def)
  have "\<exists>ks. walk ks (resume_at g') \<and> set ks \<subseteq> {..<length msgs} \<and> view (sink b2) = replayed upd av env msgs ks v"
    if ok: "\<not> retries_exhausted (trace b2)"
  proof -
    have "\<not> retries_exhausted (trace (inst g))" "\<not> retries_exhausted tr" using ok tr rd by auto
    then obtain ks where ks: "walk ks ?p" "set ks \<subseteq> {..<length msgs}" "view (sink b1) = replayed upd av env msgs ks v"
      using assms(1) pre(2) rd unfolding walked_def by auto
    have "view (sink b2) = view (sink b1) \<and> resume_at g' \<le> ?p
        \<or> view (sink b2) = message_effect upd av env ?m (view (sink b1)) \<and> resume_at g' \<le> Suc ?p"
    proof (cases "resume_at g' \<le> ?p")
      case True
      with h show ?thesis by auto
    next
      case False
      with assms(8) tr have "resume_at g' = Suc ?p" "commits tr \<noteq> []" by auto
      with h tr \<open>\<not> retries_exhausted tr\<close> show ?thesis
        by (auto simp: message_kept_def message_effect_def)
    qed
    from walked_forth [OF ks(1,2) assms(3) ks(3) this] show ?thesis .
  qed
  with assms(6,7) h show ?thesis by (simp add: walked_def)
qed

lemma walked_step:
  assumes "group_step cfg av env process survives msgs g g'" "walked av env v msgs g" "all_fit fits av env msgs"
  shows "walked av env v msgs g'"
proof -
  have bounds: "in_log msgs g'" "in_log msgs g"
    using group_step_in_log [OF assms(1)] assms(2) by (simp_all add: walked_def)
  then have lower: "saved_offset g \<le> resume_at g" by (simp add: in_log_def resume_at_def)
  from assms(1) show ?thesis
  proof cases
    case (handled b1 b2 tr saved)
    have "message_kept cfg av env (msgs ! next_offset g) (\<lambda>_ _ _. True) (Inr ()) b1 b2"
      using handle_message_keeps [where P = "\<lambda>_. True" and Q = "\<lambda>_ _ _. True", OF handled(4)] by simp
    with handled(5) have "commits tr = [] \<longrightarrow> \<not> still_running b2" by (auto simp: message_kept_def)
    with handled bounds(2) have "resume_at g' \<le> next_offset g \<or> resume_at g' = Suc (next_offset g) \<and> commits tr \<noteq> []"
      by (auto simp: resume_at_def in_log_def)
    with walked_message [OF assms(2,3) handled(2-4) bounds(1), of "stop_in b2"] handled(1,5) show ?thesis by auto
  next
    case (thrown b1 e b2)
    then have "resume_at g' \<le> next_offset g" using bounds(2) by (simp add: resume_at_def still_running_def in_log_def)
    with walked_message [OF assms(2,3) thrown(2-4) bounds(1), of "Some 0"] thrown(1) show ?thesis by simp
  next
    case (idle p b1 b2)
    note k = idle_kept [OF idle(2,4)] and rd = read_running_pair [OF idle(3)] read_running_stop [OF idle(3)]
    show ?thesis
      by (rule walked_still [OF assms(2) bounds(1)])
        (use idle(1) k rd assms(2) bounds(2) in \<open>auto simp: resume_at_def in_log_def walked_def\<close>)
  next
    case (halted n)
    show ?thesis
      by (rule walked_still [OF assms(2) bounds(1)])
        (use halted lower assms(2) in \<open>auto simp: resume_at_def still_running_def walked_def\<close>)
  next
    case (changed w t)
    then have "inv w \<and> view w = view (sink (inst g))" using assms(2) by (intro survives_applied) (simp_all add: walked_def)
    then show ?thesis
      by (intro walked_still [OF assms(2) bounds(1)]) (auto simp: changed(1) resume_at_def still_running_def)
  next
    case (restarted b)
    then have "inv (sink b) \<and> view (sink b) = view (sink (inst g))" using assms(2) by (intro survives_applied) (simp_all add: walked_def)
    with restarted lower show ?thesis
      by (intro walked_still [OF assms(2) bounds(1)]) (auto simp: resume_at_def)
  qed
qed

text \<open>At the end of the partition the whole of it has been applied, in the order of a complete walk.\<close>

lemma walked_caught_up:
  assumes "walked av env v msgs g" "saved_offset g = length msgs" "\<not> retries_exhausted (trace (inst g))"
  obtains ks where "walk ks (length msgs)" "set ks \<subseteq> {..<length msgs}"
    "view (sink (inst g)) = replayed upd av env msgs ks v"
proof -
  have "resume_at g = length msgs" using assms(1,2) by (auto simp: walked_def in_log_def resume_at_def)
  with assms(1,3) that show thesis unfolding walked_def by auto
qed

end

end
