(* ===== verification/Sink_Replay.thy ===== *)
theory Sink_Replay
  imports Group_Replay Sinks
begin

text \<open>
  The three sinks over restarts: what survives one, and the interpretations of \<open>durable_sink\<close> and
  \<open>applied_sink\<close>. The cache and the index are folds of the updates of the messages; \<open>RedisUpdater\<close> and
  \<open>Notifier\<close>, which share a Redis server, keep to their own keys.
\<close>

section \<open>What a restart keeps\<close>

text \<open>
  The server, and the history of events; the connection and what becomes of the next commands may be
  anything.
\<close>

definition same_server :: "'r redis_client \<Rightarrow> 'r redis_client \<Rightarrow> bool" where
  "same_server c c' \<longleftrightarrow> server c' = server c \<and> events c' = events c"

definition same_index :: "'e es_client \<Rightarrow> 'e es_client \<Rightarrow> bool" where
  "same_index c c' \<longleftrightarrow> index c' = index c \<and> es_events c' = es_events c"

interpretation updater_sink: durable_sink
  "redis_process env api" "redis_inv api" "plain_record env" "cached env api" same_server
  for env :: cpp_env and api :: "'r redis_api"
  by unfold_locales (auto simp: same_server_def redis_inv_def cached_def split: option.splits)

interpretation mailer_sink: durable_sink
  "notifier_process env api" "\<lambda>_. redis_laws api" any_record "claimed env api" same_server
  for env :: cpp_env and api :: "'r redis_api"
  by unfold_locales (auto simp: same_server_def claimed_def split: option.splits)

interpretation indexer_sink: durable_sink
  "es_process env api u" "\<lambda>_. True" any_record "acknowledged env" same_index
  for env :: cpp_env and api :: "'e es_api" and u :: string
  by unfold_locales (auto simp: same_index_def acknowledged_def split: option.splits)

section \<open>The updates of the messages\<close>

definition message_update :: "'v avro_env \<Rightarrow> cpp_env \<Rightarrow> message \<Rightarrow> string update option" where
  "message_update av env msg =
     (case (deserialize av (m_payload msg), message_key av env msg) of
        (Some doc, Inr key) \<Rightarrow> record_update env doc key
      | _ \<Rightarrow> None)"

definition put_version :: "cpp_env \<Rightarrow> json \<Rightarrow> string \<Rightarrow> string versioned \<Rightarrow> string versioned" where
  "put_version env doc key m =
     (case record_update env doc key of None \<Rightarrow> m | Some u \<Rightarrow> versioned_put double_of_int u m)"

definition put_row :: "cpp_env \<Rightarrow> json \<Rightarrow> string \<Rightarrow> es_view \<Rightarrow> es_view" where
  "put_row env doc key m =
     (case record_update env doc key of None \<Rightarrow> m | Some (i, _, d) \<Rightarrow> m(i := d))"

interpretation updater_replay: applied_sink
  "redis_process env api" "redis_inv api" "plain_record env" "\<lambda>c. cache_view api (server c)" "put_version env" same_server
  for env :: cpp_env and api :: "'r redis_api"
proof
  fix w w' :: "'r redis_client" and doc key offset res
  assume a: "redis_inv api w" "plain_record env doc key" "redis_process env api doc key offset w = (res, w')"
  show "redis_inv api w'" using redis_step_cases [OF a] by blast
  show "cache_view api (server w') = put_version env doc key (cache_view api (server w))
      \<or> (\<exists>e. res = Inl e) \<and> cache_view api (server w') = cache_view api (server w)"
  proof (cases "record_update env doc key")
    case None
    with redis_process_none [OF a(3)] show ?thesis by (simp add: put_version_def)
  next
    case (Some u)
    obtain i n d where u: "u = (i, n, d)" by (cases u) auto
    have "plain_id i" "redis_laws api" "guards_ok api (server w)" using a(1,2) Some u by (simp_all add: plain_record_def redis_inv_def)
    note refines = apply_update_refines [OF this(2,3,1)]
    from redis_process_server [OF a(3)] redis_process_done [of env api doc key offset w w' i n d] a(3) Some u refines
    show ?thesis by (cases res) (auto simp: put_version_def)
  qed
next
  fix doc key m
  show "put_version env doc key (put_version env doc key m) = put_version env doc key m"
    by (simp add: put_version_def versioned_put_idem split: option.splits)
next
  fix w w' :: "'r redis_client"
  assume "redis_inv api w" "same_server w w'"
  then show "redis_inv api w' \<and> cache_view api (server w') = cache_view api (server w)"
    by (simp add: same_server_def redis_inv_def)
qed

interpretation indexer_replay: applied_sink
  "es_process env api u" "\<lambda>_. es_laws api" any_record "\<lambda>c. es_view_of api u (index c)" "put_row env" same_index
  for env :: cpp_env and api :: "'e es_api" and u :: string
proof
  fix w w' :: "'e es_client" and doc key offset res
  assume a: "es_laws api" "es_process env api u doc key offset w = (res, w')"
  show "es_view_of api u (index w') = put_row env doc key (es_view_of api u (index w))
      \<or> (\<exists>e. res = Inl e) \<and> es_view_of api u (index w') = es_view_of api u (index w)"
  proof (cases "record_update env doc key")
    case None
    with es_update_None [OF a(2)] show ?thesis by (simp add: put_row_def es_update_def)
  next
    case (Some v)
    obtain i n d where "v = (i, n, d)" by (cases v) auto
    with Some es_process_step [OF a, of i d] show ?thesis by (auto simp: put_row_def es_update_def)
  qed
next
  fix doc key m
  show "put_row env doc key (put_row env doc key m) = put_row env doc key m"
    by (auto simp: put_row_def split: option.splits prod.splits)
qed (simp_all add: same_index_def)

section \<open>Folds of updates\<close>

lemma effect_version:
  "message_effect (put_version env) av env msg m
    = (case message_update av env msg of None \<Rightarrow> m | Some u \<Rightarrow> versioned_put double_of_int u m)"
  by (auto simp: message_effect_def message_update_def put_version_def split: option.splits sum.splits)

lemma effect_row:
  "message_effect (put_row env) av env msg m
    = (case message_update av env msg of None \<Rightarrow> m | Some (i, _, d) \<Rightarrow> m(i := d))"
  by (auto simp: message_effect_def message_update_def put_row_def split: option.splits sum.splits)

definition concerns :: "'v avro_env \<Rightarrow> cpp_env \<Rightarrow> message list \<Rightarrow> string \<Rightarrow> nat \<Rightarrow> bool" where
  "concerns av env msgs i k \<longleftrightarrow> (case message_update av env (msgs ! k) of None \<Rightarrow> False | Some (j, _) \<Rightarrow> j = i)"

lemma concerns_update: "concerns av env msgs i k \<longleftrightarrow> (\<exists>n d. message_update av env (msgs ! k) = Some (i, n, d))"
  by (auto simp: concerns_def split: option.splits)

text \<open>In the index the last update of an order decides.\<close>

lemma replayed_row:
  "replayed (put_row env) av env msgs ks v i =
     (if filter (concerns av env msgs i) ks = [] then v i
      else snd (snd (the (message_update av env (msgs ! last (filter (concerns av env msgs i) ks))))))"
proof (induction ks rule: rev_induct)
  case (snoc k ks)
  have "concerns av env msgs i k \<longleftrightarrow> (case message_update av env (msgs ! k) of None \<Rightarrow> False | Some (j, _) \<Rightarrow> j = i)"
    by (simp add: concerns_def)
  with snoc show ?case
    by (cases "message_update av env (msgs ! k)") (auto simp: effect_row)
qed (simp add: replayed_def)

text \<open>In the cache the update of the highest version does.\<close>

lemma replayed_version:
  "is_latest double_of_int {u. \<exists>k\<in>set ks. message_update av env (msgs ! k) = Some u} i
     (replayed (put_version env) av env msgs ks (\<lambda>_. None) i)"
proof (induction ks rule: rev_induct)
  case Nil
  then show ?case by (simp add: replayed_def is_latest_def)
next
  case (snoc k ks)
  let ?U = "{u. \<exists>k\<in>set ks. message_update av env (msgs ! k) = Some u}"
  show ?case
  proof (cases "message_update av env (msgs ! k)")
    case None
    then have "{u. \<exists>k'\<in>set (ks @ [k]). message_update av env (msgs ! k') = Some u} = ?U" by auto
    with snoc None show ?thesis by (simp only: replayed_snoc effect_version) simp
  next
    case (Some u)
    then have "{u. \<exists>k'\<in>set (ks @ [k]). message_update av env (msgs ! k') = Some u} = insert u ?U" by auto
    with is_latest_put [where m = "replayed (put_version env) av env msgs ks (\<lambda>_. None)", OF snoc, of u] Some
    show ?thesis by (simp only: replayed_snoc effect_version) simp
  qed
qed

section \<open>Two clients of one server\<close>

lemma keys_apart [simp]:
  "dedup_key i st \<noteq> order_key j" "dedup_key i st \<noteq> order_key j @ '':lsn''"
  "order_key j \<noteq> dedup_key i st" "order_key j @ '':lsn'' \<noteq> dedup_key i st"
  by (simp_all add: dedup_key_def order_key_def)

lemma updater_keeps_mail_keys:
  assumes "redis_laws api" "redis_process env api doc key offset c = (res, c')"
  shows "redis_get api (dedup_key i st) (server c') = redis_get api (dedup_key i st) (server c)"
  using redis_process_server [OF assms(2)] assms(1)
  by (auto simp: apply_update_cases redis_reads split: option.splits)

lemma mailer_keeps_other_keys:
  assumes "redis_laws api" "notifier_process env api doc key offset c = (res, c')" "\<And>i st. k \<noteq> dedup_key i st"
  shows "redis_get api k (server c') = redis_get api k (server c)"
  using assms(2)
proof (cases rule: notifier_process_cases)
  case (asks cust i st)
  from assms(1) asks(2) show ?thesis by (cases rule: notify_cases) (use assms(1,3) in \<open>auto simp: get_set_ex\<close>)
qed simp

definition same_orders :: "'r redis_api \<Rightarrow> 'r \<Rightarrow> 'r \<Rightarrow> bool" where
  "same_orders api r r' \<longleftrightarrow> (\<forall>j. redis_get api (order_key j) r' = redis_get api (order_key j) r
     \<and> redis_get api (order_key j @ '':lsn'') r' = redis_get api (order_key j @ '':lsn'') r)"

definition same_mail_keys :: "'r redis_api \<Rightarrow> 'r \<Rightarrow> 'r \<Rightarrow> bool" where
  "same_mail_keys api r r' \<longleftrightarrow> (\<forall>i st. redis_get api (dedup_key i st) r' = redis_get api (dedup_key i st) r)"

lemma same_orders_view: "same_orders api r r' \<Longrightarrow> cache_view api r' = cache_view api r"
  by (auto simp: same_orders_def cache_view_def fun_eq_iff split: option.splits)

lemma same_orders_inv: "same_orders api (server c) (server c') \<Longrightarrow> redis_inv api c \<Longrightarrow> redis_inv api c'"
  by (auto simp: same_orders_def redis_inv_def guards_ok_def)

lemma same_mail_keys_claimed:
  "same_mail_keys api (server c) (server c') \<Longrightarrow> claimed env api doc key c' = claimed env api doc key c"
  by (auto simp: same_mail_keys_def claimed_def split: option.splits)

lemma same_mail_keys_guarded:
  "same_mail_keys api (server c) (server c') \<Longrightarrow> events c' = events c \<Longrightarrow> mails_guarded api c \<Longrightarrow> mails_guarded api c'"
  by (simp add: same_mail_keys_def mails_guarded_def emails_def)

lemma updater_step_mail_keys:
  assumes "group_step cfg av env (redis_process env api) same_server msgs g g'" "redis_laws api"
  shows "same_mail_keys api (server (sink (inst g))) (server (sink (inst g')))"
  by (rule group_step_sink [where P = "\<lambda>w. same_mail_keys api (server (sink (inst g))) (server w)", OF assms(1)])
    (auto simp: same_mail_keys_def same_server_def updater_keeps_mail_keys [OF assms(2)])

lemma mailer_step_orders:
  assumes "group_step cfg av env (notifier_process env api) same_server msgs g g'" "redis_laws api"
  shows "same_orders api (server (sink (inst g))) (server (sink (inst g')))"
  by (rule group_step_sink [where P = "\<lambda>w. same_orders api (server (sink (inst g))) (server w)", OF assms(1)])
    (auto simp: same_orders_def same_server_def mailer_keeps_other_keys [OF assms(2)])

lemma mailer_step_guarded:
  assumes "group_step cfg av env (notifier_process env api) same_server msgs g g'" "redis_laws api"
    and "mails_guarded api (sink (inst g))"
  shows "mails_guarded api (sink (inst g'))"
  by (rule group_step_sink [where P = "mails_guarded api", OF assms(1,3)])
    (auto intro: mails_guarded_process [OF assms(2)] same_mail_keys_guarded simp: same_server_def same_mail_keys_def)

section \<open>Records the sinks accept\<close>

text \<open>
  An order event the two stores accept when they are up: it has an identifier, it can be printed, and its
  status, if there is one, is a text.
\<close>

definition well_formed :: "cpp_env \<Rightarrow> json \<Rightarrow> string \<Rightarrow> bool" where
  "well_formed env doc key \<longleftrightarrow> record_update env doc key \<noteq> None \<and>
     (case classify doc of Upsert data \<Rightarrow> \<not> isl (value_string env (unwrap data) ''status'' ''UNKNOWN'') | _ \<Rightarrow> True)"

lemma updater_accepts:
  assumes "well_formed env doc key" "healthy c"
  obtains c' where "redis_process env api doc key offset c = (Inr (), c')" "healthy c'"
proof -
  obtain i n d where u: "record_update env doc key = Some (i, n, d)" using assms(1) by (auto simp: well_formed_def)
  obtain res c' where p: "redis_process env api doc key offset c = (res, c')" by fastforce
  have "res = Inr ()"
  proof (cases "classify doc")
    case (Upsert data)
    then obtain s where r: "order_id_of env (unwrap data) key = Inr i" "i \<noteq> []" "dump env (unwrap data) = Inr s"
      using u by (auto simp: record_update_def Let_def split: sum.splits if_splits)
    from assms(1) Upsert obtain st where "value_string env (unwrap data) ''status'' ''UNKNOWN'' = Inr st"
      by (cases "value_string env (unwrap data) ''status'' ''UNKNOWN''") (auto simp: well_formed_def)
    with p Upsert redis_upsert_healthy(2) [OF assms(2) r, of api doc offset] show ?thesis
      by (simp add: redis_process_def split: if_splits)
  next
    case (Delete prior)
    with p u redis_delete_healthy [OF assms(2), of env prior key i] show ?thesis
      by (auto simp: redis_process_def record_update_def Let_def split: sum.splits if_splits)
  next
    case Unrelated
    with u show ?thesis by (simp add: record_update_def)
  qed
  with that p redis_process_healthy [OF assms(2) p u] show thesis by blast
qed

lemma indexer_accepts:
  assumes "well_formed env doc key" "es_reliable api"
  obtains c' where "es_process env api u doc key offset c = (Inr (), c')"
proof -
  obtain res c' where p: "es_process env api u doc key offset c = (res, c')" by fastforce
  have "es_update env doc key \<noteq> None" using assms(1) by (auto simp: well_formed_def es_update_def)
  with es_process_returns [OF assms(2) p] that p show thesis by simp
qed

end
