(* ===== verification/Pipeline.thy ===== *)
theory Pipeline
  imports Sink_Replay
begin

text \<open>
  The whole pipeline as a step relation: changes are published to the topic, and the three consumer
  groups (\<open>consumers/src/main.cpp\<close> starts one thread each) take messages in any interleaving, fail, stop,
  crash and resume. \<open>RedisUpdater\<close> and \<open>Notifier\<close> write to one Redis server. The invariants by rule
  induction over the reachable states.
\<close>

section \<open>State and steps\<close>

text \<open>
  What is outside: libserdes and the JSON library, Redis, Elasticsearch with its URL, the name of the
  topic. The topic has one partition, the default of the broker for a topic created on first use.
\<close>

record ('v, 'r, 'e) deployment =
  avro :: "'v avro_env"
  codec :: cpp_env
  redis :: "'r redis_api"
  elastic :: "'e es_api"
  elastic_url :: string
  topic_name :: string

record ('r, 'e) pipeline =
  topic :: "message list"
  updater :: "'r redis_client group"
  mailer :: "'r redis_client group"
  indexer :: "'e es_client group"

definition updater_step :: "('v, 'r, 'e) deployment \<Rightarrow> message list \<Rightarrow> 'r redis_client group \<Rightarrow> 'r redis_client group \<Rightarrow> bool" where
  "updater_step D = group_step (default_config ''RedisUpdater'' (topic_name D)) (avro D) (codec D)
     (redis_process (codec D) (redis D)) same_server"

definition mailer_step :: "('v, 'r, 'e) deployment \<Rightarrow> message list \<Rightarrow> 'r redis_client group \<Rightarrow> 'r redis_client group \<Rightarrow> bool" where
  "mailer_step D = group_step (default_config ''Notifier'' (topic_name D)) (avro D) (codec D)
     (notifier_process (codec D) (redis D)) same_server"

definition indexer_step :: "('v, 'r, 'e) deployment \<Rightarrow> message list \<Rightarrow> 'e es_client group \<Rightarrow> 'e es_client group \<Rightarrow> bool" where
  "indexer_step D = group_step (default_config ''ESIndexer'' (topic_name D)) (avro D) (codec D)
     (es_process (codec D) (elastic D) (elastic_url D)) same_index"

definition client_of :: "'w group \<Rightarrow> 'w" where
  "client_of g = sink (inst g)"

text \<open>The other client of the server sees what a client has written.\<close>

definition see_server :: "'r redis_client group \<Rightarrow> 'r redis_client group \<Rightarrow> 'r redis_client group" where
  "see_server g g' = with_sink ((client_of g')\<lparr>server := server (client_of g)\<rparr>) g'"

inductive pipeline_step :: "('v, 'r, 'e) deployment \<Rightarrow> ('r, 'e) pipeline \<Rightarrow> ('r, 'e) pipeline \<Rightarrow> bool" for D where
  published: "m_offset msg = int (length (topic p)) \<Longrightarrow>
     pipeline_step D p (p\<lparr>topic := topic p @ [msg]\<rparr>)"
| updating: "updater_step D (topic p) (updater p) g \<Longrightarrow>
     pipeline_step D p (p\<lparr>updater := g, mailer := see_server g (mailer p)\<rparr>)"
| mailing: "mailer_step D (topic p) (mailer p) g \<Longrightarrow>
     pipeline_step D p (p\<lparr>mailer := g, updater := see_server g (updater p)\<rparr>)"
| indexing: "indexer_step D (topic p) (indexer p) g \<Longrightarrow>
     pipeline_step D p (p\<lparr>indexer := g\<rparr>)"

text \<open>
  At first the topic and the stores are empty and nothing has been done. The consumers may be without a producer
  of dead letters, and theirs may refuse any of them.
\<close>

definition pipeline_start :: "('v, 'r, 'e) deployment \<Rightarrow> ('r, 'e) pipeline \<Rightarrow> bool" where
  "pipeline_start D p \<longleftrightarrow>
     (\<exists>u m x. p = \<lparr>topic = [], updater = group_start u, mailer = group_start m, indexer = group_start x\<rparr>
        \<and> server (sink u) = server (sink m) \<and> (\<forall>k. redis_get (redis D) k (server (sink u)) = None)
        \<and> events (sink m) = [] \<and> (\<forall>i. es_view_of (elastic D) (elastic_url D) (index (sink x)) i = None))"

inductive reachable :: "('v, 'r, 'e) deployment \<Rightarrow> ('r, 'e) pipeline \<Rightarrow> bool" for D where
  initial: "pipeline_start D p \<Longrightarrow> reachable D p"
| step: "reachable D p \<Longrightarrow> pipeline_step D p p' \<Longrightarrow> reachable D p'"

inductive_cases pipeline_stepE: "pipeline_step D p p'"

section \<open>Invariants\<close>

abbreviation updater_config :: "('v, 'r, 'e) deployment \<Rightarrow> consumer_config" where
  "updater_config D \<equiv> default_config ''RedisUpdater'' (topic_name D)"

abbreviation mailer_config :: "('v, 'r, 'e) deployment \<Rightarrow> consumer_config" where
  "mailer_config D \<equiv> default_config ''Notifier'' (topic_name D)"

abbreviation indexer_config :: "('v, 'r, 'e) deployment \<Rightarrow> consumer_config" where
  "indexer_config D \<equiv> default_config ''ESIndexer'' (topic_name D)"

definition plain_topic :: "('v, 'r, 'e) deployment \<Rightarrow> message list \<Rightarrow> bool" where
  "plain_topic D msgs \<longleftrightarrow> all_fit (plain_record (codec D)) (avro D) (codec D) msgs"

definition lawful :: "('v, 'r, 'e) deployment \<Rightarrow> bool" where
  "lawful D \<longleftrightarrow> redis_laws (redis D) \<and> es_laws (elastic D)"

definition consistent_pipeline :: "('v, 'r, 'e) deployment \<Rightarrow> ('r, 'e) pipeline \<Rightarrow> bool" where
  "consistent_pipeline D p \<longleftrightarrow>
     server (client_of (updater p)) = server (client_of (mailer p))
     \<and> updater_sink.accounted (redis D) (codec D) (updater_config D) (avro D) (codec D) (topic p) (updater p)
     \<and> mailer_sink.accounted (redis D) (codec D) (mailer_config D) (avro D) (codec D) (topic p) (mailer p)
     \<and> indexer_sink.accounted (codec D) (indexer_config D) (avro D) (codec D) (topic p) (indexer p)
     \<and> updater_replay.walked (redis D) (codec D) (avro D) (codec D) (\<lambda>_. None) (topic p) (updater p)
     \<and> indexer_replay.walked (elastic D) (elastic_url D) (codec D) (avro D) (codec D) (\<lambda>_. None) (topic p) (indexer p)
     \<and> mails_guarded (redis D) (client_of (mailer p))"

lemma plain_topic_append: "plain_topic D (msgs @ [m]) \<Longrightarrow> plain_topic D msgs"
  by (simp add: plain_topic_def all_fit_def)

lemma any_topic [simp]: "all_fit any_record av env msgs"
  by (auto simp: all_fit_def list_all_iff message_fits_def any_record_def split: option.splits sum.splits)

lemma see_server_client: "client_of (see_server g g') = (client_of g')\<lparr>server := server (client_of g)\<rparr>"
  by (simp add: see_server_def client_of_def with_sink_def)

lemma sink_with_sink [simp]: "sink (inst (with_sink w g)) = w"
  by (simp add: with_sink_def)

lemma client_of_start [simp]: "client_of (group_start b) = sink b"
  by (simp add: client_of_def group_start_def)

lemma start_consistent:
  assumes "lawful D" "pipeline_start D p"
  shows "consistent_pipeline D p"
proof -
  from assms(2) obtain u m x where p: "p = \<lparr>topic = [], updater = group_start u, mailer = group_start m, indexer = group_start x\<rparr>"
    and s: "server (sink u) = server (sink m)"
    and none: "\<And>k. redis_get (redis D) k (server (sink m)) = None" "events (sink m) = []"
      "\<And>i. es_view_of (elastic D) (elastic_url D) (index (sink x)) i = None"
    by (auto simp: pipeline_start_def)
  have laws: "redis_laws (redis D)" "es_laws (elastic D)" using assms(1) by (simp_all add: lawful_def)
  have view: "cache_view (redis D) (server (sink u)) = (\<lambda>_. None)"
    "es_view_of (elastic D) (elastic_url D) (index (sink x)) = (\<lambda>_. None)"
    by (simp_all add: cache_view_def fun_eq_iff s none)
  have ri: "redis_inv (redis D) (sink u)" by (simp add: redis_inv_def laws guards_ok_def s none)
  have "updater_replay.walked (redis D) (codec D) (avro D) (codec D) (\<lambda>_. None) [] (group_start u)"
    using updater_replay.walked_start [where b = u, OF ri] unfolding view .
  moreover have "indexer_replay.walked (elastic D) (elastic_url D) (codec D) (avro D) (codec D) (\<lambda>_. None) [] (group_start x)"
    using indexer_replay.walked_start [where b = x and u = "elastic_url D", OF laws(2)] unfolding view .
  moreover have "mails_guarded (redis D) (sink m)" by (simp add: mails_guarded_def emails_def none)
  ultimately show ?thesis
    by (simp add: consistent_pipeline_def p s updater_sink.accounted_start [OF ri]
        mailer_sink.accounted_start [OF laws(1)] indexer_sink.accounted_start [OF TrueI])
qed

lemma published_consistent:
  "consistent_pipeline D p \<Longrightarrow> consistent_pipeline D (p\<lparr>topic := topic p @ [msg]\<rparr>)"
  by (simp add: consistent_pipeline_def updater_sink.accounted_append mailer_sink.accounted_append
      indexer_sink.accounted_append updater_replay.walked_append indexer_replay.walked_append)

lemma updating_consistent:
  assumes "lawful D" "consistent_pipeline D p" "plain_topic D (topic p)" "updater_step D (topic p) (updater p) g"
  shows "consistent_pipeline D (p\<lparr>updater := g, mailer := see_server g (mailer p)\<rparr>)"
proof -
  have laws: "redis_laws (redis D)" using assms(1) by (simp add: lawful_def)
  note inv = assms(2) [unfolded consistent_pipeline_def]
  note st = assms(4) [unfolded updater_step_def] and plain = assms(3) [unfolded plain_topic_def]
  have "same_mail_keys (redis D) (server (client_of (mailer p))) (server (client_of g))"
    using updater_step_mail_keys [OF st laws] inv by (simp add: client_of_def)
  then have keys: "same_mail_keys (redis D) (server (client_of (mailer p))) (server (client_of (see_server g (mailer p))))"
    by (simp add: see_server_client)
  have "notifier_sink.later (redis D) (codec D) (client_of (mailer p)) (client_of (see_server g (mailer p)))"
    by (simp only: notifier_sink.later_def same_mail_keys_claimed [OF keys]) (simp add: laws)
  then have "mailer_sink.accounted (redis D) (codec D) (mailer_config D) (avro D) (codec D) (topic p) (see_server g (mailer p))"
    unfolding see_server_client unfolding see_server_def
    by (intro mailer_sink.accounted_with_sink) (use inv in \<open>simp_all flip: client_of_def\<close>)
  moreover have "mails_guarded (redis D) (client_of (see_server g (mailer p)))"
    using same_mail_keys_guarded [OF keys] inv by (simp add: see_server_client)
  moreover have "updater_sink.accounted (redis D) (codec D) (updater_config D) (avro D) (codec D) (topic p) g"
    "updater_replay.walked (redis D) (codec D) (avro D) (codec D) (\<lambda>_. None) (topic p) g"
    using updater_sink.accounted_step [OF st] updater_replay.walked_step [OF st] inv plain by blast+
  ultimately show ?thesis using inv by (simp add: consistent_pipeline_def see_server_client)
qed

lemma mailing_consistent:
  assumes "lawful D" "consistent_pipeline D p" "mailer_step D (topic p) (mailer p) g"
  shows "consistent_pipeline D (p\<lparr>mailer := g, updater := see_server g (updater p)\<rparr>)"
proof -
  have laws: "redis_laws (redis D)" using assms(1) by (simp add: lawful_def)
  note inv = assms(2) [unfolded consistent_pipeline_def]
  note st = assms(3) [unfolded mailer_step_def]
  have orders: "same_orders (redis D) (server (client_of (updater p))) (server (client_of g))"
    using mailer_step_orders [OF st laws] inv by (simp add: client_of_def)
  let ?c = "client_of (updater p)" and ?c' = "(client_of (updater p))\<lparr>server := server (client_of g)\<rparr>"
  have view: "cache_view (redis D) (server ?c') = cache_view (redis D) (server ?c)"
    using same_orders_view [OF orders] by simp
  have ri: "redis_inv (redis D) ?c'"
    using same_orders_inv [of "redis D" ?c ?c'] orders inv by (simp add: updater_sink.accounted_def client_of_def)
  have "redis_sink.later (redis D) (codec D) ?c ?c'"
    unfolding redis_sink.later_def cached_def view using ri by simp
  then have "updater_sink.accounted (redis D) (codec D) (updater_config D) (avro D) (codec D) (topic p) (see_server g (updater p))"
    unfolding see_server_def
    by (intro updater_sink.accounted_with_sink) (use inv in \<open>simp_all flip: client_of_def\<close>)
  moreover have "updater_replay.walked (redis D) (codec D) (avro D) (codec D) (\<lambda>_. None) (topic p) (see_server g (updater p))"
    unfolding see_server_def
    by (rule updater_replay.walked_with_sink) (use inv ri view in \<open>simp_all add: client_of_def\<close>)
  moreover have "mailer_sink.accounted (redis D) (codec D) (mailer_config D) (avro D) (codec D) (topic p) g"
    using mailer_sink.accounted_step [OF st] inv by simp
  moreover have "mails_guarded (redis D) (client_of g)"
    using mailer_step_guarded [OF st laws] inv by (simp add: client_of_def)
  ultimately show ?thesis using inv by (simp add: consistent_pipeline_def see_server_client)
qed

lemma indexing_consistent:
  assumes "consistent_pipeline D p" "indexer_step D (topic p) (indexer p) g"
  shows "consistent_pipeline D (p\<lparr>indexer := g\<rparr>)"
  using assms indexer_sink.accounted_step indexer_replay.walked_step
  by (fastforce simp: consistent_pipeline_def indexer_step_def)

lemma topic_grows: "pipeline_step D p p' \<Longrightarrow> plain_topic D (topic p') \<Longrightarrow> plain_topic D (topic p)"
  by (cases rule: pipeline_step.cases) (auto intro: plain_topic_append)

lemma reachable_consistent:
  assumes "reachable D p" "lawful D" "plain_topic D (topic p)"
  shows "consistent_pipeline D p"
  using assms
proof induction
  case (initial p)
  then show ?case by (simp add: start_consistent)
next
  case (step p p')
  then have "consistent_pipeline D p" "plain_topic D (topic p)" using topic_grows by blast+
  with step.hyps(2) step.prems(1) show ?case
    by (auto elim!: pipeline_stepE
        intro: published_consistent updating_consistent mailing_consistent indexing_consistent)
qed

text \<open>No e-mail goes out for a status other than the two.\<close>

lemma reachable_other_mails:
  assumes "reachable D p" "redis_laws (redis D)" "st \<noteq> ''SHIPPED''" "st \<noteq> ''DELIVERED''"
  shows "emails i st (client_of (mailer p)) = 0"
  using assms(1)
proof induction
  case (initial p)
  then show ?case by (auto simp: pipeline_start_def client_of_def group_start_def emails_def)
next
  case (step p p')
  from step.hyps(2) show ?case
  proof cases
    case (mailing g)
    have "emails i st (sink (inst g)) = 0"
      by (rule group_step_sink [where P = "\<lambda>w. emails i st w = 0", OF mailing(2) [unfolded mailer_step_def]])
        (use step.IH emails_other [OF assms(2) _ assms(3,4)] in \<open>auto simp: client_of_def same_server_def emails_def\<close>)
    with mailing show ?thesis by (simp add: client_of_def)
  qed (use step.IH in \<open>auto simp: see_server_client emails_def\<close>)
qed

end
