(* ===== verification/Pipeline_Properties.thy ===== *)
theory Pipeline_Properties
  imports Pipeline
begin

text \<open>
  What the pipeline promises as a whole: both stores come to show the table, nothing committed is lost,
  and an e-mail is sent once, whatever the interleaving of the consumers, their failures and restarts.
\<close>

section \<open>The table as the topic tells it\<close>

definition table_after :: "('v, 'r, 'e) deployment \<Rightarrow> message list \<Rightarrow> es_view" where
  "table_after D msgs = fold (message_effect (put_row (codec D)) (avro D) (codec D)) msgs (\<lambda>_. None)"

definition cached_document :: "('v, 'r, 'e) deployment \<Rightarrow> ('r, 'e) pipeline \<Rightarrow> es_view" where
  "cached_document D p i =
     (case cache_view (redis D) (server (client_of (updater p))) i of None \<Rightarrow> None | Some (n, d) \<Rightarrow> d)"

definition indexed_document :: "('v, 'r, 'e) deployment \<Rightarrow> ('r, 'e) pipeline \<Rightarrow> es_view" where
  "indexed_document D p = es_view_of (elastic D) (elastic_url D) (index (client_of (indexer p)))"

text \<open>
  The last message of an order carries its highest sequence number, as the guard compares them; copies of
  it may precede. PostgreSQL's log sequence numbers only grow, so this holds of what Debezium publishes,
  and still when it publishes a stretch of the log again.
\<close>

definition newest_last :: "('v, 'r, 'e) deployment \<Rightarrow> message list \<Rightarrow> bool" where
  "newest_last D msgs \<longleftrightarrow>
     (\<forall>j<length msgs. \<forall>k\<le>j.
        (case (message_update (avro D) (codec D) (msgs ! k), message_update (avro D) (codec D) (msgs ! j)) of
           (Some (i, n, d), Some (i', n', d')) \<Rightarrow>
             i = i' \<and> (\<forall>l\<in>{Suc j..<length msgs}. \<not> concerns (avro D) (codec D) msgs i l) \<longrightarrow>
             double_of_int n \<le> double_of_int n' \<and> (double_of_int n = double_of_int n' \<longrightarrow> d = d')
         | _ \<Rightarrow> True))"

lemma newest_lastD:
  assumes "newest_last D msgs" "j < length msgs" "k \<le> j"
    and "message_update (avro D) (codec D) (msgs ! k) = Some (i, n, d)"
    and "message_update (avro D) (codec D) (msgs ! j) = Some (i, n', d')"
    and "\<And>l. j < l \<Longrightarrow> l < length msgs \<Longrightarrow> \<not> concerns (avro D) (codec D) msgs i l"
  shows "double_of_int n \<le> double_of_int n' \<and> (double_of_int n = double_of_int n' \<longrightarrow> d = d')"
proof -
  from assms(1-3) have "case (message_update (avro D) (codec D) (msgs ! k), message_update (avro D) (codec D) (msgs ! j)) of
           (Some (i, n, d), Some (i', n', d')) \<Rightarrow>
             i = i' \<and> (\<forall>l\<in>{Suc j..<length msgs}. \<not> concerns (avro D) (codec D) msgs i l) \<longrightarrow>
             double_of_int n \<le> double_of_int n' \<and> (double_of_int n = double_of_int n' \<longrightarrow> d = d')
         | _ \<Rightarrow> True"
    unfolding newest_last_def by blast
  with assms(4-6) show ?thesis by simp
qed

section \<open>Stores that have caught up\<close>

lemma fold_nth: "fold (\<lambda>k. f (xs ! k)) [0..<length xs] v = fold f xs v"
proof -
  have "fold f (map ((!) xs) [0..<length xs]) v = fold (\<lambda>k. f (xs ! k)) [0..<length xs] v"
    by (simp add: fold_map comp_def)
  then show ?thesis by (simp add: map_nth)
qed

lemma table_replayed:
  "table_after D msgs = replayed (put_row (codec D)) (avro D) (codec D) msgs [0..<length msgs] (\<lambda>_. None)"
  by (simp add: table_after_def replayed_def fold_nth)

text \<open>The rows a complete walk leaves are the table: for each order the last message decides.\<close>

lemma walk_shows_table:
  assumes "walk ks (length msgs)" "set ks \<subseteq> {..<length msgs}"
  shows "replayed (put_row (codec D)) (avro D) (codec D) msgs ks (\<lambda>_. None) i = table_after D msgs i"
proof -
  let ?P = "concerns (avro D) (codec D) msgs i" and ?n = "length msgs"
  have s: "set [0..<?n] \<subseteq> {..<?n}" by auto
  show ?thesis
  proof (cases "{k. k < ?n \<and> ?P k} = {}")
    case True
    with walk_complete(2) [OF assms True] walk_complete(2) [OF walk_straight s True] show ?thesis
      by (simp add: table_replayed replayed_row)
  next
    case False
    with walk_complete(3) [OF assms False] walk_complete(3) [OF walk_straight s False] show ?thesis
      by (simp add: table_replayed replayed_row)
  qed
qed

lemma table_last:
  assumes "j < length msgs" "message_update (avro D) (codec D) (msgs ! j) = Some (i, n, d)"
    and "\<And>l. j < l \<Longrightarrow> l < length msgs \<Longrightarrow> \<not> concerns (avro D) (codec D) msgs i l"
  shows "table_after D msgs i = d"
proof -
  let ?P = "concerns (avro D) (codec D) msgs i" and ?n = "length msgs"
  have j: "j \<in> {k. k < ?n \<and> ?P k}" using assms(1,2) by (simp add: concerns_update)
  have "Max {k. k < ?n \<and> ?P k} = j"
    using j assms(3) by (intro Max_eqI) (auto simp: not_less [symmetric])
  moreover have "set [0..<?n] \<subseteq> {..<?n}" by auto
  ultimately have "filter ?P [0..<?n] \<noteq> [] \<and> last (filter ?P [0..<?n]) = j"
    using walk_complete(3) [OF walk_straight, of ?n ?P] j by auto
  then show ?thesis using assms(2) by (simp add: table_replayed replayed_row)
qed

lemma table_empty:
  assumes "\<And>l. l < length msgs \<Longrightarrow> \<not> concerns (avro D) (codec D) msgs i l"
  shows "table_after D msgs i = None"
  using assms by (simp add: table_replayed replayed_row filter_empty_conv)

text \<open>The version a complete walk leaves in the cache is the newest, which is the row of the table.\<close>

lemma walk_caches_table:
  assumes "walk ks (length msgs)" "set ks \<subseteq> {..<length msgs}" "newest_last D msgs"
  shows "(case replayed (put_version (codec D)) (avro D) (codec D) msgs ks (\<lambda>_. None) i of None \<Rightarrow> None | Some (n, d) \<Rightarrow> d)
    = table_after D msgs i"
proof -
  let ?U = "{u. \<exists>k\<in>set ks. message_update (avro D) (codec D) (msgs ! k) = Some u}"
  let ?e = "replayed (put_version (codec D)) (avro D) (codec D) msgs ks (\<lambda>_. None) i"
  let ?K = "{k. k < length msgs \<and> concerns (avro D) (codec D) msgs i k}"
  have ks: "set ks = {..<length msgs}" by (rule walk_complete(1) [OF assms(1,2)])
  note latest = replayed_version [of ks "avro D" "codec D" msgs i]
  show ?thesis
  proof (cases "?K = {}")
    case True
    then have "(i, n, d) \<notin> ?U" for n d by (auto simp: ks concerns_update)
    with latest have "?e = None" by (auto simp: is_latest_def split: option.splits)
    moreover have "table_after D msgs i = None" using True by (intro table_empty) blast
    ultimately show ?thesis by simp
  next
    case False
    have fin: "finite ?K" by simp
    define j where "j = Max ?K"
    then have "j \<in> ?K" using Max_in [OF fin False] by simp
    then obtain n' d' where j: "j < length msgs" "message_update (avro D) (codec D) (msgs ! j) = Some (i, n', d')"
      by (auto simp: concerns_update)
    have later: "\<not> concerns (avro D) (codec D) msgs i l" if "j < l" "l < length msgs" for l
    proof
      assume "concerns (avro D) (codec D) msgs i l"
      with that(2) have "l \<le> j" unfolding j_def by (intro Max_ge [OF fin]) simp
      with that(1) show False by simp
    qed
    have in_U: "(i, n', d') \<in> ?U" using j ks by auto
    then obtain n d where e1: "?e = Some (n, d)"
      using latest by (cases ?e) (auto simp only: is_latest_def option.case surj_pair)
    have e: "?e = Some (n, d)" "(i, n, d) \<in> ?U" "double_of_int n' \<le> double_of_int n"
      using latest in_U unfolding e1 is_latest_def option.case prod.case by blast+
    from e(2) obtain k where k: "k < length msgs" "message_update (avro D) (codec D) (msgs ! k) = Some (i, n, d)"
      by (auto simp: ks)
    then have "k \<le> j" unfolding j_def by (intro Max_ge [OF fin]) (simp add: concerns_update)
    from newest_lastD [OF assms(3) j(1) this k(2) j(2) later] e(3) have "d = d'" by simp
    with e(1) table_last [OF j later] show ?thesis by simp
  qed
qed

lemma cache_shows_table:
  assumes "consistent_pipeline D p" "newest_last D (topic p)"
    and "saved_offset (updater p) = length (topic p)" "\<not> retries_exhausted (trace (inst (updater p)))"
  shows "cached_document D p = table_after D (topic p)"
proof
  fix i
  have "updater_replay.walked (redis D) (codec D) (avro D) (codec D) (\<lambda>_. None) (topic p) (updater p)"
    using assms(1) by (simp add: consistent_pipeline_def)
  from updater_replay.walked_caught_up [OF this assms(3,4)] obtain ks where
    ks: "walk ks (length (topic p))" "set ks \<subseteq> {..<length (topic p)}" and
    "cache_view (redis D) (server (client_of (updater p))) = replayed (put_version (codec D)) (avro D) (codec D) (topic p) ks (\<lambda>_. None)"
    unfolding client_of_def by blast
  with walk_caches_table [OF ks assms(2)] show "cached_document D p i = table_after D (topic p) i"
    by (simp add: cached_document_def)
qed

lemma index_shows_table:
  assumes "consistent_pipeline D p"
    and "saved_offset (indexer p) = length (topic p)" "\<not> retries_exhausted (trace (inst (indexer p)))"
  shows "indexed_document D p = table_after D (topic p)"
proof
  fix i
  have "indexer_replay.walked (elastic D) (elastic_url D) (codec D) (avro D) (codec D) (\<lambda>_. None) (topic p) (indexer p)"
    using assms(1) by (simp add: consistent_pipeline_def)
  from indexer_replay.walked_caught_up [OF this assms(2,3)] obtain ks where
    ks: "walk ks (length (topic p))" "set ks \<subseteq> {..<length (topic p)}" and
    "indexed_document D p = replayed (put_row (codec D)) (avro D) (codec D) (topic p) ks (\<lambda>_. None)"
    unfolding client_of_def indexed_document_def by blast
  with walk_shows_table [OF ks] show "indexed_document D p i = table_after D (topic p) i" by simp
qed

section \<open>Catching up\<close>

lemma reachable_steps: "(pipeline_step D)\<^sup>*\<^sup>* p p' \<Longrightarrow> reachable D p \<Longrightarrow> reachable D p'"
  by (induction rule: rtranclp_induct) (auto intro: reachable.step)

lemma updating_steps:
  "(updater_step D (topic p))\<^sup>*\<^sup>* (updater p) g \<Longrightarrow>
   \<exists>m. (pipeline_step D)\<^sup>*\<^sup>* p (p\<lparr>updater := g, mailer := m\<rparr>)"
proof (induction rule: rtranclp_induct)
  case base
  then show ?case by (intro exI [of _ "mailer p"]) simp
next
  case (step g g')
  then obtain m where m: "(pipeline_step D)\<^sup>*\<^sup>* p (p\<lparr>updater := g, mailer := m\<rparr>)" by blast
  have "pipeline_step D (p\<lparr>updater := g, mailer := m\<rparr>) (p\<lparr>updater := g', mailer := see_server g' m\<rparr>)"
    using pipeline_step.updating [of D "p\<lparr>updater := g, mailer := m\<rparr>" g'] step.hyps(2) by simp
  with m show ?case by (blast intro: rtranclp.rtrancl_into_rtrancl)
qed

lemma indexing_steps:
  "(indexer_step D (topic p))\<^sup>*\<^sup>* (indexer p) g \<Longrightarrow> (pipeline_step D)\<^sup>*\<^sup>* p (p\<lparr>indexer := g\<rparr>)"
proof (induction rule: rtranclp_induct)
  case base
  then show ?case by simp
next
  case (step g g')
  have "pipeline_step D (p\<lparr>indexer := g\<rparr>) (p\<lparr>indexer := g'\<rparr>)"
    using pipeline_step.indexing [of D "p\<lparr>indexer := g\<rparr>" g'] step.hyps(2) by simp
  with step.IH show ?case by (blast intro: rtranclp.rtrancl_into_rtrancl)
qed

definition well_formed_topic :: "('v, 'r, 'e) deployment \<Rightarrow> message list \<Rightarrow> bool" where
  "well_formed_topic D msgs \<longleftrightarrow>
     list_all (\<lambda>msg. case (deserialize (avro D) (m_payload msg), message_key (avro D) (codec D) msg) of
        (Some doc, Inr key) \<Rightarrow> well_formed (codec D) doc key
      | _ \<Rightarrow> False) msgs"

lemma well_formed_topicD:
  assumes "well_formed_topic D msgs" "msg \<in> set msgs"
  obtains doc key where "deserialize (avro D) (m_payload msg) = Some doc" "message_key (avro D) (codec D) msg = Inr key"
    "well_formed (codec D) doc key"
  using assms that
  by (cases "deserialize (avro D) (m_payload msg)"; cases "message_key (avro D) (codec D) msg")
    (auto simp: well_formed_topic_def list_all_iff)

lemma default_retries [simp]: "max_retries (default_config name t) = 5"
  by (simp add: default_config_def make_config_def)

lemma updater_catches_up:
  fixes g :: "'r redis_client group"
  assumes "well_formed_topic D msgs" "in_log msgs g"
  shows "\<exists>g'. (updater_step D msgs)\<^sup>*\<^sup>* g g' \<and> saved_offset g' = length msgs
    \<and> (retries_exhausted (trace (inst g')) \<longleftrightarrow> retries_exhausted (trace (inst g)))"
  unfolding updater_step_def
proof (rule group_catches_up [where good = healthy and ?w0.0 = "(sink (inst g))\<lparr>redis_ctx := CtxOk, cmd_plan := []\<rparr>", OF assms(2)])
  fix msg and w :: "'r redis_client"
  assume m: "msg \<in> set msgs" and w: "healthy w"
  from assms(1) m obtain doc key where d: "deserialize (avro D) (m_payload msg) = Some doc"
      "message_key (avro D) (codec D) msg = Inr key" "well_formed (codec D) doc key" by (rule well_formed_topicD)
  obtain w' where "redis_process (codec D) (redis D) doc key (m_offset msg) w = (Inr (), w')" "healthy w'"
    using updater_accepts [OF d(3) w] by blast
  with d show "\<exists>doc key w'. deserialize (avro D) (m_payload msg) = Some doc \<and> message_key (avro D) (codec D) msg = Inr key
      \<and> redis_process (codec D) (redis D) doc key (m_offset msg) w = (Inr (), w') \<and> healthy w'" by blast
qed (simp_all add: same_server_def healthy_def)

lemma indexer_catches_up:
  fixes g :: "'e es_client group"
  assumes "well_formed_topic D msgs" "in_log msgs g" "es_reliable (elastic D)"
  shows "\<exists>g'. (indexer_step D msgs)\<^sup>*\<^sup>* g g' \<and> saved_offset g' = length msgs
    \<and> (retries_exhausted (trace (inst g')) \<longleftrightarrow> retries_exhausted (trace (inst g)))"
  unfolding indexer_step_def
proof (rule group_catches_up [where good = "\<lambda>_. True" and ?w0.0 = "sink (inst g)", OF assms(2)])
  fix msg and w :: "'e es_client"
  assume m: "msg \<in> set msgs"
  from assms(1) m obtain doc key where d: "deserialize (avro D) (m_payload msg) = Some doc"
      "message_key (avro D) (codec D) msg = Inr key" "well_formed (codec D) doc key" by (rule well_formed_topicD)
  obtain w' where "es_process (codec D) (elastic D) (elastic_url D) doc key (m_offset msg) w = (Inr (), w')"
    using indexer_accepts [OF d(3) assms(3)] by blast
  with d show "\<exists>doc key w'. deserialize (avro D) (m_payload msg) = Some doc \<and> message_key (avro D) (codec D) msg = Inr key
      \<and> es_process (codec D) (elastic D) (elastic_url D) doc key (m_offset msg) w = (Inr (), w') \<and> True" by blast
qed (simp_all add: same_index_def)

lemma stores_catch_up:
  assumes "lawful D" "es_reliable (elastic D)" "reachable D p" "plain_topic D (topic p)" "well_formed_topic D (topic p)"
  obtains p' where "(pipeline_step D)\<^sup>*\<^sup>* p p'" "topic p' = topic p"
    "saved_offset (updater p') = length (topic p)" "saved_offset (indexer p') = length (topic p)"
    "retries_exhausted (trace (inst (updater p'))) \<longleftrightarrow> retries_exhausted (trace (inst (updater p)))"
    "retries_exhausted (trace (inst (indexer p'))) \<longleftrightarrow> retries_exhausted (trace (inst (indexer p)))"
proof -
  have "consistent_pipeline D p" by (rule reachable_consistent [OF assms(3,1,4)])
  then have bounds: "in_log (topic p) (updater p)" "in_log (topic p) (indexer p)"
    by (simp_all add: consistent_pipeline_def updater_sink.accounted_def indexer_sink.accounted_def)
  obtain u where u: "(updater_step D (topic p))\<^sup>*\<^sup>* (updater p) u" "saved_offset u = length (topic p)"
      "retries_exhausted (trace (inst u)) \<longleftrightarrow> retries_exhausted (trace (inst (updater p)))"
    using updater_catches_up [OF assms(5) bounds(1)] by blast
  obtain x where x: "(indexer_step D (topic p))\<^sup>*\<^sup>* (indexer p) x" "saved_offset x = length (topic p)"
      "retries_exhausted (trace (inst x)) \<longleftrightarrow> retries_exhausted (trace (inst (indexer p)))"
    using indexer_catches_up [OF assms(5) bounds(2) assms(2)] by blast
  obtain m where 1: "(pipeline_step D)\<^sup>*\<^sup>* p (p\<lparr>updater := u, mailer := m\<rparr>)" using updating_steps [OF u(1)] by blast
  have 2: "(pipeline_step D)\<^sup>*\<^sup>* (p\<lparr>updater := u, mailer := m\<rparr>) (p\<lparr>updater := u, mailer := m, indexer := x\<rparr>)"
    using indexing_steps [of D "p\<lparr>updater := u, mailer := m\<rparr>" x] x(1) by simp
  from rtranclp_trans [OF 1 2] show thesis by (rule that) (use u x in simp_all)
qed

section \<open>Properties\<close>

text \<open>
 The stores converge to the table. In every reachable state of the pipeline, whatever the
  interleaving of the consumers, their connection failures, stops, crashes, lost commits and restarts:
  once the groups of \<open>RedisUpdater\<close> and \<open>ESIndexer\<close> have committed the whole topic and no record of theirs
  ran out of retries, the cache and the search index both hold, for every order, the last document of the
  topic, and none for a deleted order.
\<close>

theorem pipeline_converges:
  assumes "lawful D" "reachable D p" "plain_topic D (topic p)" "newest_last D (topic p)"
    and "saved_offset (updater p) = length (topic p)" "\<not> retries_exhausted (trace (inst (updater p)))"
    and "saved_offset (indexer p) = length (topic p)" "\<not> retries_exhausted (trace (inst (indexer p)))"
  shows "cached_document D p i = table_after D (topic p) i \<and> indexed_document D p i = table_after D (topic p) i"
proof -
  have "consistent_pipeline D p" by (rule reachable_consistent [OF assms(2,1,3)])
  with cache_shows_table [OF this assms(4-6)] index_shows_table [OF this assms(7,8)] show ?thesis by simp
qed

text \<open>A deployment and a first state for the witnesses: one message, nothing consumed yet.\<close>

definition sample_deployment :: "(unit, string \<Rightarrow> string option, string \<Rightarrow> string option) deployment" where
  "sample_deployment =
     \<lparr>avro = sample_avro, codec = sample_env, redis = map_redis, elastic = map_es, elastic_url = ''http://es'',
      topic_name = ''orders''\<rparr>"

definition sample_pipeline :: "(string \<Rightarrow> string option, string \<Rightarrow> string option) pipeline" where
  "sample_pipeline =
     \<lparr>topic = [sample_message 0 ''evt''], updater = group_start (sample_consumer sample_client),
      mailer = group_start (sample_consumer sample_client), indexer = group_start (sample_consumer sample_index)\<rparr>"

lemma sample_parts [simp]:
  "avro sample_deployment = sample_avro" "codec sample_deployment = sample_env" "redis sample_deployment = map_redis"
  "elastic sample_deployment = map_es" "elastic_url sample_deployment = ''http://es''"
  "topic sample_pipeline = [sample_message 0 ''evt'']"
  "trace (inst (updater sample_pipeline)) = []" "trace (inst (indexer sample_pipeline)) = []"
  by (simp_all add: sample_deployment_def sample_pipeline_def group_start_def sample_consumer_def)

lemma sample_lawful: "lawful sample_deployment"
  by (simp add: lawful_def)

lemma sample_reachable: "reachable sample_deployment sample_pipeline"
proof -
  let ?p = "sample_pipeline\<lparr>topic := []\<rparr>"
  have "pipeline_start sample_deployment ?p"
    unfolding pipeline_start_def
    by (intro exI [of _ "sample_consumer sample_client"] exI [of _ "sample_consumer sample_index"])
      (simp add: sample_pipeline_def sample_client_def map_redis_def map_es_def es_view_of_def sample_index_def)
  moreover have "pipeline_step sample_deployment ?p (?p\<lparr>topic := topic ?p @ [sample_message 0 ''evt'']\<rparr>)"
    by (rule pipeline_step.published) (simp add: sample_message_def)
  then have "pipeline_step sample_deployment ?p sample_pipeline"
    by (simp add: sample_pipeline_def)
  ultimately show ?thesis by (blast intro: reachable.intros)
qed

lemma sample_reads:
  "deserialize sample_avro (m_payload (sample_message 0 ''evt'')) = Some (sample_record ''7'' ''SHIPPED'' 12)"
  "message_key sample_avro sample_env (sample_message 0 ''evt'') = Inr ''7''"
  by (simp_all add: deserialize_def wire_format_def sample_avro_def sample_message_def message_key_def decoded_key_def)

lemma sample_message_update:
  "message_update sample_avro sample_env (sample_message 0 ''evt'') = Some (''7'', 12, Some ''{}'')"
  by (simp add: message_update_def sample_reads sample_update)

lemma sample_topic:
  "plain_topic sample_deployment [sample_message 0 ''evt'']" "newest_last sample_deployment [sample_message 0 ''evt'']"
  "well_formed_topic sample_deployment [sample_message 0 ''evt'']"
  "table_after sample_deployment [sample_message 0 ''evt''] ''7'' = Some ''{}''"
  by (simp_all add: plain_topic_def all_fit_def message_fits_def sample_reads plain_record_def sample_update
      newest_last_def sample_message_update well_formed_topic_def well_formed_def sample_classify sample_unwrap
      sample_status table_after_def effect_row)

theorem pipeline_converges_witness:
  "\<exists>p. reachable sample_deployment p \<and> cached_document sample_deployment p ''7'' = Some ''{}''
     \<and> indexed_document sample_deployment p ''7'' = Some ''{}''"
proof -
  have rel: "es_reliable (elastic sample_deployment)" by simp
  obtain p where p: "(pipeline_step sample_deployment)\<^sup>*\<^sup>* sample_pipeline p" "topic p = topic sample_pipeline"
      "saved_offset (updater p) = length (topic sample_pipeline)" "saved_offset (indexer p) = length (topic sample_pipeline)"
      "\<not> retries_exhausted (trace (inst (updater p)))" "\<not> retries_exhausted (trace (inst (indexer p)))"
    using stores_catch_up [OF sample_lawful rel sample_reachable] sample_topic
    by (auto simp: retries_exhausted_def)
  have r: "reachable sample_deployment p" using p(1) sample_reachable by (rule reachable_steps)
  with pipeline_converges [OF sample_lawful r, of "''7''"] p sample_topic show ?thesis by auto
qed

text \<open>
 The pipeline recovers. From every reachable state in which no record of the two stores ran out of
  retries, however far the consumers have got and whatever has failed before: when the topic holds
  well-formed order events and the stores are up again, there is a way on in which the groups reach the
  end of the topic, and then both stores show the table.
\<close>

theorem pipeline_recovers:
  assumes "lawful D" "es_reliable (elastic D)" "reachable D p"
    and "plain_topic D (topic p)" "newest_last D (topic p)" "well_formed_topic D (topic p)"
    and "\<not> retries_exhausted (trace (inst (updater p)))" "\<not> retries_exhausted (trace (inst (indexer p)))"
  shows "\<exists>p'. (pipeline_step D)\<^sup>*\<^sup>* p p' \<and> topic p' = topic p
    \<and> saved_offset (updater p') = length (topic p) \<and> saved_offset (indexer p') = length (topic p)
    \<and> cached_document D p' = table_after D (topic p) \<and> indexed_document D p' = table_after D (topic p)"
  using assms(1-4,6)
proof (rule stores_catch_up)
  fix p'
  assume p': "(pipeline_step D)\<^sup>*\<^sup>* p p'" "topic p' = topic p"
    "saved_offset (updater p') = length (topic p)" "saved_offset (indexer p') = length (topic p)"
    "retries_exhausted (trace (inst (updater p'))) \<longleftrightarrow> retries_exhausted (trace (inst (updater p)))"
    "retries_exhausted (trace (inst (indexer p'))) \<longleftrightarrow> retries_exhausted (trace (inst (indexer p)))"
  have "consistent_pipeline D p'"
    by (rule reachable_consistent [OF reachable_steps [OF p'(1) assms(3)] assms(1)]) (simp add: p'(2) assms(4))
  with cache_shows_table [OF this] index_shows_table [OF this] p' assms(5,7,8) show ?thesis
    by (intro exI [of _ p']) simp
qed

theorem pipeline_recovers_witness:
  "\<exists>p. (pipeline_step sample_deployment)\<^sup>*\<^sup>* sample_pipeline p
     \<and> cached_document sample_deployment p ''7'' = Some ''{}'' \<and> indexed_document sample_deployment p ''7'' = Some ''{}''"
proof -
  have rel: "es_reliable (elastic sample_deployment)" by simp
  from pipeline_recovers [OF sample_lawful rel sample_reachable] sample_topic show ?thesis
    by (auto simp: retries_exhausted_def)
qed

text \<open>
  C5. Nothing committed is lost in silence. In every reachable state, with or without producers of dead
  letters and whatever \<open>produce\<close> refuses, every message below the offset saved for a
  group is settled for it: \<open>RedisUpdater\<close>'s update is in the cache or a version at least as new, the
  e-mail a message asks \<open>Notifier\<close> for is claimed, Elasticsearch has acknowledged \<open>ESIndexer\<close>'s document;
  or the producer has taken the message's dead letter into its queue; or the log line right before the commit
  says that \<open>RouteToDLQ\<close> failed. The clients share one Redis server.
\<close>

theorem pipeline_no_loss:
  assumes "lawful D" "reachable D p" "plain_topic D (topic p)"
  shows "settled_below (cached (codec D) (redis D)) (updater_config D) (avro D) (codec D) (topic p)
        (saved_offset (updater p)) (inst (updater p))
    \<and> settled_below (claimed (codec D) (redis D)) (mailer_config D) (avro D) (codec D) (topic p)
        (saved_offset (mailer p)) (inst (mailer p))
    \<and> settled_below (acknowledged (codec D)) (indexer_config D) (avro D) (codec D) (topic p)
        (saved_offset (indexer p)) (inst (indexer p))"
proof -
  have "saved_offset g \<le> resume_at g" if "in_log msgs g" for msgs and g :: "'w group"
    using that by (simp add: in_log_def resume_at_def)
  moreover have "consistent_pipeline D p" by (rule reachable_consistent [OF assms(2,1,3)])
  ultimately show ?thesis
    unfolding consistent_pipeline_def updater_sink.accounted_def mailer_sink.accounted_def indexer_sink.accounted_def
    by (auto intro: settled_below_mono simp: in_log_def resume_at_def)
qed

theorem pipeline_no_loss_witness:
  "\<exists>p. reachable sample_deployment p \<and> saved_offset (updater p) = 1 \<and>
     settled_below (cached sample_env map_redis) (updater_config sample_deployment) sample_avro sample_env (topic p) 1 (inst (updater p))"
proof -
  have rel: "es_reliable (elastic sample_deployment)" by simp
  obtain p where p: "(pipeline_step sample_deployment)\<^sup>*\<^sup>* sample_pipeline p" "topic p = topic sample_pipeline"
      "saved_offset (updater p) = length (topic sample_pipeline)"
    using stores_catch_up [OF sample_lawful rel sample_reachable] sample_topic by auto
  have r: "reachable sample_deployment p" using p(1) sample_reachable by (rule reachable_steps)
  with pipeline_no_loss [OF sample_lawful r] p sample_topic show ?thesis by auto
qed

text \<open>
  C6. At most one e-mail per order and status in every reachable state, over crashes and restarts of
  \<open>Notifier\<close> between setting the key and committing, and with \<open>RedisUpdater\<close> writing to the same server.
\<close>

theorem pipeline_one_email:
  assumes "lawful D" "reachable D p" "plain_topic D (topic p)"
  shows "emails i st (client_of (mailer p)) \<le> 1"
proof (cases "st = ''SHIPPED'' \<or> st = ''DELIVERED''")
  case True
  have "mails_guarded (redis D) (client_of (mailer p))"
    using reachable_consistent [OF assms(2,1,3)] by (simp add: consistent_pipeline_def)
  from mails_guardedD [OF this True, of i] show ?thesis by (simp split: if_splits)
next
  case False
  with reachable_other_mails [OF assms(2)] assms(1) show ?thesis by (simp add: lawful_def)
qed

lemma sample_mail:
  "\<exists>g. mailer_step sample_deployment (topic sample_pipeline) (mailer sample_pipeline) g
    \<and> emails ''7'' ''SHIPPED'' (client_of g) = 1"
proof -
  let ?r = "sample_record ''7'' ''SHIPPED'' 12" and ?b = "sample_consumer sample_client"
  obtain res w where p: "notifier_process sample_env map_redis ?r ''7'' 0 sample_client = (res, w)" by fastforce
  have asks: "notification_for sample_env ?r ''7'' = Some (''guest'', ''7'', ''SHIPPED'')"
    by (simp add: notification_for_def sample_facts customer_of_def) (simp add: sample_doc_def contains_def)
  have "notify map_redis ''guest'' ''7'' ''SHIPPED'' 0 sample_client = (res, w)"
    using p asks by (cases rule: notifier_process_cases) auto
  from notify_healthy [OF map_redis_laws sample_healthy this, of "''7''" "''SHIPPED''"]
  have w: "res = Inr ()" "emails ''7'' ''SHIPPED'' w = 1"
    by (simp_all add: map_redis_def sample_client_def emails_def)
  have "group_step (mailer_config sample_deployment) sample_avro sample_env (notifier_process sample_env map_redis) same_server
      [sample_message 0 ''evt''] (group_start ?b)
      \<lparr>next_offset = Suc (next_offset (group_start ?b)), saved_offset = Suc (next_offset (group_start ?b)),
       inst = (inst (group_start ?b))\<lparr>sink := w, trace := trace (inst (group_start ?b)) @ accepted_effects
         (m_offset ([sample_message 0 ''evt''] ! next_offset (group_start ?b)))\<rparr>\<rparr>"
    by (rule accepted_step [where doc = ?r and key = "''7''"])
      (use p w(1) in \<open>simp_all add: group_start_def sample_reads, simp_all add: sample_consumer_def sample_message_def\<close>)
  with w(2) show ?thesis
    by (intro exI conjI) (simp add: mailer_step_def sample_pipeline_def, simp add: client_of_def)
qed

theorem pipeline_one_email_witness:
  "\<exists>p. reachable sample_deployment p \<and> emails ''7'' ''SHIPPED'' (client_of (mailer p)) = 1
     \<and> emails ''7'' ''SHIPPED'' (client_of (mailer p)) \<le> 1"
proof -
  obtain g where g: "mailer_step sample_deployment (topic sample_pipeline) (mailer sample_pipeline) g"
    "emails ''7'' ''SHIPPED'' (client_of g) = 1" using sample_mail by blast
  have r: "reachable sample_deployment (sample_pipeline\<lparr>mailer := g, updater := see_server g (updater sample_pipeline)\<rparr>)"
    using sample_reachable pipeline_step.mailing [OF g(1)] by (rule reachable.step)
  from pipeline_one_email [OF sample_lawful r, of "''7''" "''SHIPPED''"] r g(2) sample_topic show ?thesis
    by (intro exI conjI) (assumption | simp)+
qed

end
