(* ===== verification/Order_Api.thy ===== *)
theory Order_Api
  imports Redis_Updater
begin

text \<open>
  The order API (\<open>api/src\<close>): the identifiers it makes up, its database client with the SQL it
  sends, its Redis client, and the three HTTP handlers. PostgreSQL, Redis, the JSON parser and the
  printing of doubles are parameters.
\<close>

section \<open>Identifiers\<close>

text \<open>
  \<open>generate_uuid\<close>: \<open>draw k\<close> is the \<open>k\<close>th number of the generator; \<open>dis\<close> maps it to 0 to 15 and
  \<open>dis2\<close> to 8 to 11.
\<close>

definition hex_char :: "nat \<Rightarrow> char" where
  "hex_char d = ''0123456789abcdef'' ! d"

definition dis :: "(nat \<Rightarrow> nat) \<Rightarrow> nat \<Rightarrow> nat \<Rightarrow> string" where
  "dis draw from n = map (\<lambda>k. hex_char (draw k mod 16)) [from..<from + n]"

definition generate_uuid :: "(nat \<Rightarrow> nat) \<Rightarrow> nat \<Rightarrow> string" where
  "generate_uuid draw k =
     dis draw k 8 @ ''-'' @ dis draw (k + 8) 4 @ ''-4'' @ dis draw (k + 12) 3 @ ''-'' @
     [hex_char (8 + draw (k + 15) mod 4)] @ dis draw (k + 16) 3 @ ''-'' @ dis draw (k + 19) 12"

definition uuid_draws :: nat where "uuid_draws = 31"

section \<open>Parameters and state\<close>

text \<open>The exceptions the handlers tell apart: those of the JSON library and all others.\<close>

datatype api_error = JsonError string | StdError string

type_synonym 'a attempt = "api_error + 'a"

text \<open>
  \<open>run_sql\<close> is a transaction of one statement with its parameters, committed: an error or the number
  of rows affected; \<open>query_sql\<close> a query: an error or the rows, a column that is null being \<open>None\<close>.
\<close>

record 'd pg_api =
  run_sql :: "string \<Rightarrow> string list \<Rightarrow> 'd \<Rightarrow> (string + nat) \<times> 'd"
  query_sql :: "string \<Rightarrow> 'd \<Rightarrow> (string + string option list list) \<times> 'd"

record api_env =
  json_env :: cpp_env
  parse_json :: "string \<Rightarrow> string + json"
  print_double :: "rat \<Rightarrow> string"
  read_double :: "string \<Rightarrow> rat option"

text \<open>What becomes of a \<open>GET\<close>: answered, no reply, or a reply of another type.\<close>

datatype get_fate = GetServed | GetNoReply | GetOddReply

record ('d, 'r) api_state =
  db :: 'd
  kv :: 'r
  connected :: bool
  get_plan :: "get_fate list"
  draw :: "nat \<Rightarrow> nat"
  draws :: nat
  api_log :: "log_entry list"

definition api_event :: "log_entry \<Rightarrow> ('d, 'r) api_state \<Rightarrow> ('d, 'r) api_state" where
  "api_event e s = s\<lparr>api_log := api_log s @ [e]\<rparr>"

section \<open>DatabaseClient\<close>

definition insert_sql :: "string \<Rightarrow> string \<Rightarrow> string \<Rightarrow> string \<Rightarrow> string" where
  \<open>insert_sql order_id user_id amount items =
     ''INSERT INTO orders (id, user_id, total_amount, status, items_jsonb) VALUES ('' @
     [CHR 0x27] @ order_id @ [CHR 0x27] @ '', '' @ [CHR 0x27] @ user_id @ [CHR 0x27] @ '', '' @ amount @ '', '' @
     [CHR 0x27] @ ''CREATED'' @ [CHR 0x27] @ '', '' @ [CHR 0x27] @ items @ [CHR 0x27] @ '')''\<close>

definition select_sql :: "string \<Rightarrow> string" where
  "select_sql order_id =
     ''SELECT id, user_id, total_amount, status, items_jsonb FROM orders WHERE id = '' @
     [CHR 0x27] @ order_id @ [CHR 0x27]"

definition update_sql :: string where
  "update_sql = ''UPDATE orders SET status = $1 WHERE id = $2''"

definition create_order ::
    "api_env \<Rightarrow> 'd pg_api \<Rightarrow> string \<Rightarrow> rat \<Rightarrow> json \<Rightarrow> ('d, 'r) api_state
      \<Rightarrow> string attempt \<times> ('d, 'r) api_state" where
  "create_order env pg user_id amount items s =
     (let order_id = generate_uuid (draw s) (draws s); s1 = s\<lparr>draws := draws s + uuid_draws\<rparr> in
      case dump (json_env env) items of
        Inl e \<Rightarrow> (Inl (JsonError e), api_event (''db_insert_failed'', [e]) s1)
      | Inr text \<Rightarrow>
          (case run_sql pg (insert_sql order_id user_id (print_double env amount) text) [] (db s1) of
             (Inl e, d) \<Rightarrow> (Inl (StdError e), api_event (''db_insert_failed'', [e]) (s1\<lparr>db := d\<rparr>))
           | (Inr _, d) \<Rightarrow> (Inr order_id, api_event (''order_created_db'', [order_id]) (s1\<lparr>db := d\<rparr>))))"

definition update_order_status ::
    "'d pg_api \<Rightarrow> string \<Rightarrow> string \<Rightarrow> ('d, 'r) api_state \<Rightarrow> bool attempt \<times> ('d, 'r) api_state" where
  "update_order_status pg order_id new_status s =
     (case run_sql pg update_sql [new_status, order_id] (db s) of
        (Inl e, d) \<Rightarrow> (Inl (StdError e), api_event (''db_update_failed'', [order_id, e]) (s\<lparr>db := d\<rparr>))
      | (Inr n, d) \<Rightarrow>
          (Inr (0 < n),
           if 0 < n then api_event (''order_status_updated_db'', [order_id, new_status]) (s\<lparr>db := d\<rparr>)
           else s\<lparr>db := d\<rparr>))"

text \<open>The members of the row, in the order of \<open>nlohmann::json\<close>; a null or malformed column throws.\<close>

definition order_of_row :: "api_env \<Rightarrow> string option list \<Rightarrow> json attempt" where
  "order_of_row env row =
     (case row of
        [Some i, Some u, Some amount, Some st, Some items] \<Rightarrow>
          (case read_double env amount of
             None \<Rightarrow> Inl (StdError ''conversion'')
           | Some a \<Rightarrow>
               (case parse_json env items of
                  Inl e \<Rightarrow> Inl (JsonError e)
                | Inr its \<Rightarrow>
                    Inr (JObj [(''id'', JStr i), (''items_jsonb'', its), (''status'', JStr st),
                               (''total_amount'', JDouble a), (''user_id'', JStr u)])))
      | _ \<Rightarrow> Inl (StdError ''conversion''))"

definition attempt_text :: "api_error \<Rightarrow> string" where
  "attempt_text e = (case e of JsonError m \<Rightarrow> m | StdError m \<Rightarrow> m)"

definition get_order_by_id ::
    "api_env \<Rightarrow> 'd pg_api \<Rightarrow> string \<Rightarrow> ('d, 'r) api_state \<Rightarrow> json option attempt \<times> ('d, 'r) api_state" where
  "get_order_by_id env pg order_id s =
     (case query_sql pg (select_sql order_id) (db s) of
        (Inl e, d) \<Rightarrow> (Inl (StdError e), api_event (''db_read_failed'', [e]) (s\<lparr>db := d\<rparr>))
      | (Inr [], d) \<Rightarrow> (Inr None, s\<lparr>db := d\<rparr>)
      | (Inr (row # _), d) \<Rightarrow>
          (case order_of_row env row of
             Inl e \<Rightarrow> (Inl e, api_event (''db_read_failed'', [attempt_text e]) (s\<lparr>db := d\<rparr>))
           | Inr j \<Rightarrow> (Inr (Some j), s\<lparr>db := d\<rparr>)))"

section \<open>RedisClient\<close>

text \<open>
  \<open>Get\<close>: the key ends at its first NUL, as a C string. Without a context it throws, and a command
  without a reply frees the context; nothing ever makes a new one.
\<close>

definition c_string :: "string \<Rightarrow> string" where
  "c_string t = takeWhile (\<lambda>c. c \<noteq> CHR 0x00) t"

definition cache_get ::
    "'r redis_api \<Rightarrow> string \<Rightarrow> ('d, 'r) api_state \<Rightarrow> string option attempt \<times> ('d, 'r) api_state" where
  "cache_get api key s =
     (if \<not> connected s then (Inl (StdError ''Redis context is null''), s)
      else
        (case get_plan s of
           GetNoReply # rest \<Rightarrow>
             (Inl (StdError ''Redis command failed or timed out''), s\<lparr>connected := False, get_plan := rest\<rparr>)
         | GetOddReply # rest \<Rightarrow> (Inl (StdError ''Unexpected Redis reply type''), s\<lparr>get_plan := rest\<rparr>)
         | rest \<Rightarrow> (Inr (map_option c_string (redis_get api (c_string key) (kv s))), s\<lparr>get_plan := tl rest\<rparr>)))"

section \<open>Handlers\<close>

record http_reply =
  reply_status :: nat
  reply_body :: string

abbreviation reply_text :: "nat \<Rightarrow> string \<Rightarrow> http_reply" where
  "reply_text st t \<equiv> \<lparr>reply_status = st, reply_body = t\<rparr>"

definition bad_request :: http_reply where
  \<open>bad_request = reply_text 400 ''{"error": "Invalid JSON payload"}''\<close>
definition server_error :: http_reply where
  \<open>server_error = reply_text 500 ''{"error": "Internal Server Error"}''\<close>
definition not_found :: http_reply where
  \<open>not_found = reply_text 404 ''{"error": "Order not found"}''\<close>

text \<open>\<open>j.at(k)\<close>: 304 on a document that is no object, 403 for a missing key.\<close>

definition at_checked :: "cpp_env \<Rightarrow> json \<Rightarrow> string \<Rightarrow> json attempt" where
  "at_checked env j k =
     (if is_object j then (case member_of j k of None \<Rightarrow> Inl (JsonError (type_error env 403 j)) | Some v \<Rightarrow> Inr v)
      else Inl (JsonError (type_error env 304 j)))"

definition get_text :: "cpp_env \<Rightarrow> json \<Rightarrow> string attempt" where
  "get_text env j = (case j of JStr t \<Rightarrow> Inr t | _ \<Rightarrow> Inl (JsonError (type_error env 302 j)))"

definition get_double :: "cpp_env \<Rightarrow> json \<Rightarrow> rat attempt" where
  "get_double env j =
     (case j of
        JInt i \<Rightarrow> Inr (of_int (double_of_int i))
      | JDouble r \<Rightarrow> Inr r
      | _ \<Rightarrow> Inl (JsonError (type_error env 302 j)))"

definition parsed :: "api_env \<Rightarrow> string \<Rightarrow> json attempt" where
  "parsed env body = (case parse_json env body of Inl e \<Rightarrow> Inl (JsonError e) | Inr j \<Rightarrow> Inr j)"

text \<open>The catch clauses of the two writing handlers.\<close>

definition caught :: "api_error \<Rightarrow> ('d, 'r) api_state \<Rightarrow> http_reply \<times> ('d, 'r) api_state" where
  "caught e s =
     (case e of
        JsonError m \<Rightarrow> (bad_request, api_event (''api_bad_request'', [m]) s)
      | StdError m \<Rightarrow> (server_error, api_event (''api_server_error'', [m]) s))"

definition order_fields :: "api_env \<Rightarrow> string \<Rightarrow> (string \<times> rat \<times> json) attempt" where
  "order_fields env body =
     (let je = json_env env in
      case parsed env body of
        Inl e \<Rightarrow> Inl e
      | Inr j \<Rightarrow>
          (case at_checked je j ''user_id'' of
             Inl e \<Rightarrow> Inl e
           | Inr u \<Rightarrow>
               (case get_text je u of
                  Inl e \<Rightarrow> Inl e
                | Inr user_id \<Rightarrow>
                    (case at_checked je j ''total_amount'' of
                       Inl e \<Rightarrow> Inl e
                     | Inr a \<Rightarrow>
                         (case get_double je a of
                            Inl e \<Rightarrow> Inl e
                          | Inr amount \<Rightarrow>
                              (case at_checked je j ''items'' of
                                 Inl e \<Rightarrow> Inl e
                               | Inr items \<Rightarrow> Inr (user_id, amount, items)))))))"

definition post_order ::
    "api_env \<Rightarrow> 'd pg_api \<Rightarrow> string \<Rightarrow> ('d, 'r) api_state \<Rightarrow> http_reply \<times> ('d, 'r) api_state" where
  "post_order env pg body s =
     (case order_fields env body of
        Inl e \<Rightarrow> caught e s
      | Inr (user_id, amount, items) \<Rightarrow>
          (case create_order env pg user_id amount items s of
             (Inl e, s1) \<Rightarrow> caught e s1
           | (Inr order_id, s1) \<Rightarrow>
               (let s2 = api_event (''api_order_created'', [order_id]) s1 in
                case dump (json_env env) (JObj [(''id'', JStr order_id), (''status'', JStr ''CREATED'')]) of
                  Inl e \<Rightarrow> caught (JsonError e) s2
                | Inr t \<Rightarrow> (reply_text 201 t, s2))))"

definition patch_status ::
    "api_env \<Rightarrow> 'd pg_api \<Rightarrow> string \<Rightarrow> string \<Rightarrow> ('d, 'r) api_state \<Rightarrow> http_reply \<times> ('d, 'r) api_state" where
  \<open>patch_status env pg order_id body s =
     (case parsed env body of
        Inl e \<Rightarrow> caught e s
      | Inr j \<Rightarrow>
          (case at_checked (json_env env) j ''status'' of
             Inl e \<Rightarrow> caught e s
           | Inr st \<Rightarrow>
               (case get_text (json_env env) st of
                  Inl e \<Rightarrow> caught e s
                | Inr new_status \<Rightarrow>
                    (case update_order_status pg order_id new_status s of
                       (Inl e, s1) \<Rightarrow> caught e s1
                     | (Inr True, s1) \<Rightarrow>
                         (reply_text 200 ''{"updated": true}'',
                          api_event (''api_order_status_updated'', [order_id, new_status]) s1)
                     | (Inr False, s1) \<Rightarrow> (not_found, s1)))))\<close>

text \<open>
  \<open>response["source"] = v\<close>: the members of an object are sorted by key (bytes); null becomes an
  object; anything else throws (305).
\<close>

fun text_less :: "string \<Rightarrow> string \<Rightarrow> bool" where
  "text_less [] ys = (ys \<noteq> [])"
| "text_less (x # xs) [] = False"
| "text_less (x # xs) (y # ys) =
     ((of_char x :: nat) < of_char y \<or> x = y \<and> text_less xs ys)"

fun insert_member :: "string \<Rightarrow> json \<Rightarrow> (string \<times> json) list \<Rightarrow> (string \<times> json) list" where
  "insert_member k v [] = [(k, v)]"
| "insert_member k v ((k', v') # ms) =
     (if k = k' then (k, v) # ms else if text_less k k' then (k, v) # (k', v') # ms
      else (k', v') # insert_member k v ms)"

definition with_source :: "cpp_env \<Rightarrow> string \<Rightarrow> json \<Rightarrow> json attempt" where
  "with_source env v j =
     (case j of
        JObj ms \<Rightarrow> Inr (JObj (insert_member ''source'' (JStr v) ms))
      | JNull \<Rightarrow> Inr (JObj [(''source'', JStr v)])
      | _ \<Rightarrow> Inl (JsonError (type_error env 305 j)))"

text \<open>The document of a cached text, as the handler answers it.\<close>

definition cached_reply :: "api_env \<Rightarrow> string \<Rightarrow> string attempt" where
  "cached_reply env text =
     (case parsed env text of
        Inl e \<Rightarrow> Inl e
      | Inr j \<Rightarrow>
          (case with_source (json_env env) ''redis'' j of
             Inl e \<Rightarrow> Inl e
           | Inr j' \<Rightarrow> (case dump (json_env env) j' of Inl e \<Rightarrow> Inl (JsonError e) | Inr t \<Rightarrow> Inr t)))"

definition from_postgres ::
    "api_env \<Rightarrow> 'd pg_api \<Rightarrow> string \<Rightarrow> ('d, 'r) api_state \<Rightarrow> http_reply \<times> ('d, 'r) api_state" where
  "from_postgres env pg order_id s =
     (let failed = (\<lambda>m s. (server_error, api_event (''api_server_error'', [m]) s)) in
      case get_order_by_id env pg order_id s of
        (Inl e, s1) \<Rightarrow> failed (attempt_text e) s1
      | (Inr None, s1) \<Rightarrow> (not_found, s1)
      | (Inr (Some j), s1) \<Rightarrow>
          (let s2 = api_event (''api_db_hit'', [order_id]) s1 in
           case with_source (json_env env) ''postgres'' j of
             Inl e \<Rightarrow> failed (attempt_text e) s2
           | Inr j' \<Rightarrow>
               (case dump (json_env env) j' of
                  Inl e \<Rightarrow> failed e s2
                | Inr t \<Rightarrow> (reply_text 200 t, s2))))"

definition get_order ::
    "api_env \<Rightarrow> 'd pg_api \<Rightarrow> 'r redis_api \<Rightarrow> string \<Rightarrow> ('d, 'r) api_state \<Rightarrow> http_reply \<times> ('d, 'r) api_state" where
  "get_order env pg api order_id s =
     (let fall_back = (\<lambda>e s. from_postgres env pg order_id (api_event (''api_redis_fallback'', [attempt_text e, order_id]) s)) in
      case cache_get api (order_key order_id) s of
        (Inl e, s1) \<Rightarrow> fall_back e s1
      | (Inr None, s1) \<Rightarrow> from_postgres env pg order_id (api_event (''api_cache_miss'', [order_id]) s1)
      | (Inr (Some text), s1) \<Rightarrow>
          (let s2 = api_event (''api_cache_hit'', [order_id]) s1 in
           case cached_reply env text of
             Inl e \<Rightarrow> fall_back e s2
           | Inr t \<Rightarrow> (reply_text 200 t, s2)))"

end
