(* ===== verification/Order_Api_Properties.thy ===== *)
theory Order_Api_Properties
  imports Order_Api
begin

text \<open>
  What the order API promises: the form of its identifiers, when a statement means what it says,
  what each status code tells, how the cache and the database take turns in a read, and that an order
  the Redis sink has cached is served from the cache.
\<close>

section \<open>Identifiers\<close>

definition hex_digit_char :: "char \<Rightarrow> bool" where
  "hex_digit_char c \<longleftrightarrow> c \<in> set ''0123456789abcdef''"

lemma hex_char_ok: "d < 16 \<Longrightarrow> hex_digit_char (hex_char d)"
  unfolding hex_char_def hex_digit_char_def by (rule nth_mem) simp

lemma dis_digits: "list_all hex_digit_char (dis rnd k n)" "length (dis rnd k n) = n"
  by (simp_all add: dis_def list_all_iff hex_char_ok)

lemma variant_digit: "hex_char (8 + m mod 4) \<in> {CHR ''8'', CHR ''9'', CHR ''a'', CHR ''b''}"
proof -
  have "m mod 4 \<in> {0, 1, 2, 3}" by auto
  then show ?thesis by (auto simp: hex_char_def)
qed

definition uuid_v4 :: "string \<Rightarrow> bool" where
  "uuid_v4 u \<longleftrightarrow>
     (\<exists>a b c v d e. u = a @ ''-'' @ b @ ''-4'' @ c @ ''-'' @ [v] @ d @ ''-'' @ e
        \<and> length a = 8 \<and> length b = 4 \<and> length c = 3 \<and> length d = 3 \<and> length e = 12
        \<and> v \<in> {CHR ''8'', CHR ''9'', CHR ''a'', CHR ''b''}
        \<and> list_all hex_digit_char (a @ b @ c @ d @ e))"

lemma uuid_chars:
  assumes "uuid_v4 u" "x \<in> set u"
  shows "hex_digit_char x \<or> x = CHR ''-''"
proof -
  obtain a b c v d e where u: "u = a @ ''-'' @ b @ ''-4'' @ c @ ''-'' @ [v] @ d @ ''-'' @ e"
    and hex: "list_all hex_digit_char (a @ b @ c @ d @ e)" and v: "v \<in> {CHR ''8'', CHR ''9'', CHR ''a'', CHR ''b''}"
    using assms(1) unfolding uuid_v4_def by blast
  have "hex_digit_char v" "hex_digit_char (CHR ''4'')" using v by (auto simp: hex_digit_char_def)
  with u hex assms(2) show ?thesis by (auto simp: list_all_iff)
qed

lemma generated_v4: "uuid_v4 (generate_uuid rnd k)"
  unfolding uuid_v4_def generate_uuid_def
  using variant_digit [of "rnd (k + 15)"]
  by (intro exI [of _ "dis rnd k 8"] exI [of _ "dis rnd (k + 8) 4"] exI [of _ "dis rnd (k + 12) 3"]
      exI [of _ "hex_char (8 + rnd (k + 15) mod 4)"] exI [of _ "dis rnd (k + 16) 3"]
      exI [of _ "dis rnd (k + 19) 12"] conjI) (simp_all add: dis_digits)

lemma v4_facts:
  assumes "uuid_v4 u"
  shows "u \<noteq> []" "CHR 0x27 \<notin> set u" "CHR ''/'' \<notin> set u" "plain_id u"
proof -
  show "u \<noteq> []" using assms by (auto simp: uuid_v4_def)
  show "CHR 0x27 \<notin> set u" "CHR ''/'' \<notin> set u"
    using uuid_chars [OF assms] by (force simp: hex_digit_char_def)+
  show "plain_id u"
    unfolding plain_id_def
  proof
    assume "ends_with u '':lsn''"
    then obtain p where "u = p @ '':lsn''" by (rule ends_withE)
    then have "CHR '':'' \<in> set u" by simp
    then show False using uuid_chars [OF assms] by (force simp: hex_digit_char_def)
  qed
qed

text \<open>
  Every identifier the API makes up is a version 4 UUID in lower case. It has 36 characters, so
  it is never empty; it has no quote and no slash, so it is safe in the SQL and the URLs of the system;
  and it does not end in ":lsn", so that its cache key is never the guard key of another order.
\<close>

theorem uuid_format:
  "uuid_v4 (generate_uuid rnd k) \<and> length (generate_uuid rnd k) = 36
   \<and> CHR 0x27 \<notin> set (generate_uuid rnd k) \<and> CHR ''/'' \<notin> set (generate_uuid rnd k)
   \<and> plain_id (generate_uuid rnd k)"
  using generated_v4 [of rnd k] v4_facts [of "generate_uuid rnd k"] by (simp add: generate_uuid_def dis_digits)

section \<open>SQL\<close>

text \<open>
  How PostgreSQL reads a statement: text and string constants, in which a doubled quote stands for
  one. \<open>None\<close>: a constant that does not end.
\<close>

datatype sql_piece = Code string | Literal string

fun sql_literal :: "string \<Rightarrow> (string \<times> string) option" where
  "sql_literal [] = None"
| "sql_literal (c # cs) =
     (if c \<noteq> CHR 0x27 then map_option (\<lambda>(v, r). (c # v, r)) (sql_literal cs)
      else (case cs of
              [] \<Rightarrow> Some ([], [])
            | d # ds \<Rightarrow> if d = CHR 0x27 then map_option (\<lambda>(v, r). (CHR 0x27 # v, r)) (sql_literal ds)
                        else Some ([], cs)))"

lemma sql_literal_length: "sql_literal s = Some (v, r) \<Longrightarrow> length v + length r < length s"
proof (induction s arbitrary: v r rule: sql_literal.induct)
  case (2 c cs)
  show ?case
  proof (cases "c = CHR 0x27")
    case False
    with 2 show ?thesis by fastforce
  next
    case True
    show ?thesis
    proof (cases cs)
      case Nil
      with True 2 show ?thesis by simp
    next
      case (Cons d ds)
      show ?thesis
      proof (cases "d = CHR 0x27")
        case True
        with \<open>c = CHR 0x27\<close> Cons 2(2,3) show ?thesis by fastforce
      next
        case False
        with \<open>c = CHR 0x27\<close> Cons 2(3) show ?thesis by auto
      qed
    qed
  qed
qed simp

function sql_pieces :: "string \<Rightarrow> sql_piece list option" where
  "sql_pieces s =
     (let code = takeWhile (\<lambda>c. c \<noteq> CHR 0x27) s in
      case dropWhile (\<lambda>c. c \<noteq> CHR 0x27) s of
        [] \<Rightarrow> Some [Code code]
      | _ # rest \<Rightarrow>
          (case sql_literal rest of
             None \<Rightarrow> None
           | Some (v, r) \<Rightarrow> map_option (\<lambda>ps. Code code # Literal v # ps) (sql_pieces r)))"
  by pat_completeness auto
termination
proof (relation "measure length")
  fix s :: string and code d and rest :: string and vr v and r :: string
  assume "dropWhile (\<lambda>c. c \<noteq> CHR 0x27) s = d # rest" "sql_literal rest = Some vr" "(v, r) = vr"
  moreover have "length (dropWhile (\<lambda>c. c \<noteq> CHR 0x27) s) \<le> length s" by (rule length_dropWhile_le)
  ultimately show "(r, s) \<in> measure length" using sql_literal_length [of rest v r] by simp
qed simp

declare sql_pieces.simps [simp del]

definition select_prefix :: string where
  "select_prefix = ''SELECT id, user_id, total_amount, status, items_jsonb FROM orders WHERE id = ''"

lemma sql_literal_closed: "CHR 0x27 \<notin> set v \<Longrightarrow> sql_literal (v @ [CHR 0x27]) = Some (v, [])"
  by (induction v) auto

lemma sql_literal_exact: "sql_literal (v @ [CHR 0x27]) = Some (v, []) \<Longrightarrow> CHR 0x27 \<notin> set v"
proof (induction v)
  case (Cons c v)
  show ?case
  proof (cases "c = CHR 0x27")
    case False
    with Cons show ?thesis by auto
  next
    case True
    show ?thesis
    proof (cases v)
      case Nil
      with True Cons.prems show ?thesis by simp
    next
      case c: (Cons d ds)
      show ?thesis
      proof (cases "d = CHR 0x27")
        case False
        with True c Cons.prems show ?thesis by simp
      next
        case d: True
        with True c Cons.prems obtain w where w: "sql_literal (ds @ [CHR 0x27]) = Some (v, w)" "w = []" by auto
        from sql_literal_length [OF w(1)] c show ?thesis by simp
      qed
    qed
  qed
qed simp

lemma select_sql_prefix: "select_sql i = select_prefix @ [CHR 0x27] @ i @ [CHR 0x27]"
  by (simp add: select_sql_def select_prefix_def)

lemma select_prefix_code: "x \<in> set select_prefix \<Longrightarrow> x \<noteq> CHR 0x27"
  by (auto simp: select_prefix_def)

lemma sql_pieces_select:
  "sql_pieces (select_sql i) =
     (case sql_literal (i @ [CHR 0x27]) of
        None \<Rightarrow> None
      | Some (v, r) \<Rightarrow> map_option (\<lambda>ps. Code select_prefix # Literal v # ps) (sql_pieces r))"
  by (subst sql_pieces.simps)
    (simp add: select_sql_prefix takeWhile_append2 dropWhile_append2 select_prefix_code)

lemma sql_pieces_Nil: "sql_pieces [] = Some [Code []]"
  by (subst sql_pieces.simps) simp

text \<open>
  C38. The statement of a read asks for the order it is meant to ask for exactly when the
  identifier in the URL has no quote. The identifier is put between quotes as it is: with a quote in it
  the statement is another one, such as a condition that holds for every row.
\<close>

theorem select_quoting:
  "(sql_pieces (select_sql i) = Some [Code select_prefix, Literal i, Code []] \<longleftrightarrow> CHR 0x27 \<notin> set i)
   \<and> sql_pieces (select_sql (''00000000-0000-0000-0000-000000000000'' @ [CHR 0x27] @ '' OR id::text <> '' @ [CHR 0x27]))
     = Some [Code select_prefix, Literal ''00000000-0000-0000-0000-000000000000'', Code '' OR id::text <> '', Literal [], Code []]"
proof
  show "sql_pieces (select_sql i) = Some [Code select_prefix, Literal i, Code []] \<longleftrightarrow> CHR 0x27 \<notin> set i"
  proof
    assume "CHR 0x27 \<notin> set i"
    then show "sql_pieces (select_sql i) = Some [Code select_prefix, Literal i, Code []]"
      by (simp add: sql_pieces_select sql_literal_closed sql_pieces_Nil)
  next
    assume "sql_pieces (select_sql i) = Some [Code select_prefix, Literal i, Code []]"
    then obtain r where r: "sql_literal (i @ [CHR 0x27]) = Some (i, r)" "sql_pieces r = Some [Code []]"
      by (auto simp: sql_pieces_select split: option.splits)
    from sql_literal_length [OF r(1)] have "r = []" by simp
    with r(1) show "CHR 0x27 \<notin> set i" using sql_literal_exact by simp
  qed
  show "sql_pieces (select_sql (''00000000-0000-0000-0000-000000000000'' @ [CHR 0x27] @ '' OR id::text <> '' @ [CHR 0x27]))
     = Some [Code select_prefix, Literal ''00000000-0000-0000-0000-000000000000'', Code '' OR id::text <> '', Literal [], Code []]"
    unfolding sql_pieces_select
    by (simp, subst sql_pieces.simps) (simp add: sql_pieces_Nil)
qed

end
