(* ===== verification/Cache_Aside.thy ===== *)
theory Cache_Aside
  imports Order_Api_Properties
begin

text \<open>
  The order API in the pipeline: what the status of a \<open>POST\<close> tells, what a \<open>GET\<close> serves after the
  Redis sink has run, and what a \<open>GET\<close> serves once the connection to Redis was lost.
\<close>

section \<open>Creating orders\<close>

text \<open>
  C39. What the status of a \<open>POST\<close> tells. 400: no statement was sent, unless the answer itself could
  not be printed. 500: the transaction of the insert failed. 201: the transaction of exactly this insert
  succeeded, and the body is the printed identifier and status.
\<close>

theorem post_order_status:
  assumes "post_order env pg body s = (r, s')"
    and "\<And>i. uuid_v4 i \<Longrightarrow> dump (json_env env) (JObj [(''id'', JStr i), (''status'', JStr ''CREATED'')]) = Inr (answer i)"
  shows "(reply_status r = 400 \<and> db s' = db s)
    \<or> (\<exists>user_id amount items printed_items e.
        order_fields env body = Inr (user_id, amount, items) \<and> dump (json_env env) items = Inr printed_items \<and>
        (let i = generate_uuid (draw s) (draws s);
             sent = run_sql pg (insert_sql i user_id (print_double env amount) printed_items) [] (db s) in
         db s' = snd sent \<and>
         (case fst sent of
            Inl e \<Rightarrow> reply_status r = 500
          | Inr _ \<Rightarrow> r = reply_text 201 (answer i))))"
proof (cases "order_fields env body")
  case (Inl e)
  then obtain m where "e = JsonError m"
    by (auto simp: order_fields_def Let_def parsed_def at_checked_def get_text_def get_double_def
        split: sum.splits if_splits option.splits json.splits)
  with Inl assms(1) show ?thesis by (auto simp: post_order_def caught_def bad_request_def api_event_def)
next
  case (Inr f)
  obtain user_id amount items where f: "f = (user_id, amount, items)" by (cases f) auto
  let ?i = "generate_uuid (draw s) (draws s)"
  show ?thesis
  proof (cases "dump (json_env env) items")
    case (Inl e)
    with Inr f assms(1) show ?thesis
      by (auto simp: post_order_def create_order_def Let_def caught_def bad_request_def api_event_def)
  next
    case (Inr printed_items)
    obtain sent d where sql: "run_sql pg (insert_sql ?i user_id (print_double env amount) printed_items) [] (db s) = (sent, d)"
      by fastforce
    have "uuid_v4 ?i" by (rule generated_v4)
    note answer = assms(2) [OF this]
    show ?thesis
    proof (rule disjI2, intro exI conjI)
      show "order_fields env body = Inr (user_id, amount, items)" using \<open>order_fields env body = Inr f\<close> f by simp
      show "dump (json_env env) items = Inr printed_items" by (rule Inr)
      show "let i = ?i; sent = run_sql pg (insert_sql i user_id (print_double env amount) printed_items) [] (db s) in
          db s' = snd sent \<and> (case fst sent of Inl e \<Rightarrow> reply_status r = 500 | Inr _ \<Rightarrow> r = reply_text 201 (answer i))"
        using assms(1) \<open>order_fields env body = Inr f\<close> f Inr sql answer
        by (cases sent)
          (auto simp: post_order_def create_order_def Let_def caught_def server_error_def api_event_def)
    qed
  qed
qed

text \<open>Parameters for the witnesses: a parser and a printer that know three documents, and a database without rows.\<close>

definition tiny_env :: api_env where
  "tiny_env =
     \<lparr>json_env = sample_env\<lparr>dump := (\<lambda>j. Inr (case j of JStr s \<Rightarrow> s | JArr _ \<Rightarrow> ''[]''
        | JObj (m # _) \<Rightarrow> fst m | _ \<Rightarrow> ''{}''))\<rparr>,
      parse_json = (\<lambda>t. if t = ''new'' then Inr (JObj [(''items'', JArr []), (''total_amount'', JInt 5), (''user_id'', JStr ''u'')])
         else if t = ''{}'' then Inr (JObj [(''id'', JStr ''7'')]) else Inl ''parse_error''),
      print_double = (\<lambda>r. ''5''), read_double = (\<lambda>t. None)\<rparr>"

definition empty_pg :: "nat pg_api" where
  "empty_pg = \<lparr>run_sql = (\<lambda>sql ps d. (Inr 1, Suc d)), query_sql = (\<lambda>sql d. (Inr [], d))\<rparr>"

definition api_start :: "'r \<Rightarrow> (nat, 'r) api_state" where
  "api_start r = \<lparr>db = 0, kv = r, connected = True, get_plan = [], draw = (\<lambda>k. k), draws = 0, api_log = []\<rparr>"

theorem post_order_status_witness:
  "let r = fst (post_order tiny_env empty_pg ''new'' (api_start (0 :: nat))) in
   reply_status r = 400 \<or> r = reply_text 201 ''id''"
proof -
  have printed: "dump (json_env tiny_env) (JObj [(''id'', JStr i), (''status'', JStr ''CREATED'')]) = Inr ''id''" for i
    by (simp add: tiny_env_def)
  show ?thesis
    using post_order_status [OF prod.collapse [symmetric], of tiny_env "\<lambda>_. ''id''" empty_pg "''new''" "api_start 0", OF printed]
    by (auto simp: Let_def empty_pg_def)
qed

section \<open>Reading from the cache\<close>

lemma c_string_plain: "CHR 0x00 \<notin> set t \<Longrightarrow> c_string t = t"
  by (auto simp: c_string_def takeWhile_eq_all_conv)

lemma cache_get_served:
  assumes "connected s" "get_plan s = []"
  shows "cache_get api key s = (Inr (map_option c_string (redis_get api (c_string key) (kv s))), s)"
  using assms by (simp add: cache_get_def)

lemma get_order_cached:
  assumes "redis_get api (order_key i) (kv s) = Some doc" "connected s" "get_plan s = []"
    and "CHR 0x00 \<notin> set i" "CHR 0x00 \<notin> set doc"
    and "parse_json env doc = Inr (JObj ms)"
    and "dump (json_env env) (JObj (insert_member ''source'' (JStr ''redis'') ms)) = Inr answer"
  shows "get_order env pg api i s = (reply_text 200 answer, api_event (''api_cache_hit'', [i]) s)"
proof -
  have key: "c_string (order_key i) = order_key i"
    using assms(4) by (intro c_string_plain) (auto simp: order_key_def)
  have "cache_get api (order_key i) s = (Inr (Some doc), s)"
    using cache_get_served [OF assms(2,3)] by (simp add: key assms(1) c_string_plain [OF assms(5)])
  then show ?thesis
    using assms(6,7) by (simp add: get_order_def Let_def cached_reply_def parsed_def with_source_def)
qed

text \<open>
 The cache serves the newest version. After any deliveries to the Redis sink (on a healthy
  server, in any order, with repetitions), a \<open>GET\<close> of an order answers 200 with the delivered document
  of the highest sequence number, marked as coming from Redis, and does not ask PostgreSQL.
\<close>

theorem newest_version_served:
  assumes "redis_laws rapi" "healthy c" "guards_ok rapi (server c)" "cache_view rapi (server c) = (\<lambda>_. None)"
    and "plain_deliveries cenv ds" "consistent double_of_int (set (updates_of cenv ds))"
    and "(i, n, Some doc) \<in> set (updates_of cenv ds)"
    and "\<And>n' d'. (i, n', d') \<in> set (updates_of cenv ds) \<Longrightarrow> n' \<le> n"
    and "CHR 0x00 \<notin> set i" "CHR 0x00 \<notin> set doc"
    and "connected s" "get_plan s = []" "kv s = server (redis_run cenv rapi ds c)"
    and "parse_json env doc = Inr (JObj ms)"
    and "dump (json_env env) (JObj (insert_member ''source'' (JStr ''redis'') ms)) = Inr answer"
  shows "get_order env pg rapi i s = (reply_text 200 answer, api_event (''api_cache_hit'', [i]) s)"
proof -
  let ?U = "set (updates_of cenv ds)"
  let ?view = "cache_view rapi (kv s)"
  have view: "?view = versioned_run double_of_int (updates_of cenv ds)"
    using redis_run_healthy [OF assms(1,3,5,2)] by (simp add: assms(4,13) versioned_run_def)
  have "is_latest double_of_int ?U i (Some (n, Some doc))"
    using assms(7,8) by (auto simp: is_latest_def intro: double_of_int_mono)
  with versioned_run_latest [of double_of_int "updates_of cenv ds" i] have "?view i = Some (n, Some doc)"
    unfolding view using is_latest_unique [OF assms(6)] by blast
  then have "redis_get rapi (order_key i) (kv s) = Some doc"
    by (auto simp: cache_view_def split: if_splits option.splits)
  then show ?thesis by (rule get_order_cached [OF _ assms(11,12,9,10,14,15)])
qed

theorem newest_version_served_witness:
  "let new = (sample_record ''7'' ''SHIPPED'' 12, ''7'', 3); old = (sample_record ''7'' ''CREATED'' 4, ''7'', 1);
       s = api_start (server (redis_run sample_env map_redis [new, old, new] sample_client)) in
   get_order tiny_env empty_pg map_redis ''7'' s = (reply_text 200 ''id'', api_event (''api_cache_hit'', [''7'']) s)"
proof -
  let ?new = "(sample_record ''7'' ''SHIPPED'' 12, ''7'', 3)" and ?old = "(sample_record ''7'' ''CREATED'' 4, ''7'', 1)"
  let ?ds = "[?new, ?old, ?new]"
  let ?s = "api_start (server (redis_run sample_env map_redis ?ds sample_client))"
  have ups: "set (updates_of sample_env ?ds) = {(''7'', 12, Some ''{}''), (''7'', 4, Some ''{}'')}"
    by (auto simp: updates_of_def List.map_filter_simps delivery_update_def sample_update)
  have plain: "plain_deliveries sample_env ?ds"
    by (simp add: plain_deliveries_def delivery_update_def sample_update)
  have start: "guards_ok map_redis (server sample_client)" "cache_view map_redis (server sample_client) = (\<lambda>_. None)"
    by (simp_all add: sample_client_def)
  have con: "consistent double_of_int (set (updates_of sample_env ?ds))"
    by (simp add: ups consistent_def double_of_int_exact)
  have newest: "(''7'', 12, Some ''{}'') \<in> set (updates_of sample_env ?ds)"
    "\<And>n' d'. (''7'', n', d') \<in> set (updates_of sample_env ?ds) \<Longrightarrow> n' \<le> 12"
    by (auto simp: ups)
  have s: "connected ?s" "get_plan ?s = []" "kv ?s = server (redis_run sample_env map_redis ?ds sample_client)"
    by (simp_all add: api_start_def)
  have json: "parse_json tiny_env ''{}'' = Inr (JObj [(''id'', JStr ''7'')])"
    "dump (json_env tiny_env) (JObj (insert_member ''source'' (JStr ''redis'') [(''id'', JStr ''7'')])) = Inr ''id''"
    by (simp_all add: tiny_env_def)
  show ?thesis
    unfolding Let_def
    by (rule newest_version_served [OF map_redis_laws sample_healthy start plain con newest _ _ s json]) simp_all
qed

section \<open>Without the cache\<close>

fun gets :: "api_env \<Rightarrow> 'd pg_api \<Rightarrow> 'r redis_api \<Rightarrow> string list \<Rightarrow> ('d, 'r) api_state \<Rightarrow> http_reply list \<times> ('d, 'r) api_state" where
  "gets env pg api [] s = ([], s)"
| "gets env pg api (i # is) s =
     (case get_order env pg api i s of (r, s1) \<Rightarrow> (case gets env pg api is s1 of (rs, s2) \<Rightarrow> (r # rs, s2)))"

lemma from_postgres_cache:
  "from_postgres env pg i (s\<lparr>kv := k\<rparr>) = (fst (from_postgres env pg i s), (snd (from_postgres env pg i s))\<lparr>kv := k\<rparr>)"
  "connected (snd (from_postgres env pg i s)) = connected s" "kv (snd (from_postgres env pg i s)) = kv s"
  by (auto simp: from_postgres_def get_order_by_id_def api_event_def Let_def split: sum.splits list.splits option.splits prod.splits)

lemma get_order_disconnected:
  assumes "\<not> connected s"
  shows "get_order env pg api i s =
    from_postgres env pg i (api_event (''api_redis_fallback'', [''Redis context is null'', i]) s)"
  using assms by (simp add: get_order_def cache_get_def Let_def attempt_text_def)

lemma gets_disconnected:
  "\<not> connected s \<Longrightarrow> gets env pg api is s = (rs, s') \<Longrightarrow>
   \<not> connected s' \<and> fst (gets env pg api is (s\<lparr>kv := k\<rparr>)) = rs"
proof (induction "is" arbitrary: s rs s')
  case (Cons i js)
  let ?s = "api_event (''api_redis_fallback'', [''Redis context is null'', i]) s"
  obtain r s1 where 1: "from_postgres env pg i ?s = (r, s1)" by fastforce
  obtain qs where 2: "gets env pg api js s1 = (qs, s')" "rs = r # qs"
    using Cons.prems by (auto simp: get_order_disconnected 1 split: prod.splits)
  have down: "\<not> connected s1" using from_postgres_cache(2) [of env pg i ?s] Cons.prems(1) unfolding 1 by (simp add: api_event_def)
  have "api_event (''api_redis_fallback'', [''Redis context is null'', i]) (s\<lparr>kv := k\<rparr>) = ?s\<lparr>kv := k\<rparr>"
    by (cases s) (simp add: api_event_def)
  then have "get_order env pg api i (s\<lparr>kv := k\<rparr>) = (r, s1\<lparr>kv := k\<rparr>)"
    using Cons.prems(1) by (simp add: get_order_disconnected from_postgres_cache(1) 1)
  with Cons.IH [OF down 2(1)] 2(2) show ?case by (auto split: prod.splits)
qed simp

text \<open>
  C40. The cache is never used again. Once a \<open>GET\<close> to Redis got no reply, the client has no context
  and nothing makes a new one: from that request on every answer comes from PostgreSQL, whatever the
  cache holds.
\<close>

theorem cache_lost_for_good:
  assumes "connected s" "get_plan s = GetNoReply # rest" "gets env pg api (i # is) s = (rs, s')"
  shows "\<not> connected s' \<and> (\<forall>k. fst (gets env pg api (i # is) (s\<lparr>kv := k\<rparr>)) = rs)"
proof -
  let ?lost = "\<lambda>s. api_event (''api_redis_fallback'', [''Redis command failed or timed out'', i])
      (s\<lparr>connected := False, get_plan := rest\<rparr>)"
  have first: "get_order env pg api i (s\<lparr>kv := k\<rparr>) = from_postgres env pg i (?lost s\<lparr>kv := k\<rparr>)" for k
    using assms(1,2) by (cases s) (simp add: get_order_def cache_get_def Let_def attempt_text_def api_event_def)
  obtain r s1 where 1: "from_postgres env pg i (?lost s) = (r, s1)" by fastforce
  have here: "get_order env pg api i s = (r, s1)" using first [of "kv s"] 1 by (simp add: api_event_def)
  obtain qs where 2: "gets env pg api is s1 = (qs, s')" "rs = r # qs"
    using assms(3) by (auto simp: here split: prod.splits)
  have down: "\<not> connected s1" using from_postgres_cache(2) [of env pg i "?lost s"] unfolding 1 by (simp add: api_event_def)
  have "fst (gets env pg api (i # is) (s\<lparr>kv := k\<rparr>)) = rs" for k
    using gets_disconnected [OF down 2(1), of k] 2(2)
    by (simp add: first from_postgres_cache(1) 1 split: prod.splits) (metis fst_conv)
  with gets_disconnected [OF down 2(1)] show ?thesis by blast
qed

theorem cache_lost_for_good_witness:
  "let s = (api_start (\<lambda>_. Some ''{}''))\<lparr>get_plan := [GetNoReply]\<rparr>; r = gets tiny_env empty_pg map_redis [''7'', ''7''] s in
   \<not> connected (snd r) \<and> fst r = fst (gets tiny_env empty_pg map_redis [''7'', ''7''] (s\<lparr>kv := (\<lambda>_. None)\<rparr>))"
proof -
  let ?s = "(api_start (\<lambda>_. Some ''{}'') :: (nat, string \<Rightarrow> string option) api_state)\<lparr>get_plan := [GetNoReply]\<rparr>"
  have s: "connected ?s" "get_plan ?s = GetNoReply # []" by (simp_all add: api_start_def)
  show ?thesis
    unfolding Let_def
    using cache_lost_for_good [OF s prod.collapse [symmetric], of tiny_env empty_pg map_redis "''7''" "[''7'']"] by simp
qed

end
