(* ===== verification/Pipeline_Reads.thy ===== *)
theory Pipeline_Reads
  imports Pipeline_Properties Cache_Aside
begin

text \<open>
  The way of an order through the whole system: from the topic through \<open>RedisUpdater\<close> into Redis and
  from there to a client of the API.
\<close>

lemma cached_document_read:
  assumes "cached_document D p i = Some doc"
  shows "redis_get (redis D) (order_key i) (server (client_of (updater p))) = Some doc"
  using assms by (auto simp: cached_document_def cache_view_def split: option.splits if_splits)

text \<open>
 A read shows the table. In every reachable state of the pipeline in which \<open>RedisUpdater\<close> has
  committed the whole topic and none of its records ran out of retries: a \<open>GET\<close> of an order of the table
  answers 200 with the last document of the topic, marked as coming from Redis, and does not ask
  PostgreSQL.
\<close>

theorem pipeline_serves_table:
  assumes "lawful D" "reachable D p" "plain_topic D (topic p)" "newest_last D (topic p)"
    and "saved_offset (updater p) = length (topic p)" "\<not> retries_exhausted (trace (inst (updater p)))"
    and "table_after D (topic p) i = Some doc"
    and "connected s" "get_plan s = []" "kv s = server (client_of (updater p))"
    and "CHR 0x00 \<notin> set i" "CHR 0x00 \<notin> set doc"
    and "parse_json env doc = Inr (JObj ms)"
    and "dump (json_env env) (JObj (insert_member ''source'' (JStr ''redis'') ms)) = Inr answer"
  shows "get_order env pg (redis D) i s = (reply_text 200 answer, api_event (''api_cache_hit'', [i]) s)"
proof -
  have "cached_document D p i = Some doc"
    using cache_shows_table [OF reachable_consistent [OF assms(2,1,3)] assms(4-6)] assms(7) by simp
  then have "redis_get (redis D) (order_key i) (kv s) = Some doc"
    unfolding assms(10) by (rule cached_document_read)
  then show ?thesis by (rule get_order_cached [OF _ assms(8,9,11-14)])
qed

theorem pipeline_serves_table_witness:
  "\<exists>p. reachable sample_deployment p \<and>
     (let s = api_start (server (client_of (updater p))) in
      get_order tiny_env empty_pg map_redis ''7'' s = (reply_text 200 ''id'', api_event (''api_cache_hit'', [''7'']) s))"
proof -
  have rel: "es_reliable (elastic sample_deployment)" by simp
  obtain p where p: "(pipeline_step sample_deployment)\<^sup>*\<^sup>* sample_pipeline p" "topic p = topic sample_pipeline"
      "saved_offset (updater p) = length (topic sample_pipeline)" "\<not> retries_exhausted (trace (inst (updater p)))"
    using stores_catch_up [OF sample_lawful rel sample_reachable] sample_topic
    by (auto simp: retries_exhausted_def)
  have r: "reachable sample_deployment p" using p(1) sample_reachable by (rule reachable_steps)
  let ?s = "api_start (server (client_of (updater p)))"
  have s: "connected ?s" "get_plan ?s = []" "kv ?s = server (client_of (updater p))" by (simp_all add: api_start_def)
  have json: "parse_json tiny_env ''{}'' = Inr (JObj [(''id'', JStr ''7'')])"
    "dump (json_env tiny_env) (JObj (insert_member ''source'' (JStr ''redis'') [(''id'', JStr ''7'')])) = Inr ''id''"
    by (simp_all add: tiny_env_def)
  have "get_order tiny_env empty_pg (redis sample_deployment) ''7'' ?s = (reply_text 200 ''id'', api_event (''api_cache_hit'', [''7'']) ?s)"
    by (rule pipeline_serves_table [OF sample_lawful r _ _ _ p(4) _ s _ _ json]) (use p sample_topic in simp_all)
  with r show ?thesis by (auto simp: Let_def)
qed

end
