(* ===== verification/Order_Store.thy ===== *)
theory Order_Store
  imports Order_Api_Properties
begin

text \<open>
  PostgreSQL as the API and Debezium rely on it: what the statements of \<open>database_client.cpp\<close> do to the
  table of orders and to the write-ahead log, as laws on the parameter \<open>pg_api\<close>; and what the three
  handlers keep of the table.
\<close>

section \<open>The table and its log\<close>

text \<open>
  \<open>rows_of\<close> is the table by identifier; \<open>wal_of\<close> its committed changes, oldest first, each with its log
  sequence number, the identifier and the row after the change. \<open>canonical\<close> is the identifier a text denotes as
  a UUID, if any; \<open>new_row\<close> the row made from the values of an insert, if they are accepted; \<open>with_status\<close> a
  row with another status; \<open>columns\<close> the five columns of the \<open>SELECT\<close> as text.
\<close>

type_synonym 'o wal_entry = "int \<times> string \<times> 'o"

record ('d, 'o) order_table =
  rows_of :: "'d \<Rightarrow> string \<Rightarrow> 'o option"
  wal_of :: "'d \<Rightarrow> 'o wal_entry list"
  canonical :: "string \<Rightarrow> string option"
  new_row :: "string \<Rightarrow> string \<Rightarrow> string \<Rightarrow> string \<Rightarrow> 'o option"
  with_status :: "string \<Rightarrow> 'o \<Rightarrow> 'o option"
  columns :: "string \<Rightarrow> 'o \<Rightarrow> string option list"

definition unchanged :: "('d, 'o) order_table \<Rightarrow> 'd \<Rightarrow> 'd \<Rightarrow> bool" where
  "unchanged V d d' \<longleftrightarrow> rows_of V d' = rows_of V d \<and> wal_of V d' = wal_of V d"

definition changed :: "('d, 'o) order_table \<Rightarrow> 'd \<Rightarrow> 'd \<Rightarrow> string \<Rightarrow> 'o \<Rightarrow> bool" where
  "changed V d d' i o' \<longleftrightarrow>
     rows_of V d' = (rows_of V d)(i \<mapsto> o') \<and>
     (\<exists>lsn. wal_of V d' = wal_of V d @ [(lsn, i, o')] \<and> (\<forall>e \<in> set (wal_of V d). fst (snd e) = i \<longrightarrow> fst e < lsn))"

abbreviation quote_free :: "string \<Rightarrow> bool" where
  "quote_free t \<equiv> CHR 0x27 \<notin> set t"

text \<open>
  The documented behaviour. A transaction that reports an error has changed nothing, unless only the report
  was lost (libpqxx's \<open>in_doubt_error\<close>); one that succeeds has done what its statement says, where the
  statement is the one meant: no value between quotation marks holds one.
\<close>

definition insert_law :: "'d pg_api \<Rightarrow> ('d, 'o) order_table \<Rightarrow> bool" where
  "insert_law pg V \<longleftrightarrow>
     (\<forall>i u a t d res d'. quote_free u \<longrightarrow> quote_free a \<longrightarrow> quote_free t \<longrightarrow> uuid_v4 i \<longrightarrow>
        run_sql pg (insert_sql i u a t) [] d = (res, d') \<longrightarrow>
          ((\<exists>e. res = Inl e) \<and> unchanged V d d'
           \<or> rows_of V d i = None \<and> (\<exists>o'. new_row V i u a t = Some o' \<and> changed V d d' i o')))"

definition update_law :: "'d pg_api \<Rightarrow> ('d, 'o) order_table \<Rightarrow> bool" where
  "update_law pg V \<longleftrightarrow>
     (\<forall>st i d res d'.
        run_sql pg update_sql [st, i] d = (res, d') \<longrightarrow>
            ((\<exists>e. res = Inl e) \<and> unchanged V d d'
             \<or> res = Inr 0 \<and> unchanged V d d' \<and> (\<exists>j. canonical V i = Some j \<and> rows_of V d j = None)
             \<or> (\<forall>n. res = Inr n \<longrightarrow> n = 1) \<and>
               (\<exists>j o1 o2. canonical V i = Some j \<and> rows_of V d j = Some o1 \<and> with_status V st o1 = Some o2 \<and> changed V d d' j o2)))"

definition select_law :: "'d pg_api \<Rightarrow> ('d, 'o) order_table \<Rightarrow> bool" where
  "select_law pg V \<longleftrightarrow>
     (\<forall>i d. quote_free i \<longrightarrow>
        (case query_sql pg (select_sql i) d of
           (res, d') \<Rightarrow>
             unchanged V d d' \<and>
             (case res of
                Inl e \<Rightarrow> True
              | Inr rs \<Rightarrow>
                  (\<exists>j. canonical V i = Some j \<and>
                     rs = (case rows_of V d j of None \<Rightarrow> [] | Some o' \<Rightarrow> [columns V j o'])))))"

definition pg_laws :: "'d pg_api \<Rightarrow> ('d, 'o) order_table \<Rightarrow> bool" where
  "pg_laws pg V \<longleftrightarrow>
     insert_law pg V \<and> update_law pg V \<and> select_law pg V \<and> (\<forall>i. uuid_v4 i \<longrightarrow> canonical V i = Some i)"

section \<open>The table follows its log\<close>

definition rows_after :: "'o wal_entry list \<Rightarrow> string \<Rightarrow> 'o option" where
  "rows_after w = fold (\<lambda>(lsn, i, o') m. m(i \<mapsto> o')) w Map.empty"

lemma rows_after_snoc [simp]: "rows_after (w @ [(lsn, i, o')]) = (rows_after w)(i \<mapsto> o')"
  by (simp add: rows_after_def)

lemma rows_after_None: "rows_after w i = None \<longleftrightarrow> i \<notin> (\<lambda>e. fst (snd e)) ` set w"
proof (induction w rule: rev_induct)
  case (snoc e w)
  obtain lsn j o1 where "e = (lsn, j, o1)" by (cases e)
  with snoc show ?case by auto
qed (simp add: rows_after_def)

text \<open>The last change of an order is its row.\<close>

lemma rows_after_last:
  "k < length w \<Longrightarrow> w ! k = (lsn, i, o') \<Longrightarrow> (\<And>l. k < l \<Longrightarrow> l < length w \<Longrightarrow> fst (snd (w ! l)) \<noteq> i) \<Longrightarrow>
   rows_after w i = Some o'"
proof (induction w arbitrary: k rule: rev_induct)
  case (snoc e w)
  obtain lsn1 j o1 where e: "e = (lsn1, j, o1)" by (cases e)
  show ?case
  proof (cases "k = length w")
    case True
    with snoc.prems(2) show ?thesis by (simp add: e)
  next
    case False
    with snoc.prems(1) have k: "k < length w" by simp
    have "j \<noteq> i" using snoc.prems(3) [of "length w"] k by (simp add: e nth_append)
    moreover have "rows_after w i = Some o'"
    proof (rule snoc.IH [OF k])
      show "w ! k = (lsn, i, o')" using snoc.prems(2) k by (simp add: nth_append)
      show "\<And>l. k < l \<Longrightarrow> l < length w \<Longrightarrow> fst (snd (w ! l)) \<noteq> i" using snoc.prems(3) by (force simp: nth_append)
    qed
    ultimately show ?thesis by (simp add: e)
  qed
qed simp

text \<open>
  The table is what its log says, the sequence numbers of a row grow (a row is locked until the transaction
  that changed it has ended), and every identifier is one of the API's.
\<close>

definition newer_row :: "'o wal_entry \<Rightarrow> 'o wal_entry \<Rightarrow> bool" where
  "newer_row e e' \<longleftrightarrow> (fst (snd e) = fst (snd e') \<longrightarrow> fst e < fst e')"

definition table_ok :: "('d, 'o) order_table \<Rightarrow> 'd \<Rightarrow> bool" where
  "table_ok V d \<longleftrightarrow>
     rows_of V d = rows_after (wal_of V d) \<and> sorted_wrt newer_row (wal_of V d)
     \<and> (\<forall>(lsn, i, o') \<in> set (wal_of V d). uuid_v4 i)"

lemma table_ok_unchanged: "unchanged V d d' \<Longrightarrow> table_ok V d \<Longrightarrow> table_ok V d'"
  by (simp add: unchanged_def table_ok_def)

lemma table_ok_changed: "changed V d d' i o' \<Longrightarrow> uuid_v4 i \<Longrightarrow> table_ok V d \<Longrightarrow> table_ok V d'"
  by (auto simp: changed_def table_ok_def sorted_wrt_append newer_row_def)

lemma table_ids:
  assumes "table_ok V d" "rows_of V d i = Some o'"
  shows "uuid_v4 i"
proof -
  have "i \<in> (\<lambda>e. fst (snd e)) ` set (wal_of V d)"
    using assms rows_after_None [of "wal_of V d" i] by (auto simp: table_ok_def)
  with assms(1) show ?thesis by (auto simp: table_ok_def)
qed

lemma inserted:
  assumes "pg_laws pg V" "quote_free u" "quote_free a" "quote_free t" "uuid_v4 i"
    and "run_sql pg (insert_sql i u a t) [] d = (res, d')"
  shows "(\<exists>e. res = Inl e) \<and> unchanged V d d'
    \<or> rows_of V d i = None \<and> (\<exists>o'. new_row V i u a t = Some o' \<and> changed V d d' i o')"
  using assms unfolding pg_laws_def insert_law_def by blast

lemma updated:
  assumes "pg_laws pg V" "run_sql pg update_sql [st, i] d = (res, d')"
  shows "(\<exists>e. res = Inl e) \<and> unchanged V d d'
    \<or> res = Inr 0 \<and> unchanged V d d' \<and> (\<exists>j. canonical V i = Some j \<and> rows_of V d j = None)
    \<or> (\<forall>n. res = Inr n \<longrightarrow> n = 1) \<and>
      (\<exists>j o1 o2. canonical V i = Some j \<and> rows_of V d j = Some o1 \<and> with_status V st o1 = Some o2 \<and> changed V d d' j o2)"
  using assms unfolding pg_laws_def update_law_def by blast

text \<open>What one transaction may do.\<close>

definition moved :: "('d, 'o) order_table \<Rightarrow> 'd \<Rightarrow> 'd \<Rightarrow> bool" where
  "moved V d d' \<longleftrightarrow> d' = d \<or> unchanged V d d' \<or> (\<exists>i o'. uuid_v4 i \<and> changed V d d' i o')"

lemma moved_keeps: "moved V d d' \<Longrightarrow> table_ok V d \<Longrightarrow> table_ok V d'"
  using table_ok_unchanged table_ok_changed by (auto simp: moved_def)

lemma moved_grows: "moved V d d' \<Longrightarrow> \<exists>new. wal_of V d' = wal_of V d @ new"
  by (auto simp: moved_def unchanged_def changed_def)

section \<open>What the handlers keep\<close>

text \<open>A request whose values hold no quotation mark where the code puts them between some.\<close>

definition quote_free_order :: "api_env \<Rightarrow> string \<Rightarrow> bool" where
  "quote_free_order env body \<longleftrightarrow>
     (case order_fields env body of
        Inl e \<Rightarrow> True
      | Inr (user_id, amount, items) \<Rightarrow>
          quote_free user_id \<and> quote_free (print_double env amount) \<and>
          (case dump (json_env env) items of Inl e \<Rightarrow> True | Inr t \<Rightarrow> quote_free t))"

lemma post_order_db:
  assumes "post_order env pg body s = (r, s')"
  shows "kv s' = kv s \<and>
    (db s' = db s \<or>
     (\<exists>user_id amount items t. order_fields env body = Inr (user_id, amount, items) \<and> dump (json_env env) items = Inr t \<and>
        db s' = snd (run_sql pg (insert_sql (generate_uuid (draw s) (draws s)) user_id (print_double env amount) t) [] (db s))))"
proof (cases "order_fields env body")
  case (Inl e)
  with assms show ?thesis by (auto simp: post_order_def caught_def api_event_def split: api_error.splits)
next
  case (Inr f)
  obtain user_id amount items where f: "f = (user_id, amount, items)" by (cases f) auto
  show ?thesis
  proof (cases "dump (json_env env) items")
    case (Inl e)
    with Inr f assms show ?thesis by (auto simp: post_order_def create_order_def Let_def caught_def api_event_def)
  next
    case (Inr t)
    obtain res d where "run_sql pg (insert_sql (generate_uuid (draw s) (draws s)) user_id (print_double env amount) t) [] (db s) = (res, d)"
      by fastforce
    with Inr \<open>order_fields env body = Inr f\<close> f assms show ?thesis
      by (cases res) (auto simp: post_order_def create_order_def Let_def caught_def api_event_def split: sum.splits)
  qed
qed

lemma post_order_keeps:
  assumes "pg_laws pg V" "quote_free_order env body" "post_order env pg body s = (r, s')"
  shows "moved V (db s) (db s') \<and> kv s' = kv s"
proof (cases "db s' = db s")
  case False
  then obtain user_id amount items t where f: "order_fields env body = Inr (user_id, amount, items)" "dump (json_env env) items = Inr t"
    "db s' = snd (run_sql pg (insert_sql (generate_uuid (draw s) (draws s)) user_id (print_double env amount) t) [] (db s))"
    using post_order_db [OF assms(3)] by blast
  let ?i = "generate_uuid (draw s) (draws s)"
  have i: "uuid_v4 ?i" by (rule generated_v4)
  have q: "quote_free user_id" "quote_free (print_double env amount)" "quote_free t"
    using assms(2) f(1,2) by (simp_all add: quote_free_order_def)
  from inserted [OF assms(1) q i prod.collapse [symmetric]] f(3)
  have "unchanged V (db s) (db s') \<or> (\<exists>o'. changed V (db s) (db s') ?i o')" by auto
  with i post_order_db [OF assms(3)] show ?thesis by (auto simp: moved_def)
qed (use post_order_db [OF assms(3)] in \<open>simp add: moved_def\<close>)

lemma patch_status_db:
  assumes "patch_status env pg order_id body s = (r, s')"
  shows "kv s' = kv s \<and> (db s' = db s \<or> (\<exists>st res. run_sql pg update_sql [st, order_id] (db s) = (res, db s')))"
  using assms
  by (auto simp: patch_status_def update_order_status_def caught_def api_event_def
      split: sum.splits prod.splits api_error.splits bool.splits if_splits)

lemma patch_status_keeps:
  assumes "pg_laws pg V" "patch_status env pg order_id body s = (r, s')" "table_ok V (db s)"
  shows "moved V (db s) (db s') \<and> kv s' = kv s"
proof (cases "db s' = db s")
  case False
  then obtain st res where "run_sql pg update_sql [st, order_id] (db s) = (res, db s')"
    using patch_status_db [OF assms(2)] by blast
  then have "unchanged V (db s) (db s') \<or> (\<exists>j o1 o2. rows_of V (db s) j = Some o1 \<and> changed V (db s) (db s') j o2)"
    using updated [OF assms(1)] by blast
  with table_ids [OF assms(3)] patch_status_db [OF assms(2)] show ?thesis by (auto simp: moved_def)
qed (use patch_status_db [OF assms(2)] in \<open>simp add: moved_def\<close>)

lemma get_order_db:
  assumes "get_order env pg api order_id s = (r, s')"
  shows "kv s' = kv s \<and> (db s' = db s \<or> db s' = snd (query_sql pg (select_sql order_id) (db s)))"
proof -
  have pg: "kv s2 = kv s1 \<and> (db s2 = db s1 \<or> db s2 = snd (query_sql pg (select_sql order_id) (db s1)))"
    if "from_postgres env pg order_id s1 = (r, s2)" for s1 s2 :: "('a, 'b) api_state" and r
    using that
    by (auto simp: from_postgres_def get_order_by_id_def Let_def api_event_def
        split: sum.splits prod.splits option.splits list.splits)
  have cache: "kv s1 = kv s \<and> db s1 = db s" if "cache_get api key s = (x, s1)" for x s1 key
    using that by (auto simp: cache_get_def split: if_splits list.splits get_fate.splits)
  obtain x s1 where c: "cache_get api (order_key order_id) s = (x, s1)" by fastforce
  note c1 = cache [OF c]
  show ?thesis
    using assms c c1 pg [of "api_event e s1" r s' for e] pg [of "api_event e (api_event e' s1)" r s' for e e']
    by (auto simp: get_order_def Let_def split: sum.splits option.splits) (auto simp: api_event_def)
qed

lemma get_order_keeps:
  assumes "pg_laws pg V" "quote_free order_id" "get_order env pg api order_id s = (r, s')"
  shows "unchanged V (db s) (db s') \<and> kv s' = kv s"
proof -
  have "unchanged V (db s) (snd (query_sql pg (select_sql order_id) (db s)))"
    using assms(1,2) unfolding pg_laws_def select_law_def by (auto simp: case_prod_beta)
  with get_order_db [OF assms(3)] show ?thesis by (auto simp: unchanged_def)
qed

section \<open>What an accepted request has changed\<close>

lemma posted_row:
  assumes "pg_laws pg V" "quote_free_order env body" "post_order env pg body s = (r, s')" "reply_status r = 201"
  shows "\<exists>user_id amount items t o'. order_fields env body = Inr (user_id, amount, items) \<and> dump (json_env env) items = Inr t
    \<and> new_row V (generate_uuid (draw s) (draws s)) user_id (print_double env amount) t = Some o'
    \<and> rows_of V (db s') (generate_uuid (draw s) (draws s)) = Some o'"
proof (cases "order_fields env body")
  case (Inl e)
  with assms(3,4) show ?thesis
    by (auto simp: post_order_def caught_def bad_request_def server_error_def split: api_error.splits)
next
  case (Inr f)
  let ?i = "generate_uuid (draw s) (draws s)"
  obtain user_id amount items where f: "f = (user_id, amount, items)" by (cases f) auto
  show ?thesis
  proof (cases "dump (json_env env) items")
    case (Inl e)
    with Inr f assms(3,4) show ?thesis by (auto simp: post_order_def create_order_def Let_def caught_def bad_request_def)
  next
    case (Inr t)
    obtain res d where sql: "run_sql pg (insert_sql ?i user_id (print_double env amount) t) [] (db s) = (res, d)" by fastforce
    have out: "\<not> isl res \<and> db s' = d"
      using assms(3,4) \<open>order_fields env body = Inr f\<close> f Inr sql
      by (cases res)
        (auto simp: post_order_def create_order_def Let_def caught_def bad_request_def server_error_def api_event_def split: sum.splits)
    have i: "uuid_v4 ?i" by (rule generated_v4)
    have q: "quote_free user_id" "quote_free (print_double env amount)" "quote_free t"
      using assms(2) \<open>order_fields env body = Inr f\<close> f Inr by (simp_all add: quote_free_order_def)
    from inserted [OF assms(1) q i sql] out obtain o' where
      "new_row V ?i user_id (print_double env amount) t = Some o'" "changed V (db s) (db s') ?i o'"
      by (auto simp: isl_def)
    with out Inr \<open>order_fields env body = Inr f\<close> f show ?thesis by (auto simp: changed_def)
  qed
qed

lemma patched_row:
  assumes "pg_laws pg V" "patch_status env pg i body s = (r, s')" "reply_status r = 200"
  shows "\<exists>doc st j o1 o2. parse_json env body = Inr doc \<and> member_of doc ''status'' = Some (JStr st)
    \<and> canonical V i = Some j \<and> rows_of V (db s) j = Some o1 \<and> with_status V st o1 = Some o2 \<and> rows_of V (db s') j = Some o2"
proof -
  obtain doc st n where d: "parse_json env body = Inr doc" "member_of doc ''status'' = Some (JStr st)"
    and n: "run_sql pg update_sql [st, i] (db s) = (Inr n, db s')" "0 < n"
    using assms(2,3)
    by (auto simp: patch_status_def update_order_status_def parsed_def at_checked_def get_text_def caught_def bad_request_def
        server_error_def not_found_def api_event_def
        split: sum.splits prod.splits api_error.splits bool.splits if_splits option.splits json.splits)
  from updated [OF assms(1) n(1)] n(2) d show ?thesis by (auto simp: changed_def)
qed

end
