(* ===== verification/Change_Capture.thy ===== *)
theory Change_Capture
  imports Pipeline_Reads Order_Store
begin

text \<open>
  From the table to the topic: which messages Debezium publishes for the changes of the table
  (\<open>scripts/connector.json\<close>: pgoutput, the Avro converter), and what a topic filled from the write-ahead log
  tells the consumers, when the connector has repeated stretches of it after restarts.
\<close>

section \<open>The message of a change\<close>

text \<open>
  \<open>enc i o'\<close> is the row as libserdes prints it: the members of the record of the Avro union \<open>after\<close>. The
  columns \<open>id\<close> and \<open>status\<close> are \<open>NOT NULL\<close> (\<open>postgres/init.sql\<close>), so they are plain strings.
\<close>

type_synonym 'o row_encoding = "string \<Rightarrow> 'o \<Rightarrow> (string \<times> json) list"

definition row_document :: "cpp_env \<Rightarrow> 'o row_encoding \<Rightarrow> string \<Rightarrow> 'o \<Rightarrow> string" where
  "row_document env enc i o' = (case dump env (JObj (enc i o')) of Inl e \<Rightarrow> [] | Inr t \<Rightarrow> t)"

definition encoding_law :: "cpp_env \<Rightarrow> 'o row_encoding \<Rightarrow> bool" where
  "encoding_law env enc \<longleftrightarrow>
     (\<forall>i o'. map_of (enc i o') ''id'' = Some (JStr i) \<and> (\<exists>st. map_of (enc i o') ''status'' = Some (JStr st))
        \<and> map_of (enc i o') ''Value'' = None \<and> (\<exists>t. dump env (JObj (enc i o')) = Inr t))"

text \<open>
  The message carries the row in the branch of the union and the log sequence number in \<open>source\<close>, as a number
  or as the branch \<open>long\<close> of a union.
\<close>

definition captures :: "'v avro_env \<Rightarrow> cpp_env \<Rightarrow> 'o row_encoding \<Rightarrow> message \<Rightarrow> 'o wal_entry \<Rightarrow> bool" where
  "captures av env enc msg e \<longleftrightarrow>
     (case e of (lsn, i, o') \<Rightarrow>
        \<exists>doc key branch src.
          deserialize av (m_payload msg) = Some doc \<and> message_key av env msg = Inr key
          \<and> branch \<noteq> ''id'' \<and> member_of doc ''after'' = Some (JObj [(branch, JObj (enc i o'))])
          \<and> member_of doc ''source'' = Some (JObj src)
          \<and> (map_of src ''lsn'' = Some (JInt lsn) \<or> map_of src ''lsn'' = Some (JObj [(''long'', JInt lsn)])))"

text \<open>Sequence numbers a double holds without rounding: the guard in Redis compares them as doubles.\<close>

definition exact_lsn :: "int \<Rightarrow> bool" where
  "exact_lsn n \<longleftrightarrow> 0 \<le> n \<and> n \<le> 2 ^ 53"

definition lsns_exact :: "'o wal_entry list \<Rightarrow> bool" where
  "lsns_exact w \<longleftrightarrow> (\<forall>e \<in> set w. exact_lsn (fst e))"

lemma exact_lsn_word: "exact_lsn n \<Longrightarrow> sint (word_of_int n :: i64) = n"
  by (simp add: exact_lsn_def signed_of_int signed_take_bit_int_eq_self_iff)

lemma extract_lsn_long:
  assumes "member_of doc ''source'' = Some (JObj src)" "map_of src ''lsn'' = Some (JObj [(''long'', JInt n)])"
  shows "extract_lsn env doc = word_of_int n"
  using assms
  by (simp add: extract_lsn_def lsn_field_def contains_def at_key_def is_object_def is_null_def is_number_def get_int64_def)

lemma unwrap_row:
  assumes "encoding_law env enc" "branch \<noteq> ''id''"
  shows "unwrap (JObj [(branch, JObj (enc i o'))]) = JObj (enc i o')"
  by (rule unwrap_union_branch) (use assms(2) in \<open>simp_all add: is_object_def\<close>)

lemma captured_update:
  assumes "encoding_law env enc" "captures av env enc msg (lsn, i, o')" "i \<noteq> []" "exact_lsn lsn"
  shows "message_update av env msg = Some (i, lsn, Some (row_document env enc i o'))"
proof -
  from assms(2) obtain doc key branch src where m: "deserialize av (m_payload msg) = Some doc" "message_key av env msg = Inr key"
    and b: "branch \<noteq> ''id''" and a: "member_of doc ''after'' = Some (JObj [(branch, JObj (enc i o'))])"
    and src: "member_of doc ''source'' = Some (JObj src)"
    "map_of src ''lsn'' = Some (JInt lsn) \<or> map_of src ''lsn'' = Some (JObj [(''long'', JInt lsn)])"
    by (auto simp: captures_def)
  have lsn: "extract_lsn env doc = word_of_int lsn" using src lsn_direct extract_lsn_long by blast
  have cl: "classify doc = Upsert (JObj [(branch, JObj (enc i o'))])"
    using a by (simp add: classify_def contains_def at_key_def is_null_def)
  have id: "order_id_of env (JObj (enc i o')) key = Inr i"
    using assms(1,3) by (intro order_id_of_data document_id_str) (simp_all add: encoding_law_def)
  obtain t where t: "dump env (JObj (enc i o')) = Inr t" using assms(1) by (auto simp: encoding_law_def)
  show ?thesis
    by (simp add: message_update_def m record_update_def cl unwrap_row [OF assms(1) b] id t assms(3) lsn
        exact_lsn_word [OF assms(4)] row_document_def)
qed

lemma captured_well_formed:
  assumes "encoding_law env enc" "captures av env enc msg (lsn, i, o')" "i \<noteq> []" "exact_lsn lsn"
  shows "\<exists>doc key. deserialize av (m_payload msg) = Some doc \<and> message_key av env msg = Inr key \<and> well_formed env doc key"
proof -
  from assms(2) obtain doc key branch where m: "deserialize av (m_payload msg) = Some doc" "message_key av env msg = Inr key"
    and b: "branch \<noteq> ''id''" and a: "member_of doc ''after'' = Some (JObj [(branch, JObj (enc i o'))])"
    by (auto simp: captures_def)
  have cl: "classify doc = Upsert (JObj [(branch, JObj (enc i o'))])"
    using a by (simp add: classify_def contains_def at_key_def is_null_def)
  have "record_update env doc key = Some (i, lsn, Some (row_document env enc i o'))"
    using captured_update [OF assms] m by (simp add: message_update_def)
  moreover obtain st where "map_of (enc i o') ''status'' = Some (JStr st)" using assms(1) by (auto simp: encoding_law_def)
  ultimately have "well_formed env doc key"
    by (simp add: well_formed_def cl unwrap_row [OF assms(1) b])
  with m show ?thesis by blast
qed

section \<open>Topics filled from the log\<close>

text \<open>The topic holds the changes at the positions \<open>ks\<close> of the log.\<close>

definition filled :: "'v avro_env \<Rightarrow> cpp_env \<Rightarrow> 'o row_encoding \<Rightarrow> 'o wal_entry list \<Rightarrow> nat list \<Rightarrow> message list \<Rightarrow> bool" where
  "filled av env enc w ks msgs \<longleftrightarrow>
     set ks \<subseteq> {..<length w} \<and> list_all2 (captures av env enc) msgs (map ((!) w) ks)"

lemma filled_append:
  assumes "filled av env enc w ks msgs" "k < length w" "captures av env enc msg (w ! k)"
  shows "filled av env enc w (ks @ [k]) (msgs @ [msg])"
  using assms by (simp add: filled_def list_all2_appendI)

lemma filled_grows:
  assumes "filled av env enc w ks msgs"
  shows "filled av env enc (w @ new) ks msgs"
proof -
  have "map ((!) (w @ new)) ks = map ((!) w) ks" using assms by (auto simp: filled_def nth_append)
  with assms show ?thesis unfolding filled_def by (metis length_append lessThan_subset_iff le_add1 subset_trans)
qed

lemma filled_nth:
  assumes "filled av env enc w ks msgs" "k < length msgs"
  shows "k < length ks" "ks ! k < length w" "captures av env enc (msgs ! k) (w ! (ks ! k))"
proof -
  have "length msgs = length ks" using assms(1) by (auto simp: filled_def dest: list_all2_lengthD)
  with assms show "k < length ks" "captures av env enc (msgs ! k) (w ! (ks ! k))" "ks ! k < length w"
    by (auto simp: filled_def list_all2_conv_all_nth subset_iff)
qed

definition wal_ok :: "'o wal_entry list \<Rightarrow> bool" where
  "wal_ok w \<longleftrightarrow> sorted_wrt newer_row w \<and> (\<forall>(lsn, i, o') \<in> set w. uuid_v4 i)"

lemma table_wal: "table_ok V d \<Longrightarrow> wal_ok (wal_of V d)"
  by (simp add: table_ok_def wal_ok_def)

lemma filled_update:
  assumes "encoding_law env enc" "wal_ok w" "lsns_exact w" "filled av env enc w ks msgs" "k < length msgs"
    and "w ! (ks ! k) = (lsn, i, o')"
  shows "message_update av env (msgs ! k) = Some (i, lsn, Some (row_document env enc i o'))" "uuid_v4 i"
    "\<exists>doc key. deserialize av (m_payload (msgs ! k)) = Some doc \<and> message_key av env (msgs ! k) = Inr key \<and> well_formed env doc key"
proof -
  have "(lsn, i, o') \<in> set w" using filled_nth(2) [OF assms(4,5)] assms(6) nth_mem by fastforce
  with assms(2,3) have f: "uuid_v4 i" "exact_lsn lsn" by (auto simp: wal_ok_def lsns_exact_def)
  have c: "captures av env enc (msgs ! k) (lsn, i, o')" using filled_nth(3) [OF assms(4,5)] assms(6) by simp
  show "uuid_v4 i" by (rule f)
  show "message_update av env (msgs ! k) = Some (i, lsn, Some (row_document env enc i o'))"
    by (rule captured_update [OF assms(1) c v4_facts(1) [OF f(1)] f(2)])
  show "\<exists>doc key. deserialize av (m_payload (msgs ! k)) = Some doc \<and> message_key av env (msgs ! k) = Inr key \<and> well_formed env doc key"
    by (rule captured_well_formed [OF assms(1) c v4_facts(1) [OF f(1)] f(2)])
qed

lemma filled_concerns:
  assumes "encoding_law env enc" "wal_ok w" "lsns_exact w" "filled av env enc w ks msgs" "k < length msgs"
  shows "concerns av env msgs i k \<longleftrightarrow> fst (snd (w ! (ks ! k))) = i"
proof -
  obtain lsn j o' where e: "w ! (ks ! k) = (lsn, j, o')" by (cases "w ! (ks ! k)")
  show ?thesis using filled_update(1) [OF assms e] e by (auto simp: concerns_def)
qed

lemma filled_topic:
  fixes D :: "('v, 'r, 'e) deployment"
  assumes "encoding_law (codec D) enc" "wal_ok w" "lsns_exact w" "filled (avro D) (codec D) enc w ks msgs"
  shows "plain_topic D msgs" "well_formed_topic D msgs"
proof -
  have at: "\<exists>doc key i u. deserialize (avro D) (m_payload m) = Some doc \<and> message_key (avro D) (codec D) m = Inr key
      \<and> well_formed (codec D) doc key \<and> record_update (codec D) doc key = Some (i, u) \<and> plain_id i"
    if "m \<in> set msgs" for m
  proof -
    from that obtain k where k: "k < length msgs" "msgs ! k = m" by (auto simp: in_set_conv_nth)
    obtain lsn i o' where e: "w ! (ks ! k) = (lsn, i, o')" by (cases "w ! (ks ! k)")
    note f = filled_update [OF assms k(1) e, unfolded k(2)]
    then obtain doc key where "deserialize (avro D) (m_payload m) = Some doc" "message_key (avro D) (codec D) m = Inr key"
      "well_formed (codec D) doc key" by blast
    with f(1) v4_facts(4) [OF f(2)] show ?thesis by (auto simp: message_update_def)
  qed
  show "well_formed_topic D msgs" unfolding well_formed_topic_def list_all_iff using at by fastforce
  show "plain_topic D msgs"
    unfolding plain_topic_def all_fit_def list_all_iff message_fits_def plain_record_def using at by fastforce
qed

section \<open>The table told by a complete topic\<close>

lemma last_filter_nth:
  assumes "j < length ks" "P (ks ! j)" "\<And>l. j < l \<Longrightarrow> l < length ks \<Longrightarrow> \<not> P (ks ! l)"
  shows "last (filter P ks) = ks ! j"
proof -
  have "ks = take j ks @ [ks ! j] @ drop (Suc j) ks" using id_take_nth_drop [OF assms(1)] by simp
  moreover have "filter P (drop (Suc j) ks) = []"
    using assms(3) by (auto simp: filter_empty_conv in_set_conv_nth)
  ultimately have "filter P ks = filter P (take j ks) @ [ks ! j]"
    using assms(2) by (metis append.right_neutral filter.simps filter_append)
  then show ?thesis by simp
qed

text \<open>Of the messages of an order the last one is its newest change.\<close>

lemma last_is_newest:
  assumes "encoding_law env enc" "wal_ok w" "lsns_exact w" "filled av env enc w ks msgs" "walk ks (length w)"
    and "j < length msgs" "concerns av env msgs i j" "\<And>l. j < l \<Longrightarrow> l < length msgs \<Longrightarrow> \<not> concerns av env msgs i l"
  shows "ks ! j = Max {m. m < length w \<and> fst (snd (w ! m)) = i}"
    and "\<And>m. m < length w \<Longrightarrow> fst (snd (w ! m)) = i \<Longrightarrow> m \<le> ks ! j"
proof -
  let ?P = "\<lambda>m. fst (snd (w ! m)) = i" and ?K = "{m. m < length w \<and> fst (snd (w ! m)) = i}"
  note c = filled_concerns [OF assms(1-4)]
  have len: "length msgs = length ks" using assms(4) by (auto simp: filled_def dest: list_all2_lengthD)
  have j: "?P (ks ! j)" "ks ! j < length w" using assms(6,7) c filled_nth(2) [OF assms(4)] by auto
  have later: "\<not> ?P (ks ! l)" if "j < l" "l < length ks" for l using assms(8) [of l] c that len by simp
  have "set ks \<subseteq> {..<length w}" using assms(4) by (simp add: filled_def)
  moreover have "?K \<noteq> {}" using j by blast
  ultimately have "last (filter ?P ks) = Max ?K" using walk_complete(3) [OF assms(5), of ?P] by simp
  moreover have "last (filter ?P ks) = ks ! j"
    by (rule last_filter_nth [of j ks ?P]) (use assms(6) len j(1) later in auto)
  ultimately show m: "ks ! j = Max ?K" by simp
  show "m \<le> ks ! j" if "m < length w" "?P m" for m unfolding m using that by (intro Max_ge) auto
qed

lemma wal_newer:
  assumes "wal_ok w" "k < l" "l < length w" "fst (snd (w ! k)) = fst (snd (w ! l))"
  shows "fst (w ! k) < fst (w ! l)"
  using assms unfolding wal_ok_def sorted_wrt_iff_nth_less newer_row_def by blast

lemma filled_newest_last:
  fixes D :: "('v, 'r, 'e) deployment"
  assumes "encoding_law (codec D) enc" "wal_ok w" "lsns_exact w" "filled (avro D) (codec D) enc w ks msgs" "walk ks (length w)"
  shows "newest_last D msgs"
proof -
  have "double_of_int n \<le> double_of_int n' \<and> (double_of_int n = double_of_int n' \<longrightarrow> d = d')"
    if j: "j < length msgs" "k \<le> j"
      and u: "message_update (avro D) (codec D) (msgs ! k) = Some (i, n, d)" "message_update (avro D) (codec D) (msgs ! j) = Some (i, n', d')"
      and l: "\<And>l. j < l \<Longrightarrow> l < length msgs \<Longrightarrow> \<not> concerns (avro D) (codec D) msgs i l" for j k i n d n' d'
  proof -
    have k: "k < length msgs" using j by simp
    obtain lk ik rk where ek: "w ! (ks ! k) = (lk, ik, rk)" by (cases "w ! (ks ! k)")
    obtain lj ij rj where ej: "w ! (ks ! j) = (lj, ij, rj)" by (cases "w ! (ks ! j)")
    note uk = filled_update(1) [OF assms(1-4) k ek] and uj = filled_update(1) [OF assms(1-4) j(1) ej]
    have eq: "ik = i" "ij = i" "n = lk" "n' = lj" using u uk uj by auto
    have cj: "concerns (avro D) (codec D) msgs i j" using u(2) by (auto simp: concerns_update)
    have le: "ks ! k \<le> ks ! j"
      by (rule last_is_newest(2) [OF assms j(1) cj l]) (use filled_nth(2) [OF assms(4) k] ek eq in auto)
    have ex: "exact_lsn lk" "exact_lsn lj"
      using assms(3) filled_nth(2) [OF assms(4)] k j(1) ek ej nth_mem unfolding lsns_exact_def by (metis fst_conv)+
    then have dbl: "double_of_int lk = lk" "double_of_int lj = lj" by (simp_all add: exact_lsn_def double_of_int_exact)
    show ?thesis
    proof (cases "ks ! k = ks ! j")
      case True
      with ek ej u uk uj show ?thesis by auto
    next
      case False
      with le wal_newer [OF assms(2), of "ks ! k" "ks ! j"] filled_nth(2) [OF assms(4) j(1)] have "lk < lj"
        by (simp add: ek ej eq)
      with dbl eq show ?thesis by simp
    qed
  qed
  then show ?thesis unfolding newest_last_def by (force split: option.splits prod.splits)
qed

lemma filled_table:
  fixes D :: "('v, 'r, 'e) deployment"
  assumes "encoding_law (codec D) enc" "wal_ok w" "lsns_exact w" "filled (avro D) (codec D) enc w ks msgs" "walk ks (length w)"
  shows "table_after D msgs i = map_option (row_document (codec D) enc i) (rows_after w i)"
proof -
  let ?K = "{k. k < length msgs \<and> concerns (avro D) (codec D) msgs i k}"
  have len: "length msgs = length ks" using assms(4) by (auto simp: filled_def dest: list_all2_lengthD)
  have ks: "set ks = {..<length w}" using walk_complete(1) [OF assms(5)] assms(4) by (simp add: filled_def)
  show ?thesis
  proof (cases "?K = {}")
    case True
    have "fst (snd (w ! m)) \<noteq> i" if m: "m < length w" for m
    proof -
      obtain k where "k < length ks" "ks ! k = m" using m ks in_set_conv_nth [of m ks] by auto
      with True filled_concerns [OF assms(1-4), of k i] len show ?thesis by auto
    qed
    then have "rows_after w i = None" unfolding rows_after_None in_set_conv_nth by (auto simp: image_iff in_set_conv_nth) (metis fst_conv snd_conv)
    moreover have "table_after D msgs i = None" using True by (intro table_empty) blast
    ultimately show ?thesis by simp
  next
    case False
    define j where "j = Max ?K"
    have fin: "finite ?K" by simp
    have j: "j < length msgs" "concerns (avro D) (codec D) msgs i j" using Max_in [OF fin False] by (simp_all add: j_def)
    have l: "\<not> concerns (avro D) (codec D) msgs i l" if "j < l" "l < length msgs" for l
      using that leD [OF Max_ge [OF fin]] unfolding j_def by blast
    obtain lsn i' o' where e: "w ! (ks ! j) = (lsn, i', o')" by (cases "w ! (ks ! j)")
    have i': "i' = i" using filled_concerns [OF assms(1-4) j(1)] j(2) e by simp
    have "rows_after w i = Some o'"
    proof (rule rows_after_last [of "ks ! j" w lsn])
      show "ks ! j < length w" by (rule filled_nth(2) [OF assms(4) j(1)])
      show "w ! (ks ! j) = (lsn, i, o')" by (simp add: e i')
      show "fst (snd (w ! m)) \<noteq> i" if "ks ! j < m" "m < length w" for m
        using last_is_newest(2) [OF assms j l, of m] that by auto
    qed
    moreover have "table_after D msgs i = Some (row_document (codec D) enc i o')"
      using table_last [OF j(1) _ l] filled_update(1) [OF assms(1-4) j(1) e] by (simp add: i')
    ultimately show ?thesis by simp
  qed
qed

end
