(* ===== verification/Whole_System.thy ===== *)
theory Whole_System
  imports Change_Capture
begin

text \<open>
  The whole system as one step relation: clients call the API, which changes the table and reads the cache;
  Debezium publishes the table's log to the topic, repeating some of it when it restarts; the three consumers
  bring the topic to Redis, to Elasticsearch and to the mail. The composition of the models of \<open>api/src\<close> and
  \<open>consumers/src\<close> over one PostgreSQL, one topic and one Redis, as \<open>docker-compose.yml\<close> puts them together.
\<close>

section \<open>State and steps\<close>

text \<open>The parts outside the program, and the state. \<open>captured_upto\<close> is the connector's position in the log.\<close>

record ('d, 'o, 'v, 'r, 'e) world =
  web :: api_env
  postgres :: "'d pg_api"
  orders :: "('d, 'o) order_table"
  encoded :: "'o row_encoding"
  sinks :: "('v, 'r, 'e) deployment"

record ('d, 'r, 'e) system =
  api :: "('d, 'r) api_state"
  pipe :: "('r, 'e) pipeline"
  captured_upto :: nat

abbreviation wal_in :: "('d, 'o, 'v, 'r, 'e) world \<Rightarrow> ('d, 'r, 'e) system \<Rightarrow> 'o wal_entry list" where
  "wal_in W s \<equiv> wal_of (orders W) (db (api s))"

abbreviation row_in :: "('d, 'o, 'v, 'r, 'e) world \<Rightarrow> ('d, 'r, 'e) system \<Rightarrow> string \<Rightarrow> 'o option" where
  "row_in W s \<equiv> rows_of (orders W) (db (api s))"

abbreviation document_in :: "('d, 'o, 'v, 'r, 'e) world \<Rightarrow> string \<Rightarrow> 'o \<Rightarrow> string" where
  "document_in W \<equiv> row_document (codec (sinks W)) (encoded W)"

abbreviation captures_in :: "('d, 'o, 'v, 'r, 'e) world \<Rightarrow> message \<Rightarrow> 'o wal_entry \<Rightarrow> bool" where
  "captures_in W \<equiv> captures (avro (sinks W)) (codec (sinks W)) (encoded W)"

inductive system_step :: "('d, 'o, 'v, 'r, 'e) world \<Rightarrow> ('d, 'r, 'e) system \<Rightarrow> ('d, 'r, 'e) system \<Rightarrow> bool" for W where
  posting: "quote_free_order (web W) body \<Longrightarrow> post_order (web W) (postgres W) body (api s) = (r, a) \<Longrightarrow>
     system_step W s (s\<lparr>api := a\<rparr>)"
| patching: "patch_status (web W) (postgres W) i body (api s) = (r, a) \<Longrightarrow> system_step W s (s\<lparr>api := a\<rparr>)"
| getting: "quote_free i \<Longrightarrow> get_order (web W) (postgres W) (redis (sinks W)) i (api s) = (r, a) \<Longrightarrow>
     system_step W s (s\<lparr>api := a\<rparr>)"
| restarting: "system_step W s (s\<lparr>api := (api s)\<lparr>connected := c, get_plan := plan, draw := f, draws := 0\<rparr>\<rparr>)"
| capturing: "captured_upto s < length (wal_in W s) \<Longrightarrow> captures_in W msg (wal_in W s ! captured_upto s) \<Longrightarrow>
     m_offset msg = int (length (topic (pipe s))) \<Longrightarrow>
     system_step W s (s\<lparr>pipe := (pipe s)\<lparr>topic := topic (pipe s) @ [msg]\<rparr>, captured_upto := Suc (captured_upto s)\<rparr>)"
| recapturing: "q \<le> captured_upto s \<Longrightarrow> system_step W s (s\<lparr>captured_upto := q\<rparr>)"
| consuming: "pipeline_step (sinks W) (pipe s) p \<Longrightarrow> topic p = topic (pipe s) \<Longrightarrow>
     system_step W s (s\<lparr>pipe := p, api := (api s)\<lparr>kv := server (client_of (updater p))\<rparr>\<rparr>)"

definition system_start :: "('d, 'o, 'v, 'r, 'e) world \<Rightarrow> ('d, 'r, 'e) system \<Rightarrow> bool" where
  "system_start W s \<longleftrightarrow>
     wal_in W s = [] \<and> row_in W s = Map.empty \<and> pipeline_start (sinks W) (pipe s) \<and> captured_upto s = 0
     \<and> kv (api s) = server (client_of (updater (pipe s)))"

inductive running_system :: "('d, 'o, 'v, 'r, 'e) world \<Rightarrow> ('d, 'r, 'e) system \<Rightarrow> bool" for W where
  started: "system_start W s \<Longrightarrow> running_system W s"
| stepped: "running_system W s \<Longrightarrow> system_step W s s' \<Longrightarrow> running_system W s'"

text \<open>The laws of the parts outside.\<close>

definition world_ok :: "('d, 'o, 'v, 'r, 'e) world \<Rightarrow> bool" where
  "world_ok W \<longleftrightarrow>
     lawful (sinks W) \<and> pg_laws (postgres W) (orders W) \<and> encoding_law (codec (sinks W)) (encoded W)"

section \<open>The invariant\<close>

definition system_inv :: "('d, 'o, 'v, 'r, 'e) world \<Rightarrow> ('d, 'r, 'e) system \<Rightarrow> bool" where
  "system_inv W s \<longleftrightarrow>
     table_ok (orders W) (db (api s)) \<and> reachable (sinks W) (pipe s)
     \<and> kv (api s) = server (client_of (updater (pipe s)))
     \<and> (\<exists>ks. walk ks (captured_upto s)
          \<and> filled (avro (sinks W)) (codec (sinks W)) (encoded W) (wal_in W s) ks (topic (pipe s)))"

lemma start_inv:
  assumes "system_start W s"
  shows "system_inv W s"
proof -
  have "topic (pipe s) = []" using assms by (auto simp: system_start_def pipeline_start_def)
  moreover have "table_ok (orders W) (db (api s))"
    using assms by (auto simp: system_start_def table_ok_def rows_after_def)
  ultimately show ?thesis
    using assms by (auto simp: system_start_def system_inv_def filled_def intro: reachable.initial walk.start)
qed

lemma moved_inv:
  assumes "system_inv W s" "moved (orders W) (db (api s)) (db a)" "kv a = kv (api s)"
  shows "system_inv W (s\<lparr>api := a\<rparr>)"
proof -
  obtain new where new: "wal_of (orders W) (db a) = wal_in W s @ new" using moved_grows [OF assms(2)] by blast
  have "table_ok (orders W) (db a)" using assms(1,2) moved_keeps by (auto simp: system_inv_def)
  with assms(1,3) show ?thesis by (auto simp: system_inv_def new intro: filled_grows)
qed

lemma captured_inv:
  assumes "system_inv W s" "captured_upto s < length (wal_in W s)" "captures_in W msg (wal_in W s ! captured_upto s)"
    and "m_offset msg = int (length (topic (pipe s)))"
  shows "system_inv W (s\<lparr>pipe := (pipe s)\<lparr>topic := topic (pipe s) @ [msg]\<rparr>, captured_upto := Suc (captured_upto s)\<rparr>)"
proof -
  obtain ks where ks: "walk ks (captured_upto s)"
    "filled (avro (sinks W)) (codec (sinks W)) (encoded W) (wal_in W s) ks (topic (pipe s))"
    using assms(1) by (auto simp: system_inv_def)
  have "reachable (sinks W) ((pipe s)\<lparr>topic := topic (pipe s) @ [msg]\<rparr>)"
    by (rule reachable.step [OF _ pipeline_step.published [OF assms(4)]]) (use assms(1) in \<open>simp add: system_inv_def\<close>)
  moreover have "walk (ks @ [captured_upto s]) (Suc (captured_upto s))" by (rule walk.forth [OF ks(1)])
  ultimately show ?thesis
    using assms(1) filled_append [OF ks(2) assms(2,3)] by (auto simp: system_inv_def)
qed

lemma running_inv:
  assumes "running_system W s" "world_ok W"
  shows "system_inv W s"
  using assms(1)
proof induction
  case (started s)
  then show ?case by (rule start_inv)
next
  case (stepped s s')
  have pg: "pg_laws (postgres W) (orders W)" using assms(2) by (simp add: world_ok_def)
  have ok: "table_ok (orders W) (db (api s))" using stepped.IH by (simp add: system_inv_def)
  from stepped.hyps(2) show ?case
  proof cases
    case (posting body r a)
    with post_order_keeps [OF pg posting(2,3)] moved_inv [OF stepped.IH] show ?thesis by blast
  next
    case (patching i body r a)
    with patch_status_keeps [OF pg patching(2) ok] moved_inv [OF stepped.IH] show ?thesis by blast
  next
    case (getting i r a)
    with get_order_keeps [OF pg getting(2,3)] moved_inv [OF stepped.IH, of a] show ?thesis by (simp add: moved_def)
  next
    case (restarting c plan f)
    with moved_inv [OF stepped.IH] show ?thesis by (simp add: moved_def)
  next
    case (capturing msg)
    with captured_inv [OF stepped.IH] show ?thesis by simp
  next
    case (recapturing q)
    with stepped.IH show ?thesis by (auto simp: system_inv_def intro: walk.rewound)
  next
    case (consuming p)
    with stepped.IH show ?thesis by (auto simp: system_inv_def intro: reachable.step)
  qed
qed

lemma running_steps: "(system_step W)\<^sup>*\<^sup>* s s' \<Longrightarrow> running_system W s \<Longrightarrow> running_system W s'"
  by (induction rule: rtranclp_induct) (auto intro: running_system.stepped)

text \<open>What the topic is when the connector stands at the end of the log.\<close>

lemma captured_all:
  assumes "running_system W s" "world_ok W" "lsns_exact (wal_in W s)" "captured_upto s = length (wal_in W s)"
  shows "plain_topic (sinks W) (topic (pipe s))" "well_formed_topic (sinks W) (topic (pipe s))"
    "newest_last (sinks W) (topic (pipe s))"
    "table_after (sinks W) (topic (pipe s)) i = map_option (document_in W i) (row_in W s i)"
proof -
  let ?D = "sinks W" and ?w = "wal_in W s"
  have inv: "system_inv W s" by (rule running_inv [OF assms(1,2)])
  then obtain ks where ks: "walk ks (length ?w)" "filled (avro ?D) (codec ?D) (encoded W) ?w ks (topic (pipe s))"
    using assms(4) by (auto simp: system_inv_def)
  have enc: "encoding_law (codec ?D) (encoded W)" using assms(2) by (simp add: world_ok_def)
  have ok: "table_ok (orders W) (db (api s))" using inv by (simp add: system_inv_def)
  note f = enc table_wal [OF ok] assms(3) ks(2)
  show "plain_topic ?D (topic (pipe s))" "well_formed_topic ?D (topic (pipe s))" by (rule filled_topic [OF f])+
  show "newest_last ?D (topic (pipe s))" by (rule filled_newest_last [OF f ks(1)])
  have "row_in W s = rows_after ?w" using ok by (simp add: table_ok_def)
  with filled_table [OF f ks(1), of i] show "table_after ?D (topic (pipe s)) i = map_option (document_in W i) (row_in W s i)"
    by simp
qed

lemma consistent_when_captured:
  assumes "running_system W s" "world_ok W" "lsns_exact (wal_in W s)" "captured_upto s = length (wal_in W s)"
  shows "consistent_pipeline (sinks W) (pipe s)"
proof -
  have "reachable (sinks W) (pipe s)" using running_inv [OF assms(1,2)] by (simp add: system_inv_def)
  then show ?thesis
    by (rule reachable_consistent [OF _ _ captured_all(1) [OF assms]]) (use assms(2) in \<open>simp add: world_ok_def\<close>)
qed

section \<open>Stores at the end of the log\<close>

text \<open>Both stores show the table.\<close>

definition stores_show_rows :: "('d, 'o, 'v, 'r, 'e) world \<Rightarrow> ('d, 'r, 'e) system \<Rightarrow> bool" where
  "stores_show_rows W s \<longleftrightarrow>
     (\<forall>i. cached_document (sinks W) (pipe s) i = map_option (document_in W i) (row_in W s i)
        \<and> indexed_document (sinks W) (pipe s) i = map_option (document_in W i) (row_in W s i))"

definition exhausted :: "('d, 'r, 'e) system \<Rightarrow> bool" where
  "exhausted s \<longleftrightarrow>
     retries_exhausted (trace (inst (updater (pipe s)))) \<or> retries_exhausted (trace (inst (indexer (pipe s))))"

text \<open>The connector stands at the end of the log, the groups of the two stores at the end of the topic.\<close>

definition caught_up :: "('d, 'o, 'v, 'r, 'e) world \<Rightarrow> ('d, 'r, 'e) system \<Rightarrow> bool" where
  "caught_up W s \<longleftrightarrow>
     captured_upto s = length (wal_in W s) \<and> saved_offset (updater (pipe s)) = length (topic (pipe s))
     \<and> saved_offset (indexer (pipe s)) = length (topic (pipe s))"

lemma caught_up_shows:
  assumes "running_system W s" "world_ok W" "lsns_exact (wal_in W s)" "caught_up W s" "\<not> exhausted s"
  shows "stores_show_rows W s"
proof -
  have c: "captured_upto s = length (wal_in W s)" using assms(4) by (simp add: caught_up_def)
  note t = captured_all [OF assms(1-3) c] and con = consistent_when_captured [OF assms(1-3) c]
  from cache_shows_table [OF con t(3)] index_shows_table [OF con] t(4) assms(4,5) show ?thesis
    by (simp add: stores_show_rows_def caught_up_def exhausted_def)
qed

section \<open>Catching up\<close>

text \<open>The connector can publish what is in the log.\<close>

definition publishable :: "('d, 'o, 'v, 'r, 'e) world \<Rightarrow> 'o wal_entry list \<Rightarrow> bool" where
  "publishable W w \<longleftrightarrow> (\<forall>e \<in> set w. \<forall>n. \<exists>msg. captures_in W msg e \<and> m_offset msg = n)"

lemma capture_rest:
  assumes "publishable W (wal_in W s)" "captured_upto s \<le> length (wal_in W s)"
  shows "\<exists>msgs. (system_step W)\<^sup>*\<^sup>* s (s\<lparr>pipe := (pipe s)\<lparr>topic := msgs\<rparr>, captured_upto := length (wal_in W s)\<rparr>)"
  using assms
proof (induction "length (wal_in W s) - captured_upto s" arbitrary: s)
  case 0
  then show ?case by (intro exI [of _ "topic (pipe s)"]) simp
next
  case (Suc n)
  then have lt: "captured_upto s < length (wal_in W s)" by simp
  then obtain msg where msg: "captures_in W msg (wal_in W s ! captured_upto s)" "m_offset msg = int (length (topic (pipe s)))"
    using Suc.prems(1) nth_mem unfolding publishable_def by blast
  let ?s = "s\<lparr>pipe := (pipe s)\<lparr>topic := topic (pipe s) @ [msg]\<rparr>, captured_upto := Suc (captured_upto s)\<rparr>"
  have "n = length (wal_in W ?s) - captured_upto ?s" "publishable W (wal_in W ?s)" "captured_upto ?s \<le> length (wal_in W ?s)"
    using Suc.hyps(2) Suc.prems(1) lt by simp_all
  from Suc.hyps(1) [OF this] obtain msgs where
    "(system_step W)\<^sup>*\<^sup>* ?s (?s\<lparr>pipe := (pipe ?s)\<lparr>topic := msgs\<rparr>, captured_upto := length (wal_in W ?s)\<rparr>)" by blast
  with system_step.capturing [OF lt msg] show ?case by (auto intro: converse_rtranclp_into_rtranclp)
qed

lemma topic_extends: "pipeline_step D p p' \<Longrightarrow> \<exists>new. topic p' = topic p @ new"
  by (cases rule: pipeline_step.cases) auto

lemma topic_extends_steps: "(pipeline_step D)\<^sup>*\<^sup>* p p' \<Longrightarrow> \<exists>new. topic p' = topic p @ new"
proof (induction rule: rtranclp_induct)
  case (step p1 p2)
  with topic_extends [of D p1 p2] show ?case by auto
qed simp

text \<open>What the consumers do while nothing is published is what the system does.\<close>

lemma consume_steps:
  assumes "(pipeline_step (sinks W))\<^sup>*\<^sup>* (pipe s) p" "topic p = topic (pipe s)"
    and "kv (api s) = server (client_of (updater (pipe s)))"
  shows "(system_step W)\<^sup>*\<^sup>* s (s\<lparr>pipe := p, api := (api s)\<lparr>kv := server (client_of (updater p))\<rparr>\<rparr>)"
  using assms(1,2)
proof (induction rule: rtranclp_induct)
  case base
  have "s\<lparr>pipe := pipe s, api := (api s)\<lparr>kv := kv (api s)\<rparr>\<rparr> = s" by simp
  then show ?case by (simp add: assms(3) [symmetric])
next
  case (step p1 p2)
  obtain n1 n2 where "topic p1 = topic (pipe s) @ n1" "topic p2 = topic p1 @ n2"
    using topic_extends_steps [OF step.hyps(1)] topic_extends [OF step.hyps(2)] by blast
  with step.prems have t: "topic p1 = topic (pipe s)" by simp
  let ?s = "s\<lparr>pipe := p1, api := (api s)\<lparr>kv := server (client_of (updater p1))\<rparr>\<rparr>"
  have "system_step W ?s (?s\<lparr>pipe := p2, api := (api ?s)\<lparr>kv := server (client_of (updater p2))\<rparr>\<rparr>)"
    by (rule system_step.consuming) (use step.hyps(2) step.prems t in simp_all)
  with step.IH [OF t] show ?case by simp
qed

text \<open>
  From every state there is a way on, on which no client writes, to one in which all has arrived; the API has
  been restarted on it.
\<close>

lemma catches_up:
  assumes "running_system W s" "world_ok W" "lsns_exact (wal_in W s)" "publishable W (wal_in W s)"
    and "es_reliable (elastic (sinks W))"
  obtains s' where "(system_step W)\<^sup>*\<^sup>* s s'" "db (api s') = db (api s)" "caught_up W s'" "exhausted s' \<longleftrightarrow> exhausted s"
    "connected (api s')" "get_plan (api s') = []"
proof -
  have "captured_upto s \<le> length (wal_in W s)" if "system_inv W s"
  proof (rule ccontr)
    assume n: "\<not> captured_upto s \<le> length (wal_in W s)"
    from that obtain ks where "walk ks (captured_upto s)" "set ks \<subseteq> {..<length (wal_in W s)}"
      by (auto simp: system_inv_def filled_def)
    with walk_covers [of ks "captured_upto s" "length (wal_in W s)"] n show False by auto
  qed
  with running_inv [OF assms(1,2)] obtain msgs where
    1: "(system_step W)\<^sup>*\<^sup>* s (s\<lparr>pipe := (pipe s)\<lparr>topic := msgs\<rparr>, captured_upto := length (wal_in W s)\<rparr>)"
    using capture_rest [OF assms(4)] by blast
  let ?s1 = "s\<lparr>pipe := (pipe s)\<lparr>topic := msgs\<rparr>, captured_upto := length (wal_in W s)\<rparr>"
  have run: "running_system W ?s1" by (rule running_steps [OF 1 assms(1)])
  have "lsns_exact (wal_in W ?s1)" "captured_upto ?s1 = length (wal_in W ?s1)" using assms(3) by simp_all
  note t = captured_all [OF run assms(2) this]
  have r: "reachable (sinks W) (pipe ?s1)" and kv: "kv (api ?s1) = server (client_of (updater (pipe ?s1)))"
    using running_inv [OF run assms(2)] by (simp_all add: system_inv_def)
  have "lawful (sinks W)" using assms(2) by (simp add: world_ok_def)
  from this assms(5) r t(1,2) obtain p where p: "(pipeline_step (sinks W))\<^sup>*\<^sup>* (pipe ?s1) p" "topic p = topic (pipe ?s1)"
    "saved_offset (updater p) = length (topic (pipe ?s1))" "saved_offset (indexer p) = length (topic (pipe ?s1))"
    "retries_exhausted (trace (inst (updater p))) \<longleftrightarrow> retries_exhausted (trace (inst (updater (pipe ?s1))))"
    "retries_exhausted (trace (inst (indexer p))) \<longleftrightarrow> retries_exhausted (trace (inst (indexer (pipe ?s1))))"
    by (rule stores_catch_up)
  let ?s2 = "?s1\<lparr>pipe := p, api := (api ?s1)\<lparr>kv := server (client_of (updater p))\<rparr>\<rparr>"
  let ?s3 = "?s2\<lparr>api := (api ?s2)\<lparr>connected := True, get_plan := [], draw := draw (api ?s2), draws := 0\<rparr>\<rparr>"
  have "(system_step W)\<^sup>*\<^sup>* ?s1 ?s2" by (rule consume_steps [OF p(1,2) kv])
  moreover have "system_step W ?s2 ?s3" by (rule system_step.restarting)
  ultimately have "(system_step W)\<^sup>*\<^sup>* s ?s3" using 1 by (meson rtranclp.rtrancl_into_rtrancl rtranclp_trans)
  then show thesis by (rule that) (use p in \<open>simp_all add: caught_up_def exhausted_def\<close>)
qed

end
