(* ===== verification/System_Sample.thy ===== *)
theory System_Sample
  imports Whole_System
begin

text \<open>
  A world in which the laws of the parts outside hold, for the witnesses of the system's properties: a
  database that is its log, and parsers that know the documents of one order. One order has been posted, and
  its status patched.
\<close>

section \<open>A database that is its log\<close>

definition first_quoted :: "string \<Rightarrow> string" where
  "first_quoted sql = takeWhile (\<lambda>c. c \<noteq> CHR 0x27) (tl (dropWhile (\<lambda>c. c \<noteq> CHR 0x27) sql))"

lemma first_quoted_between:
  "CHR 0x27 \<notin> set pre \<Longrightarrow> quote_free i \<Longrightarrow> first_quoted (pre @ CHR 0x27 # i @ CHR 0x27 # rest) = i"
  unfolding first_quoted_def by (subst dropWhile_append2) (auto simp: takeWhile_append)

lemma first_quoted_sql [simp]:
  "quote_free i \<Longrightarrow> first_quoted (insert_sql i u a t) = i"
  "quote_free i \<Longrightarrow> first_quoted (select_sql i) = i"
  unfolding insert_sql_def select_sql_def by (simp_all only: append.simps append_assoc first_quoted_between) (simp_all add: first_quoted_def takeWhile_append)

definition next_lsn :: "string wal_entry list \<Rightarrow> int" where
  "next_lsn d = Max (insert 0 (fst ` set d)) + 1"

lemma next_lsn_newer: "e \<in> set d \<Longrightarrow> fst e < next_lsn d"
  by (simp add: next_lsn_def less_iff_succ_less_eq)

definition log_pg :: "string wal_entry list pg_api" where
  "log_pg =
     \<lparr>run_sql = (\<lambda>sql ps d.
        case ps of
          [st, i] \<Rightarrow>
            (if \<not> uuid_v4 i then (Inl ''invalid input syntax for type uuid'', d)
             else if rows_after d i = None then (Inr 0, d) else (Inr 1, d @ [(next_lsn d, i, st)]))
        | _ \<Rightarrow>
            (let i = first_quoted sql in
             if rows_after d i = None then (Inr 1, d @ [(next_lsn d, i, ''CREATED'')]) else (Inl ''duplicate key'', d))),
      query_sql = (\<lambda>sql d.
        let i = first_quoted sql in
        if \<not> uuid_v4 i then (Inl ''invalid input syntax for type uuid'', d)
        else (Inr (case rows_after d i of None \<Rightarrow> [] | Some st \<Rightarrow> [[Some i, Some [], Some [], Some st, Some []]]), d))\<rparr>"

definition log_table :: "(string wal_entry list, string) order_table" where
  "log_table =
     \<lparr>rows_of = rows_after, wal_of = (\<lambda>d. d), canonical = (\<lambda>i. if uuid_v4 i then Some i else None),
      new_row = (\<lambda>i u a t. Some ''CREATED''), with_status = (\<lambda>st o'. Some st),
      columns = (\<lambda>i o'. [Some i, Some [], Some [], Some o', Some []])\<rparr>"

lemma log_pg_laws: "pg_laws log_pg log_table"
proof -
  have "insert_law log_pg log_table"
    by (auto simp: insert_law_def log_pg_def log_table_def Let_def v4_facts(2) changed_def unchanged_def next_lsn_newer
        split: if_splits)
  moreover have "update_law log_pg log_table"
    by (auto simp: update_law_def log_pg_def log_table_def changed_def unchanged_def next_lsn_newer split: if_splits)
  moreover have "select_law log_pg log_table"
    by (auto simp: select_law_def log_pg_def log_table_def Let_def unchanged_def split: option.splits)
  ultimately show ?thesis by (simp add: pg_laws_def log_table_def)
qed

section \<open>One order\<close>

definition sample_id :: string where
  "sample_id = generate_uuid (\<lambda>k. k) 0"

definition sample_row :: "string row_encoding" where
  "sample_row i st = [(''id'', JStr i), (''status'', JStr st)]"

definition sample_event :: "int \<Rightarrow> string \<Rightarrow> json" where
  "sample_event lsn st =
     JObj [(''after'', JObj [(''dbserver1.public.orders.Value'', JObj (sample_row sample_id st))]),
           (''source'', JObj [(''lsn'', JObj [(''long'', JInt lsn)])])]"

text \<open>A printer that prints the status of a row, and the source of an answer before it.\<close>

definition sample_dump :: "json \<Rightarrow> string" where
  "sample_dump j =
     (case j of
        JObj ms \<Rightarrow>
          (case map_of ms ''source'' of Some (JStr t) \<Rightarrow> t @ '' '' | _ \<Rightarrow> []) @
          (case map_of ms ''status'' of Some (JStr t) \<Rightarrow> t | _ \<Rightarrow> [])
      | _ \<Rightarrow> ''[]'')"

definition sample_codec :: cpp_env where
  "sample_codec = sample_env\<lparr>dump := (\<lambda>j. Inr (sample_dump j))\<rparr>"

definition sample_web :: api_env where
  "sample_web =
     \<lparr>json_env = sample_codec,
      parse_json = (\<lambda>t.
        if t = ''new'' then Inr (JObj [(''items'', JArr []), (''total_amount'', JInt 5), (''user_id'', JStr ''u'')])
        else if t = ''ship'' then Inr (JObj [(''status'', JStr ''SHIPPED'')])
        else if t = ''CREATED'' \<or> t = ''SHIPPED'' then Inr (JObj (sample_row sample_id t)) else Inl ''parse_error''),
      print_double = (\<lambda>r. ''5''), read_double = (\<lambda>t. None)\<rparr>"

definition sample_world ::
    "(string wal_entry list, string, unit, string \<Rightarrow> string option, string \<Rightarrow> string option) world" where
  "sample_world =
     \<lparr>web = sample_web, postgres = log_pg, orders = log_table, encoded = sample_row,
      sinks = sample_deployment\<lparr>
        avro := sample_avro\<lparr>json_parse := (\<lambda>t.
          if t = ''evt1'' then Some (sample_event 1 ''CREATED'') else if t = ''evt2'' then Some (sample_event 2 ''SHIPPED'')
          else None)\<rparr>,
        codec := sample_codec\<rparr>\<rparr>"

definition sample_api :: "(string wal_entry list, string \<Rightarrow> string option) api_state" where
  "sample_api =
     \<lparr>db = [], kv = server sample_client, connected = True, get_plan = [], draw = (\<lambda>k. k), draws = 0, api_log = []\<rparr>"

definition sample_system :: "(string wal_entry list, string \<Rightarrow> string option, string \<Rightarrow> string option) system" where
  "sample_system = \<lparr>api = sample_api, pipe = sample_pipeline\<lparr>topic := []\<rparr>, captured_upto = 0\<rparr>"

lemma sample_world_parts [simp]:
  "web sample_world = sample_web" "postgres sample_world = log_pg" "orders sample_world = log_table"
  "encoded sample_world = sample_row" "codec (sinks sample_world) = sample_codec"
  "redis (sinks sample_world) = map_redis" "elastic (sinks sample_world) = map_es"
  by (simp_all add: sample_world_def sample_deployment_def)

lemma log_table_parts [simp]:
  "rows_of log_table = rows_after" "wal_of log_table = (\<lambda>d. d)" "new_row log_table i u a t = Some ''CREATED''"
  "with_status log_table st o' = Some st"
  by (simp_all add: log_table_def)

lemma sample_document [simp]: "row_document sample_codec sample_row i st = st"
  by (simp add: row_document_def sample_codec_def sample_dump_def sample_row_def)

lemma sample_id_v4 [simp]: "uuid_v4 sample_id"
  unfolding sample_id_def by (rule generated_v4)

lemma sample_world_ok: "world_ok sample_world"
proof -
  have "encoding_law sample_codec sample_row"
    by (simp add: encoding_law_def sample_row_def sample_codec_def)
  moreover have "lawful (sinks sample_world)" using sample_lawful by (simp add: lawful_def sample_world_def)
  ultimately show ?thesis by (simp add: world_ok_def log_pg_laws)
qed

lemma sample_started: "running_system sample_world sample_system"
proof -
  have "pipeline_start (sinks sample_world) (sample_pipeline\<lparr>topic := []\<rparr>)"
    unfolding pipeline_start_def
    by (intro exI [of _ "sample_consumer sample_client"] exI [of _ "sample_consumer sample_index"])
      (simp add: sample_pipeline_def sample_client_def map_redis_def map_es_def es_view_of_def sample_index_def sample_world_def
        sample_deployment_def)
  then have "system_start sample_world sample_system"
    by (simp add: system_start_def sample_system_def sample_api_def log_table_def rows_after_def sample_pipeline_def sample_consumer_def)
  then show ?thesis by (rule running_system.started)
qed

section \<open>Posted and patched\<close>

lemma sample_published:
  "captures_in sample_world (sample_message n ''evt1'') (1, sample_id, ''CREATED'')"
  "captures_in sample_world (sample_message n ''evt2'') (2, sample_id, ''SHIPPED'')"
  by (auto simp: captures_def deserialize_def wire_format_def message_key_def decoded_key_def sample_message_def
      sample_world_def sample_deployment_def sample_event_def)

lemma sample_publishable:
  "publishable sample_world [(1, sample_id, ''CREATED'')]"
  "publishable sample_world [(1, sample_id, ''CREATED''), (2, sample_id, ''SHIPPED'')]"
proof -
  have o: "m_offset (sample_message n t) = n" for n t by (simp add: sample_message_def)
  have 1: "\<exists>msg. captures_in sample_world msg (1, sample_id, ''CREATED'') \<and> m_offset msg = n" for n
    using sample_published(1) o by blast
  have 2: "\<exists>msg. captures_in sample_world msg (2, sample_id, ''SHIPPED'') \<and> m_offset msg = n" for n
    using sample_published(2) o by blast
  show "publishable sample_world [(1, sample_id, ''CREATED'')]"
    unfolding publishable_def using 1 by (simp only: list.set ball_simps) simp
  show "publishable sample_world [(1, sample_id, ''CREATED''), (2, sample_id, ''SHIPPED'')]"
    unfolding publishable_def using 1 2 by (simp only: list.set ball_simps) simp
qed

lemma sample_lsns:
  "lsns_exact [(1, sample_id, ''CREATED'')]" "lsns_exact [(1, sample_id, ''CREATED''), (2, sample_id, ''SHIPPED'')]"
  by (simp_all add: lsns_exact_def exact_lsn_def)

lemma sample_quote_free: "quote_free_order sample_web ''new''"
  by (simp add: quote_free_order_def order_fields_def Let_def parsed_def at_checked_def is_object_def get_text_def get_double_def
      sample_web_def sample_codec_def sample_dump_def)

definition posted_api :: "(string wal_entry list, string \<Rightarrow> string option) api_state" where
  "posted_api = snd (post_order sample_web log_pg ''new'' sample_api)"

lemma sample_posted:
  "post_order sample_web log_pg ''new'' sample_api = (reply_text 201 ''CREATED'', posted_api)"
  "db posted_api = [(1, sample_id, ''CREATED'')]"
proof -
  have "CHR 0x27 \<notin> set sample_id" by (rule v4_facts(2)) simp
  then have "post_order sample_web log_pg ''new'' sample_api = (reply_text 201 ''CREATED'', posted_api)
    \<and> db posted_api = [(1, sample_id, ''CREATED'')]"
    by (simp add: posted_api_def post_order_def create_order_def Let_def order_fields_def parsed_def at_checked_def is_object_def
        get_text_def get_double_def sample_web_def sample_codec_def sample_dump_def sample_api_def log_pg_def next_lsn_def
        rows_after_def api_event_def flip: sample_id_def)
  then show "post_order sample_web log_pg ''new'' sample_api = (reply_text 201 ''CREATED'', posted_api)"
    "db posted_api = [(1, sample_id, ''CREATED'')]" by simp_all
qed

lemma sample_posted_running: "running_system sample_world (sample_system\<lparr>api := posted_api\<rparr>)"
  by (rule running_system.stepped [OF sample_started])
    (rule system_step.posting [of _ "''new''"], simp_all add: sample_quote_free sample_posted(1) sample_system_def)

definition patched_api :: "(string wal_entry list, string \<Rightarrow> string option) api_state" where
  "patched_api = snd (patch_status sample_web log_pg sample_id ''ship'' posted_api)"

lemma sample_patched:
  "reply_status (fst (patch_status sample_web log_pg sample_id ''ship'' posted_api)) = 200"
  "db patched_api = [(1, sample_id, ''CREATED''), (2, sample_id, ''SHIPPED'')]"
  using sample_posted(2)
  by (simp_all add: patched_api_def patch_status_def update_order_status_def parsed_def at_checked_def is_object_def get_text_def
      sample_web_def log_pg_def next_lsn_def rows_after_def api_event_def)

lemma sample_unexhausted [simp]: "\<not> exhausted (sample_system\<lparr>api := a\<rparr>)" "\<not> exhausted sample_system"
  by (simp_all add: exhausted_def sample_system_def retries_exhausted_def sample_pipeline_def group_start_def sample_consumer_def)

text \<open>The API reads the two documents of the order back.\<close>

lemma sample_parses:
  "st \<in> {''CREATED'', ''SHIPPED''} \<Longrightarrow> parse_json sample_web st = Inr (JObj (sample_row sample_id st))"
  "json_env sample_web = sample_codec"
  by (auto simp: sample_web_def)

lemma sample_answer [simp]:
  "dump sample_codec (JObj (insert_member ''source'' (JStr ''redis'') (sample_row i st))) = Inr (''redis '' @ st)"
  by (simp add: sample_codec_def sample_dump_def sample_row_def)

end
