(* ===== verification/System_Properties.thy ===== *)
theory System_Properties
  imports System_Sample
begin

text \<open>
  What the whole system promises its clients: the stores come to show the database, a read of the cache serves
  the row, and what the API has accepted can be read from the cache and the index.
\<close>

section \<open>Reading a row from the cache\<close>

text \<open>The API can read the document of the row back and print it with its source.\<close>

definition readable :: "('d, 'o, 'v, 'r, 'e) world \<Rightarrow> string \<Rightarrow> 'o \<Rightarrow> string \<Rightarrow> bool" where
  "readable W i o' answer \<longleftrightarrow>
     CHR 0x00 \<notin> set (document_in W i o') \<and> parse_json (web W) (document_in W i o') = Inr (JObj (encoded W i o'))
     \<and> dump (json_env (web W)) (JObj (insert_member ''source'' (JStr ''redis'') (encoded W i o'))) = Inr answer"

lemma v4_no_nul:
  assumes "uuid_v4 i"
  shows "CHR 0x00 \<notin> set i"
  using uuid_chars [OF assms] by (force simp: hex_digit_char_def)

lemma row_served:
  assumes "system_inv W s" "stores_show_rows W s" "row_in W s i = Some o'" "connected (api s)" "get_plan (api s) = []"
    and "readable W i o' answer"
  shows "get_order (web W) (postgres W) (redis (sinks W)) i (api s) = (reply_text 200 answer, api_event (''api_cache_hit'', [i]) (api s))"
proof -
  have ok: "table_ok (orders W) (db (api s))" and kv: "kv (api s) = server (client_of (updater (pipe s)))"
    using assms(1) by (simp_all add: system_inv_def)
  have "cached_document (sinks W) (pipe s) i = Some (document_in W i o')"
    using assms(2,3) by (simp add: stores_show_rows_def)
  from cached_document_read [OF this] have g: "redis_get (redis (sinks W)) (order_key i) (kv (api s)) = Some (document_in W i o')"
    by (simp add: kv)
  have "CHR 0x00 \<notin> set i" by (rule v4_no_nul [OF table_ids [OF ok assms(3)]])
  from get_order_cached [OF g assms(4,5) this] assms(6) show ?thesis by (simp add: readable_def)
qed

section \<open>Properties\<close>

text \<open>
  C1. The stores come to show the database. In every state the running system can reach, whatever its clients
  have posted, patched and read, however often the connector has repeated itself and whatever the consumers went
  through: once the connector stands at the end of the log, the groups of \<open>RedisUpdater\<close> and \<open>ESIndexer\<close> have
  committed the whole topic and none of their records ran out of retries, Redis and Elasticsearch hold, for
  every identifier, the document of its row in PostgreSQL, and nothing where there is no row. (For sequence
  numbers up to 2^53 and requests with no quotation mark in the text the API pastes into its SQL.)
\<close>

theorem system_converges:
  assumes "running_system W s" "world_ok W" "lsns_exact (wal_in W s)" "caught_up W s" "\<not> exhausted s"
  shows "cached_document (sinks W) (pipe s) i = map_option (document_in W i) (row_in W s i)
    \<and> indexed_document (sinks W) (pipe s) i = map_option (document_in W i) (row_in W s i)"
  using caught_up_shows [OF assms] by (simp add: stores_show_rows_def)

theorem system_converges_witness:
  "\<exists>s. running_system sample_world s
     \<and> cached_document (sinks sample_world) (pipe s) sample_id = Some ''CREATED''
     \<and> indexed_document (sinks sample_world) (pipe s) sample_id = Some ''CREATED''"
proof -
  let ?s = "sample_system\<lparr>api := posted_api\<rparr>"
  have rel: "es_reliable (elastic (sinks sample_world))" by simp
  have w: "wal_in sample_world ?s = [(1, sample_id, ''CREATED'')]" by (simp add: sample_posted)
  obtain s' where s': "(system_step sample_world)\<^sup>*\<^sup>* ?s s'" "db (api s') = db (api ?s)" "caught_up sample_world s'"
    "exhausted s' \<longleftrightarrow> exhausted ?s"
    by (rule catches_up [OF sample_posted_running sample_world_ok _ _ rel]) (simp_all only: w sample_lsns sample_publishable)
  have run: "running_system sample_world s'" by (rule running_steps [OF s'(1) sample_posted_running])
  have l: "lsns_exact (wal_in sample_world s')" "\<not> exhausted s'" using s'(2,4) by (simp_all add: sample_posted sample_lsns)
  have "row_in sample_world s' sample_id = Some ''CREATED''" using s'(2) by (simp add: sample_posted rows_after_def)
  with system_converges [OF run sample_world_ok l(1) s'(3) l(2), of sample_id] run show ?thesis by auto
qed

text \<open>
  C2. What is accepted arrives. When the API answers a \<open>POST\<close> with 201 in a state the running system can reach,
  the table holds the row made from the request under the identifier of the answer. From there, if the connector
  can publish the log, the stores are up and no record ran out of retries, there is a way on without further
  writes to a state in which the index holds the document of this row, and a \<open>GET\<close> of the identifier
  answers 200 with it from Redis. (For a body with no quotation mark in the text that goes into the \<open>INSERT\<close>, as
  in the requests before it.)
\<close>

theorem order_delivered:
  assumes "running_system W s" "world_ok W" "quote_free_order (web W) body"
    and "post_order (web W) (postgres W) body (api s) = (r, a)" "reply_status r = 201"
    and "lsns_exact (wal_of (orders W) (db a))" "publishable W (wal_of (orders W) (db a))"
    and "es_reliable (elastic (sinks W))" "\<not> exhausted s"
    and "\<And>o'. rows_of (orders W) (db a) (generate_uuid (draw (api s)) (draws (api s))) = Some o' \<Longrightarrow>
      readable W (generate_uuid (draw (api s)) (draws (api s))) o' answer"
  shows "\<exists>user_id amount items printed_items o' s'.
    order_fields (web W) body = Inr (user_id, amount, items) \<and> dump (json_env (web W)) items = Inr printed_items
    \<and> (let i = generate_uuid (draw (api s)) (draws (api s)) in
        new_row (orders W) i user_id (print_double (web W) amount) printed_items = Some o'
        \<and> (system_step W)\<^sup>*\<^sup>* (s\<lparr>api := a\<rparr>) s'
        \<and> indexed_document (sinks W) (pipe s') i = Some (document_in W i o')
        \<and> fst (get_order (web W) (postgres W) (redis (sinks W)) i (api s')) = reply_text 200 answer)"
proof -
  let ?i = "generate_uuid (draw (api s)) (draws (api s))" and ?s = "s\<lparr>api := a\<rparr>"
  have "pg_laws (postgres W) (orders W)" using assms(2) by (simp add: world_ok_def)
  from posted_row [OF this assms(3-5)] obtain user_id amount items t o' where
    f: "order_fields (web W) body = Inr (user_id, amount, items)" "dump (json_env (web W)) items = Inr t"
      "new_row (orders W) ?i user_id (print_double (web W) amount) t = Some o'"
    and row: "row_in W ?s ?i = Some o'" by auto
  have run: "running_system W ?s"
    by (rule running_system.stepped [OF assms(1)]) (rule system_step.posting [OF assms(3,4)])
  obtain s' where s': "(system_step W)\<^sup>*\<^sup>* ?s s'" "db (api s') = db (api ?s)" "caught_up W s'"
    "exhausted s' \<longleftrightarrow> exhausted ?s" "connected (api s')" "get_plan (api s') = []"
    by (rule catches_up [OF run assms(2) _ _ assms(8)]) (use assms(6,7) in simp_all)
  have run': "running_system W s'" by (rule running_steps [OF s'(1) run])
  have "lsns_exact (wal_in W s')" "\<not> exhausted s'" using s'(2,4) assms(6,9) by (simp_all add: exhausted_def)
  then have shown: "stores_show_rows W s'" using caught_up_shows [OF run' assms(2)] s'(3) by simp
  have row': "row_in W s' ?i = Some o'" using row s'(2) by simp
  have "readable W ?i o' answer" using assms(10) row by simp
  from row_served [OF running_inv [OF run' assms(2)] shown row' s'(5,6) this] have
    "fst (get_order (web W) (postgres W) (redis (sinks W)) ?i (api s')) = reply_text 200 answer" by simp
  with f s'(1) shown row' show ?thesis unfolding Let_def stores_show_rows_def by fastforce
qed

theorem order_delivered_witness:
  "\<exists>s'. (system_step sample_world)\<^sup>*\<^sup>* (sample_system\<lparr>api := posted_api\<rparr>) s'
     \<and> indexed_document (sinks sample_world) (pipe s') sample_id = Some ''CREATED''
     \<and> fst (get_order sample_web log_pg map_redis sample_id (api s')) = reply_text 200 ''redis CREATED''"
proof -
  have rel: "es_reliable (elastic (sinks sample_world))" by simp
  have q: "quote_free_order (web sample_world) ''new''" by (simp add: sample_quote_free)
  have p: "post_order (web sample_world) (postgres sample_world) ''new'' (api sample_system) = (reply_text 201 ''CREATED'', posted_api)"
    by (simp add: sample_posted(1) sample_system_def)
  have i: "generate_uuid (draw (api sample_system)) (draws (api sample_system)) = sample_id"
    by (simp add: sample_system_def sample_api_def sample_id_def)
  have w: "wal_of (orders sample_world) (db posted_api) = [(1, sample_id, ''CREATED'')]" by (simp add: sample_posted)
  have rd: "readable sample_world sample_id o' ''redis CREATED''" if "rows_of (orders sample_world) (db posted_api) sample_id = Some o'" for o'
    using that by (auto simp: sample_posted rows_after_def readable_def sample_parses)
  show ?thesis
    using order_delivered [OF sample_started sample_world_ok q p _ _ _ rel, of "''redis CREATED''", unfolded i w Let_def] rd
    by (simp add: sample_lsns sample_publishable) blast
qed

text \<open>
  C3. The newest status arrives. When the API answers a \<open>PATCH\<close> with 200 in a state the running system can
  reach, the row the identifier denotes has the status of the request, and there is a way on without further
  writes to a state in which, whatever older version the stores held, the index holds the document of the new
  row and a \<open>GET\<close> answers 200 with it from Redis.
\<close>

theorem status_delivered:
  assumes "running_system W s" "world_ok W"
    and "patch_status (web W) (postgres W) i body (api s) = (r, a)" "reply_status r = 200"
    and "lsns_exact (wal_of (orders W) (db a))" "publishable W (wal_of (orders W) (db a))"
    and "es_reliable (elastic (sinks W))" "\<not> exhausted s"
    and "\<And>j o'. rows_of (orders W) (db a) j = Some o' \<Longrightarrow> \<exists>answer. readable W j o' answer"
  shows "\<exists>doc st j o1 o2 s' answer.
    parse_json (web W) body = Inr doc \<and> member_of doc ''status'' = Some (JStr st) \<and> canonical (orders W) i = Some j
    \<and> row_in W s j = Some o1 \<and> with_status (orders W) st o1 = Some o2 \<and> readable W j o2 answer
    \<and> (system_step W)\<^sup>*\<^sup>* (s\<lparr>api := a\<rparr>) s'
    \<and> indexed_document (sinks W) (pipe s') j = Some (document_in W j o2)
    \<and> fst (get_order (web W) (postgres W) (redis (sinks W)) j (api s')) = reply_text 200 answer"
proof -
  let ?s = "s\<lparr>api := a\<rparr>"
  have "pg_laws (postgres W) (orders W)" using assms(2) by (simp add: world_ok_def)
  from patched_row [OF this assms(3,4)] obtain doc st j o1 o2 where
    f: "parse_json (web W) body = Inr doc" "member_of doc ''status'' = Some (JStr st)" "canonical (orders W) i = Some j"
      "row_in W s j = Some o1" "with_status (orders W) st o1 = Some o2"
    and row: "row_in W ?s j = Some o2" by auto
  from assms(9) row obtain answer where rd: "readable W j o2 answer" by auto
  have run: "running_system W ?s"
    by (rule running_system.stepped [OF assms(1)]) (rule system_step.patching [OF assms(3)])
  obtain s' where s': "(system_step W)\<^sup>*\<^sup>* ?s s'" "db (api s') = db (api ?s)" "caught_up W s'"
    "exhausted s' \<longleftrightarrow> exhausted ?s" "connected (api s')" "get_plan (api s') = []"
    by (rule catches_up [OF run assms(2) _ _ assms(7)]) (use assms(5,6) in simp_all)
  have run': "running_system W s'" by (rule running_steps [OF s'(1) run])
  have "lsns_exact (wal_in W s')" "\<not> exhausted s'" using s'(2,4) assms(5,8) by (simp_all add: exhausted_def)
  then have shown: "stores_show_rows W s'" using caught_up_shows [OF run' assms(2)] s'(3) by simp
  have row': "row_in W s' j = Some o2" using row s'(2) by simp
  from row_served [OF running_inv [OF run' assms(2)] shown row' s'(5,6) rd] have
    "fst (get_order (web W) (postgres W) (redis (sinks W)) j (api s')) = reply_text 200 answer" by simp
  with f rd s'(1) shown row' show ?thesis unfolding stores_show_rows_def by fastforce
qed

theorem status_delivered_witness:
  "\<exists>s'. (system_step sample_world)\<^sup>*\<^sup>* (sample_system\<lparr>api := patched_api\<rparr>) s'
     \<and> indexed_document (sinks sample_world) (pipe s') sample_id = Some ''SHIPPED''
     \<and> (\<exists>answer. fst (get_order sample_web log_pg map_redis sample_id (api s')) = reply_text 200 answer)"
proof -
  let ?s = "sample_system\<lparr>api := posted_api\<rparr>"
  have rel: "es_reliable (elastic (sinks sample_world))" by simp
  obtain r where r: "patch_status sample_web log_pg sample_id ''ship'' posted_api = (r, patched_api)" "reply_status r = 200"
    using sample_patched(1) by (metis patched_api_def prod.collapse)
  have p: "patch_status (web sample_world) (postgres sample_world) sample_id ''ship'' (api ?s) = (r, patched_api)" using r by simp
  have w: "wal_of (orders sample_world) (db patched_api) = [(1, sample_id, ''CREATED''), (2, sample_id, ''SHIPPED'')]"
    by (simp add: sample_patched)
  have rd: "\<exists>answer. readable sample_world j o' answer" if "rows_of (orders sample_world) (db patched_api) j = Some o'" for j o'
    using that by (auto simp: sample_patched rows_after_def readable_def sample_parses split: if_splits)
  have c: "canonical (orders sample_world) sample_id = Some sample_id" by (simp add: log_table_def)
  show ?thesis
    using status_delivered [OF sample_posted_running sample_world_ok p r(2) _ _ rel, unfolded w c] rd
    by (simp add: sample_lsns sample_publishable) (auto simp: sample_web_def)
qed

end
