(* ===== verification/Startup.thy ===== *)
theory Startup
  imports Cdc_Prelude
begin

text \<open>
  The readiness loop of the two services (\<open>consumers/src/main.cpp\<close>, \<open>api/src/main.cpp\<close>): up to 20
  attempts, two seconds apart, each building the parts that are still missing, in order.
\<close>

section \<open>The loop\<close>

text \<open>
  A part: its name and its constructor, which may throw. Constructors act on the world outside (Kafka,
  the schema registry, PostgreSQL, Redis), a parameter. \<open>warn\<close> logs a failed attempt, by its number and error.
\<close>

type_synonym 'w part = "string \<times> ('w \<Rightarrow> unit result \<times> 'w)"

fun build_missing :: "'w part list \<Rightarrow> string list \<Rightarrow> 'w \<Rightarrow> unit result \<times> string list \<times> 'w" where
  "build_missing [] built w = (Inr (), built, w)"
| "build_missing ((name, mk) # parts) built w =
     (if name \<in> set built then build_missing parts built w
      else (case mk w of
              (Inl e, w') \<Rightarrow> (Inl e, built, w')
            | (Inr _, w') \<Rightarrow> build_missing parts (built @ [name]) w'))"

definition max_attempts :: nat where "max_attempts = 20"
definition wait_seconds :: nat where "wait_seconds = 2"

text \<open>
  The loop from a given attempt: the result, the parts built, in the order they were built, the
  number of the last attempt, the seconds slept.
\<close>

record 'w startup =
  outcome :: "unit result"
  built_parts :: "string list"
  last_attempt :: nat
  slept :: nat
  world :: 'w

function ready_loop :: "(nat \<Rightarrow> string \<Rightarrow> 'w \<Rightarrow> 'w) \<Rightarrow> 'w part list \<Rightarrow> nat \<Rightarrow> string list \<Rightarrow> nat \<Rightarrow> 'w \<Rightarrow> 'w startup" where
  "ready_loop warn parts attempt built secs w =
     (case build_missing parts built w of
        (Inr _, built', w') \<Rightarrow>
          \<lparr>outcome = Inr (), built_parts = built', last_attempt = attempt, slept = secs, world = w'\<rparr>
      | (Inl e, built', w') \<Rightarrow>
          if max_attempts \<le> attempt
          then \<lparr>outcome = Inl e, built_parts = built', last_attempt = attempt, slept = secs, world = w'\<rparr>
          else ready_loop warn parts (Suc attempt) built' (secs + wait_seconds) (warn attempt e w'))"
  by pat_completeness auto
termination by (relation "measure (\<lambda>(_, _, attempt, _, _, _). max_attempts - attempt)") auto

declare ready_loop.simps [simp del]

definition wait_until_ready :: "(nat \<Rightarrow> string \<Rightarrow> 'w \<Rightarrow> 'w) \<Rightarrow> 'w part list \<Rightarrow> 'w \<Rightarrow> 'w startup" where
  "wait_until_ready warn parts w = ready_loop warn parts 1 [] 0 w"

text \<open>The parts of the two services.\<close>

definition consumer_parts :: "(string \<Rightarrow> 'w \<Rightarrow> unit result \<times> 'w) \<Rightarrow> 'w part list" where
  "consumer_parts mk = map (\<lambda>n. (n, mk n)) [''AvroDeserializer'', ''ESIndexer'', ''RedisUpdater'', ''Notifier'']"

definition api_parts :: "(string \<Rightarrow> 'w \<Rightarrow> unit result \<times> 'w) \<Rightarrow> 'w part list" where
  "api_parts mk = map (\<lambda>n. (n, mk n)) [''DatabaseClient'', ''RedisClient'']"

section \<open>One attempt\<close>

text \<open>What is built is always the first few parts, so an attempt goes on where the last one stopped.\<close>

lemma build_from:
  assumes "distinct (map fst (done_parts @ parts))"
  shows "build_missing (done_parts @ parts) (map fst done_parts) w = build_missing parts (map fst done_parts) w"
proof -
  have "set (map fst ps) \<subseteq> set b \<Longrightarrow> build_missing (ps @ parts) b w = build_missing parts b w" for ps b
    by (induction ps) auto
  then show ?thesis by simp
qed

lemma build_prefix:
  assumes "distinct (map fst (done_parts @ parts))" "build_missing parts (map fst done_parts) w = (r, built, w')"
  obtains (all_built) "r = Inr ()" "built = map fst (done_parts @ parts)"
  | (stuck) e k where "r = Inl e" "k < length parts" "built = map fst (done_parts @ take k parts)"
      "\<exists>v. snd (parts ! k) v = (Inl e, w')"
  using assms
proof (induction parts arbitrary: done_parts w thesis)
  case Nil
  then show ?case by simp
next
  case (Cons p parts)
  obtain name mk where p: "p = (name, mk)" by (cases p)
  have new: "name \<notin> set (map fst done_parts)" using Cons.prems(3) by (auto simp: p)
  obtain r1 w1 where m: "mk w = (r1, w1)" by fastforce
  show ?case
  proof (cases r1)
    case (Inl e)
    with Cons.prems(4) new m have "r = Inl e" "built = map fst (done_parts @ take 0 (p # parts))" "w' = w1"
      by (auto simp: p)
    with Inl m show ?thesis by (intro Cons.prems(2) [of e 0]) (auto simp: p)
  next
    case (Inr u)
    with Cons.prems(4) new m have b: "build_missing parts (map fst (done_parts @ [p])) w1 = (r, built, w')" by (auto simp: p)
    have d: "distinct (map fst ((done_parts @ [p]) @ parts))" using Cons.prems(3) by auto
    show ?thesis
    proof (rule Cons.IH [OF _ _ d b])
      assume "r = Inr ()" "built = map fst ((done_parts @ [p]) @ parts)"
      then show thesis by (intro Cons.prems(1)) auto
    next
      fix e k
      assume "r = Inl e" "k < length parts" "built = map fst ((done_parts @ [p]) @ take k parts)"
        "\<exists>v. snd (parts ! k) v = (Inl e, w')"
      then show thesis by (intro Cons.prems(2) [of e "Suc k"]) auto
    qed
  qed
qed

section \<open>The whole loop\<close>

definition startup_ok :: "'w part list \<Rightarrow> nat \<Rightarrow> nat \<Rightarrow> 'w startup \<Rightarrow> bool" where
  "startup_ok parts attempt secs res \<longleftrightarrow>
     attempt \<le> last_attempt res \<and> last_attempt res \<le> max_attempts \<and>
     slept res = secs + wait_seconds * (last_attempt res - attempt) \<and>
     (case outcome res of
        Inr _ \<Rightarrow> built_parts res = map fst parts
      | Inl _ \<Rightarrow> last_attempt res = max_attempts \<and> (\<exists>k < length parts. built_parts res = map fst (take k parts)))"

lemma ready_loop_ok:
  assumes "distinct (map fst parts)" "k \<le> length parts" "attempt \<le> max_attempts"
  shows "startup_ok parts attempt secs (ready_loop warn parts attempt (map fst (take k parts)) secs w)"
  using assms(2,3)
proof (induction "max_attempts - attempt" arbitrary: attempt k secs w rule: less_induct)
  case less
  obtain r built w' where b: "build_missing parts (map fst (take k parts)) w = (r, built, w')" by (metis prod_cases3)
  have "build_missing (drop k parts) (map fst (take k parts)) w = (r, built, w')"
    using build_from [of "take k parts" "drop k parts"] assms(1) b by simp
  then show ?case
  proof (rule build_prefix [rotated])
    show "distinct (map fst (take k parts @ drop k parts))" using assms(1) by simp
  next
    assume "r = Inr ()" "built = map fst (take k parts @ drop k parts)"
    with less.prems b show ?thesis by (subst ready_loop.simps) (simp add: startup_ok_def)
  next
    fix e j
    assume stuck: "r = Inl e" "j < length (drop k parts)" "built = map fst (take k parts @ take j (drop k parts))"
    then have built: "built = map fst (take (k + j) parts)" and kj: "k + j < length parts" by (simp_all add: take_add)
    show ?thesis
    proof (cases "max_attempts \<le> attempt")
      case True
      with less.prems b stuck(1) kj show ?thesis
        by (subst ready_loop.simps) (auto simp: startup_ok_def built intro!: exI [of _ "k + j"])
    next
      case False
      then have "startup_ok parts (Suc attempt) (secs + wait_seconds)
          (ready_loop warn parts (Suc attempt) (map fst (take (k + j) parts)) (secs + wait_seconds) (warn attempt e w'))"
        using kj by (intro less.hyps) auto
      with False b stuck(1) show ?thesis
        by (subst ready_loop.simps) (auto simp: startup_ok_def built wait_seconds_def split: sum.splits)
    qed
  qed
qed

text \<open>A constructor that fails has used up one failure of a world that has only so many left; logging uses none.\<close>

definition failures_left :: "'w part list \<Rightarrow> ('w \<Rightarrow> nat) \<Rightarrow> bool" where
  "failures_left parts left \<longleftrightarrow>
     (\<forall>(name, mk) \<in> set parts. \<forall>w r w'. mk w = (r, w') \<longrightarrow>
        (case r of Inl _ \<Rightarrow> left w' < left w | Inr _ \<Rightarrow> left w' \<le> left w))"

lemma build_missing_left:
  "failures_left parts left \<Longrightarrow> build_missing parts built w = (r, built', w') \<Longrightarrow>
   (case r of Inl _ \<Rightarrow> left w' < left w | Inr _ \<Rightarrow> left w' \<le> left w)"
proof (induction parts arbitrary: built w)
  case (Cons p parts)
  obtain name mk where p: "p = (name, mk)" by (cases p)
  have rest: "failures_left parts left" using Cons.prems(1) by (simp add: failures_left_def)
  obtain r1 w1 where m: "mk w = (r1, w1)" by fastforce
  have "case r1 of Inl _ \<Rightarrow> left w1 < left w | Inr _ \<Rightarrow> left w1 \<le> left w"
    using Cons.prems(1) m by (auto simp: failures_left_def p)
  with Cons.IH [OF rest] Cons.prems(2) m show ?case
    by (fastforce simp: p split: if_splits sum.splits)
qed auto

lemma ready_loop_returns:
  assumes "failures_left parts left" "\<And>n e w. left (warn n e w) \<le> left w"
  shows "attempt + left w \<le> max_attempts \<Longrightarrow> outcome (ready_loop warn parts attempt built secs w) = Inr ()"
proof (induction "left w" arbitrary: attempt built secs w rule: less_induct)
  case less
  obtain r built' w' where b: "build_missing parts built w = (r, built', w')" by (metis prod_cases3)
  note left = build_missing_left [OF assms(1) b]
  show ?case
  proof (cases r)
    case (Inl e)
    with left assms(2) [of attempt e w'] have lt: "left (warn attempt e w') < left w" by simp
    with less.prems have "\<not> max_attempts \<le> attempt" "Suc attempt + left (warn attempt e w') \<le> max_attempts" by auto
    with less.hyps [OF lt] b Inl show ?thesis by (subst ready_loop.simps) simp
  next
    case (Inr u)
    with b show ?thesis by (subst ready_loop.simps) simp
  qed
qed

text \<open>
 The readiness loop ends after at most 20 attempts and has slept two seconds between any two
  of them. Parts are built in order, each at most once. It returns with all parts built, or throws after
  the 20th attempt with a proper first few of them; and it returns whenever the constructors fail fewer
  than 20 times altogether.
\<close>

theorem startup_bounded:
  assumes "distinct (map fst parts)"
  shows "startup_ok parts 1 0 (wait_until_ready warn parts w)
    \<and> (\<forall>left. failures_left parts left \<longrightarrow> (\<forall>n e w. left (warn n e w) \<le> left w) \<longrightarrow> left w < max_attempts \<longrightarrow>
         outcome (wait_until_ready warn parts w) = Inr ())"
  using ready_loop_ok [OF assms, where k = 0 and attempt = 1 and secs = 0 and warn = warn and w = w]
    ready_loop_returns [where parts = parts and warn = warn and attempt = 1 and w = w and built = "[]" and secs = 0]
  by (simp add: wait_until_ready_def max_attempts_def)

text \<open>A world that fails its first few constructors.\<close>

definition flaky :: "string \<Rightarrow> nat \<Rightarrow> unit result \<times> nat" where
  "flaky name w = (case w of 0 \<Rightarrow> (Inr (), 0) | Suc n \<Rightarrow> (Inl ''refused'', n))"

theorem startup_bounded_witness:
  "outcome (wait_until_ready (\<lambda>_ _ w. w) (consumer_parts flaky) 19) = Inr ()
   \<and> built_parts (wait_until_ready (\<lambda>_ _ w. w) (consumer_parts flaky) 19) = [''AvroDeserializer'', ''ESIndexer'', ''RedisUpdater'', ''Notifier'']"
proof -
  have names: "map fst (consumer_parts flaky) = [''AvroDeserializer'', ''ESIndexer'', ''RedisUpdater'', ''Notifier'']"
    by (simp add: consumer_parts_def)
  have left: "failures_left (consumer_parts flaky) id"
    by (auto simp: failures_left_def consumer_parts_def flaky_def split: nat.splits)
  have "distinct (map fst (consumer_parts flaky))" by (simp add: names)
  note bounded = startup_bounded [OF this, of "\<lambda>_ _ w. w" 19]
  have "outcome (wait_until_ready (\<lambda>_ _ w. w) (consumer_parts flaky) 19) = Inr ()"
    using bounded left by (auto simp: max_attempts_def)
  with bounded show ?thesis by (simp add: startup_ok_def names)
qed

end
