(* ===== verification/Service_Parts.thy ===== *)
theory Service_Parts
  imports Startup Kafka_Consumer
begin

text \<open>
  The constructors the readiness loops call: the Kafka consumer with its settings and its producer of
  dead letters, the Avro deserializer, the connections to Redis and PostgreSQL. librdkafka, libserdes,
  hiredis and libpqxx act on the world outside and are parameters.
\<close>

section \<open>The libraries\<close>

text \<open>
  \<open>conf_set\<close> gives the error of a setting, if any; the creation of a client, the subscription and the
  connections may fail with a text; a connection to PostgreSQL has the name of its database, or none
  when it is not open.
\<close>

record 'w libraries =
  conf_set :: "string \<Rightarrow> string \<Rightarrow> string option"
  new_consumer :: "(string \<times> string) list \<Rightarrow> 'w \<Rightarrow> unit result \<times> 'w"
  subscribe :: "string list \<Rightarrow> 'w \<Rightarrow> unit result \<times> 'w"
  new_producer :: "(string \<times> string) list \<Rightarrow> 'w \<Rightarrow> unit result \<times> 'w"
  new_serdes :: "string \<Rightarrow> 'w \<Rightarrow> unit result \<times> 'w"
  connect_redis :: "string \<Rightarrow> int \<Rightarrow> 'w \<Rightarrow> conn_fate \<times> 'w"
  connect_postgres :: "string \<Rightarrow> 'w \<Rightarrow> string option result \<times> 'w"

text \<open>What the constructors leave: the world, the log, and which consumers have a producer.\<close>

record 'w boot =
  outside :: 'w
  boot_log :: "log_entry list"
  producers :: "string \<Rightarrow> bool"

definition boot_event :: "log_entry \<Rightarrow> 'w boot \<Rightarrow> 'w boot" where
  "boot_event e b = b\<lparr>boot_log := boot_log b @ [e]\<rparr>"

definition call :: "('w \<Rightarrow> 'a \<times> 'w) \<Rightarrow> 'w boot \<Rightarrow> 'a \<times> 'w boot" where
  "call f b = (fst (f (outside b)), b\<lparr>outside := snd (f (outside b))\<rparr>)"

section \<open>KafkaConsumerBase\<close>

definition consumer_settings :: "string \<Rightarrow> string \<Rightarrow> (string \<times> string) list" where
  "consumer_settings brokers group_id =
     [(''bootstrap.servers'', brokers), (''group.id'', group_id), (''auto.offset.reset'', ''earliest''),
      (''enable.auto.commit'', ''false''), (''enable.auto.offset.store'', ''false'')]"

definition producer_settings :: "string \<Rightarrow> (string \<times> string) list" where
  "producer_settings brokers =
     [(''bootstrap.servers'', brokers), (''acks'', ''all''), (''message.timeout.ms'', ''5000'')]"

text \<open>The first setting that is refused throws.\<close>

fun configure :: "'w libraries \<Rightarrow> (string \<times> string) list \<Rightarrow> unit result" where
  "configure lib [] = Inr ()"
| "configure lib ((k, v) # settings) =
     (case conf_set lib k v of
        Some err \<Rightarrow> Inl (''Kafka conf failed ('' @ k @ ''): '' @ err)
      | None \<Rightarrow> configure lib settings)"

text \<open>\<open>InitProducer\<close> ignores refused settings; without a producer there is a warning only.\<close>

definition init_producer :: "'w libraries \<Rightarrow> string \<Rightarrow> string \<Rightarrow> 'w boot \<Rightarrow> 'w boot" where
  "init_producer lib name brokers b =
     (case call (new_producer lib (filter (\<lambda>(k, v). conf_set lib k v = None) (producer_settings brokers))) b of
        (Inl err, b1) \<Rightarrow> boot_event (''dlq_producer_init_warning'', [name, err]) (b1\<lparr>producers := (producers b1)(name := False)\<rparr>)
      | (Inr _, b1) \<Rightarrow> b1\<lparr>producers := (producers b1)(name := True)\<rparr>)"

definition construct_consumer :: "'w libraries \<Rightarrow> string \<Rightarrow> string \<Rightarrow> string \<Rightarrow> string \<Rightarrow> 'w boot \<Rightarrow> unit result \<times> 'w boot" where
  "construct_consumer lib name brokers group_id topic b =
     (let cfg = default_config name topic in
      case configure lib (consumer_settings brokers group_id) of
        Inl e \<Rightarrow> (Inl e, b)
      | Inr _ \<Rightarrow>
          (case call (new_consumer lib (consumer_settings brokers group_id)) b of
             (Inl err, b1) \<Rightarrow> (Inl (''Failed to create KafkaConsumer: '' @ err), b1)
           | (Inr _, b1) \<Rightarrow>
               (case call (subscribe lib [topic]) b1 of
                  (Inl err, b2) \<Rightarrow> (Inl (''Failed to subscribe to '' @ topic @ '': '' @ err), b2)
                | (Inr _, b2) \<Rightarrow>
                    (Inr (), boot_event (''consumer_subscribed'', [name, topic, group_id, dlq_topic cfg, show_int (max_retries cfg)])
                       (init_producer lib name brokers b2)))))"

section \<open>The parts of the consumers\<close>

text \<open>\<open>EnsureConnected\<close> when there is no context yet.\<close>

definition first_connection :: "'w libraries \<Rightarrow> string \<Rightarrow> string \<Rightarrow> string \<Rightarrow> int \<Rightarrow> 'w boot \<Rightarrow> unit result \<times> 'w boot" where
  "first_connection lib name event host port b =
     (case call (connect_redis lib host port) b of
        (ConnUp, b1) \<Rightarrow> (Inr (), boot_event (event, [host]) b1)
      | (ConnErr e, b1) \<Rightarrow> (Inl (name @ '' failed to connect to Redis: '' @ e), b1)
      | (ConnNull, b1) \<Rightarrow> (Inl (name @ '' failed to connect to Redis: Allocation failure''), b1))"

definition construct_deserializer :: "'w libraries \<Rightarrow> string \<Rightarrow> 'w boot \<Rightarrow> unit result \<times> 'w boot" where
  "construct_deserializer lib registry b =
     (case call (new_serdes lib registry) b of
        (Inl err, b1) \<Rightarrow> (Inl err, b1)
      | (Inr _, b1) \<Rightarrow> (Inr (), boot_event (''avro_deserializer_initialized'', [registry]) b1))"

definition construct_es_indexer :: "'w libraries \<Rightarrow> string \<Rightarrow> string \<Rightarrow> 'w boot \<Rightarrow> unit result \<times> 'w boot" where
  "construct_es_indexer lib brokers topic = construct_consumer lib ''ESIndexer'' brokers ''es-indexer-group'' topic"

definition construct_redis_updater :: "'w libraries \<Rightarrow> string \<Rightarrow> string \<Rightarrow> string \<Rightarrow> int \<Rightarrow> 'w boot \<Rightarrow> unit result \<times> 'w boot" where
  "construct_redis_updater lib brokers topic host port b =
     (case construct_consumer lib ''RedisUpdater'' brokers ''redis-updater-group'' topic b of
        (Inl e, b1) \<Rightarrow> (Inl e, b1)
      | (Inr _, b1) \<Rightarrow> first_connection lib ''RedisUpdater'' ''redis_updater_connected'' host port b1)"

definition construct_notifier :: "'w libraries \<Rightarrow> string \<Rightarrow> string \<Rightarrow> string \<Rightarrow> int \<Rightarrow> 'w boot \<Rightarrow> unit result \<times> 'w boot" where
  "construct_notifier lib brokers topic host port b =
     (case construct_consumer lib ''Notifier'' brokers ''notifier-group'' topic b of
        (Inl e, b1) \<Rightarrow> (Inl e, b1)
      | (Inr _, b1) \<Rightarrow> first_connection lib ''Notifier'' ''notifier_redis_connected'' host port b1)"

section \<open>The parts of the API\<close>

definition construct_database :: "'w libraries \<Rightarrow> string \<Rightarrow> 'w boot \<Rightarrow> unit result \<times> 'w boot" where
  "construct_database lib conn b =
     (case call (connect_postgres lib conn) b of
        (Inl e, b1) \<Rightarrow> (Inl e, boot_event (''db_connection_failed'', [e]) b1)
      | (Inr None, b1) \<Rightarrow>
          (Inl (''Can'' @ [CHR 0x27] @ ''t open database''), boot_event (''db_connection_failed'', [''Can'' @ [CHR 0x27] @ ''t open database'']) b1)
      | (Inr (Some dbname), b1) \<Rightarrow> (Inr (), boot_event (''db_connected'', [dbname]) b1))"

definition construct_redis_client :: "'w libraries \<Rightarrow> string \<Rightarrow> int \<Rightarrow> 'w boot \<Rightarrow> unit result \<times> 'w boot" where
  "construct_redis_client lib host port b =
     (case call (connect_redis lib host port) b of
        (ConnUp, b1) \<Rightarrow> (Inr (), boot_event (''redis_connected'', [host]) b1)
      | (ConnErr e, b1) \<Rightarrow> (Inl (''Redis connection error: '' @ e), b1)
      | (ConnNull, b1) \<Rightarrow>
          (Inl (''Redis connection error: Can'' @ [CHR 0x27] @ ''t allocate redis context''), b1))"

section \<open>Constructed consumers\<close>

lemma configured_all: "configure lib settings = Inr () \<longleftrightarrow> (\<forall>(k, v) \<in> set settings. conf_set lib k v = None)"
  by (induction settings) (auto split: option.splits)

text \<open>
  What a constructor that returns has done: every setting was accepted (so offsets are committed by
  hand only, and a new group starts at the earliest message), the consumer was created with exactly
  these settings and subscribed to the topic; a producer may be missing.
\<close>

lemma constructed:
  assumes "construct_consumer lib name brokers group_id topic b = (Inr (), b')"
  obtains w1 w2 where "\<And>k v. (k, v) \<in> set (consumer_settings brokers group_id) \<Longrightarrow> conf_set lib k v = None"
    "new_consumer lib (consumer_settings brokers group_id) (outside b) = (Inr (), w1)"
    "subscribe lib [topic] w1 = (Inr (), w2)"
    "producers b' = (producers b)(name := (case fst (new_producer lib
        (filter (\<lambda>(k, v). conf_set lib k v = None) (producer_settings brokers)) w2) of Inl _ \<Rightarrow> False | Inr _ \<Rightarrow> True))"
proof -
  have conf: "configure lib (consumer_settings brokers group_id) = Inr ()"
    using assms by (auto simp: construct_consumer_def Let_def split: sum.splits)
  obtain r1 w1 where n: "new_consumer lib (consumer_settings brokers group_id) (outside b) = (r1, w1)" by fastforce
  obtain r2 w2 where s: "subscribe lib [topic] w1 = (r2, w2)" by fastforce
  have "r1 = Inr ()" "r2 = Inr ()"
    using assms conf n s by (auto simp: construct_consumer_def Let_def call_def split: sum.splits)
  with assms conf n s show thesis
    by (intro that [of w1 w2])
      (auto simp: configured_all construct_consumer_def Let_def call_def init_producer_def boot_event_def split: sum.splits prod.splits)
qed

end
