(* ===== verification/Consumers_Main.thy ===== *)
theory Consumers_Main
  imports Service_Main Consumer_Trace
begin

text \<open>
  The consumers process once its parts are built (\<open>consumers/src/main.cpp\<close>): the three threads with their
  \<open>running_\<close> flags, the signal handler, and the main thread that waits, stops the consumers and joins the
  threads, as a step relation over their interleavings.
\<close>

section \<open>State and steps\<close>

text \<open>A thread: created, in the loop of \<open>Run\<close>, returned from it, or left by an exception it has logged.\<close>

datatype thread = Created | Looping | Returned | Died string

text \<open>
  The main thread polls the shutdown request, calls \<open>Stop\<close> on the three consumers in turn, joins the
  threads, and ends with an exit code.
\<close>

datatype phase = Watching | Stopping nat | Ended int

record 's process =
  phase :: phase
  shutdown :: bool
  threads :: "thread list"
  flags :: "bool list"
  bodies :: "'s list"

text \<open>
  \<open>body k\<close> is one pass of the loop of the consumer \<open>k\<close>: what \<open>consume\<close> returns is handled, or an exception
  leaves the loop.
\<close>

inductive main_step :: "(nat \<Rightarrow> 's \<Rightarrow> (unit result \<times> 's) set) \<Rightarrow> 's process \<Rightarrow> 's process \<Rightarrow> bool" for body where
  signal: "(\<And>c. phase p \<noteq> Ended c) \<Longrightarrow> main_step body p (p\<lparr>shutdown := True\<rparr>)"
| enter: "k < 3 \<Longrightarrow> threads p ! k = Created \<Longrightarrow> (\<And>c. phase p \<noteq> Ended c) \<Longrightarrow>
    main_step body p (p\<lparr>threads := (threads p)[k := Looping], flags := (flags p)[k := True]\<rparr>)"
| pass: "k < 3 \<Longrightarrow> threads p ! k = Looping \<Longrightarrow> flags p ! k \<Longrightarrow> (Inr (), s) \<in> body k (bodies p ! k) \<Longrightarrow>
    main_step body p (p\<lparr>bodies := (bodies p)[k := s]\<rparr>)"
| died: "k < 3 \<Longrightarrow> threads p ! k = Looping \<Longrightarrow> flags p ! k \<Longrightarrow> (Inl e, s) \<in> body k (bodies p ! k) \<Longrightarrow>
    main_step body p (p\<lparr>threads := (threads p)[k := Died e], bodies := (bodies p)[k := s]\<rparr>)"
| leave: "k < 3 \<Longrightarrow> threads p ! k = Looping \<Longrightarrow> \<not> flags p ! k \<Longrightarrow>
    main_step body p (p\<lparr>threads := (threads p)[k := Returned]\<rparr>)"
| notice: "phase p = Watching \<Longrightarrow> shutdown p \<Longrightarrow> main_step body p (p\<lparr>phase := Stopping 0\<rparr>)"
| stop: "phase p = Stopping k \<Longrightarrow> k < 3 \<Longrightarrow>
    main_step body p (p\<lparr>flags := (flags p)[k := False], phase := Stopping (Suc k)\<rparr>)"
| joined: "phase p = Stopping 3 \<Longrightarrow> (\<And>k. k < 3 \<Longrightarrow> threads p ! k = Returned \<or> (\<exists>e. threads p ! k = Died e)) \<Longrightarrow>
    main_step body p (p\<lparr>phase := Ended 0\<rparr>)"

inductive_cases main_stepE: "main_step body p p'"

text \<open>The threads are created when the parts are built; a signal may have come before.\<close>

definition launched :: "bool \<Rightarrow> 's list \<Rightarrow> 's process" where
  "launched requested ss =
     \<lparr>phase = Watching, shutdown = requested, threads = [Created, Created, Created], flags = [False, False, False], bodies = ss\<rparr>"

section \<open>Invariant\<close>

text \<open>
  A thread that has not entered its loop has a cleared flag; the process is past watching only after a
  request, and its exit code is 0.
\<close>

definition main_inv :: "'s process \<Rightarrow> bool" where
  "main_inv p \<longleftrightarrow>
     length (threads p) = 3 \<and> length (flags p) = 3
     \<and> (phase p \<noteq> Watching \<longrightarrow> shutdown p)
     \<and> (\<forall>k < 3. threads p ! k = Created \<longrightarrow> \<not> flags p ! k)
     \<and> (case phase p of
          Watching \<Rightarrow> True
        | Stopping n \<Rightarrow> n \<le> 3
        | Ended c \<Rightarrow> c = 0 \<and> (\<forall>k < 3. threads p ! k = Returned \<or> (\<exists>e. threads p ! k = Died e)))"

lemma launched_inv: "main_inv (launched requested ss)"
  by (auto simp: main_inv_def launched_def nth_Cons split: nat.splits)

lemma ended_threads:
  assumes "main_inv p" "phase p = Ended c" "k < 3"
  shows "threads p ! k \<noteq> Looping" "threads p ! k \<noteq> Created"
  using assms by (force simp: main_inv_def)+

lemma main_step_inv:
  assumes "main_step body p p'" "main_inv p"
  shows "main_inv p'"
  using assms
proof cases
  case (enter k)
  with assms(2) show ?thesis by (cases "phase p") (auto simp: main_inv_def nth_list_update)
next
  case (pass k s)
  with assms(2) show ?thesis by (simp add: main_inv_def split: phase.splits)
next
  case (died k e s)
  with assms(2) ended_threads [OF assms(2)] show ?thesis
    by (cases "phase p") (auto simp: main_inv_def nth_list_update)
next
  case (leave k)
  with assms(2) ended_threads [OF assms(2)] show ?thesis
    by (cases "phase p") (auto simp: main_inv_def nth_list_update)
next
  case (stop k)
  with assms(2) show ?thesis by (auto simp: main_inv_def nth_list_update)
qed (auto simp: main_inv_def split: phase.splits)

lemma main_steps_inv: "(main_step body)\<^sup>*\<^sup>* p p' \<Longrightarrow> main_inv p \<Longrightarrow> main_inv p'"
  by (induction rule: rtranclp_induct) (auto intro: main_step_inv)

section \<open>Threads that die\<close>

text \<open>
  C24. Dead consumers go unnoticed. Whatever the interleaving, the process ends only after a signal, and then
  with exit code 0, also when consumers have died of an exception; and when all three have died, nothing
  happens any more until a signal comes: no supervisor sees a process that has stopped consuming.
\<close>

theorem crash_unnoticed:
  assumes "(main_step body)\<^sup>*\<^sup>* (launched requested ss) p"
  shows "(case phase p of Ended c \<Rightarrow> shutdown p \<and> c = 0 | _ \<Rightarrow> True)
    \<and> ((\<forall>k < 3. \<exists>e. threads p ! k = Died e) \<longrightarrow> \<not> shutdown p \<longrightarrow>
         (\<forall>p'. main_step body p p' \<longrightarrow> p' = p\<lparr>shutdown := True\<rparr>))"
proof (intro conjI impI allI)
  have inv: "main_inv p" by (rule main_steps_inv [OF assms launched_inv])
  then show "case phase p of Ended c \<Rightarrow> shutdown p \<and> c = 0 | _ \<Rightarrow> True"
    by (auto simp: main_inv_def split: phase.splits)
  fix p'
  assume died: "\<forall>k < 3. \<exists>e. threads p ! k = Died e" and waiting: "\<not> shutdown p" and "main_step body p p'"
  from this(3) show "p' = p\<lparr>shutdown := True\<rparr>"
  proof cases
    case (enter k)
    with died show ?thesis by (metis thread.distinct)
  next
    case (pass k s)
    with died show ?thesis by (metis thread.distinct)
  next
    case (died k e s)
    with \<open>\<forall>k < 3. \<exists>e. threads p ! k = Died e\<close> show ?thesis by (metis thread.distinct)
  next
    case (leave k)
    with died show ?thesis by (metis thread.distinct)
  next
    case (stop k)
    with inv waiting show ?thesis by (simp add: main_inv_def)
  next
    case joined
    with inv waiting show ?thesis by (simp add: main_inv_def)
  qed (use waiting in simp_all)
qed

text \<open>Loops that meet something none of their exceptions is caught for, at once.\<close>

definition poisoned :: "nat \<Rightarrow> unit \<Rightarrow> (unit result \<times> unit) set" where
  "poisoned k s = {(Inl ''type_error'', ())}"

lemma all_die:
  "(main_step poisoned)\<^sup>*\<^sup>* (launched False [(), (), ()])
    \<lparr>phase = Watching, shutdown = False, threads = replicate 3 (Died ''type_error''), flags = [True, True, True], bodies = [(), (), ()]\<rparr>"
proof -
  let ?p = "\<lambda>ts fs. \<lparr>phase = Watching, shutdown = False, threads = ts, flags = fs, bodies = [(), (), ()]\<rparr> :: unit process"
  let ?D = "Died ''type_error''"
  have e0: "main_step poisoned (?p [Created, Created, Created] [False, False, False]) (?p [Looping, Created, Created] [True, False, False])"
    using main_step.enter [of 0 "?p [Created, Created, Created] [False, False, False]" poisoned] by simp
  have d0: "main_step poisoned (?p [Looping, Created, Created] [True, False, False]) (?p [?D, Created, Created] [True, False, False])"
    using main_step.died [of 0 "?p [Looping, Created, Created] [True, False, False]" "''type_error''" "()" poisoned] by (simp add: poisoned_def)
  have e1: "main_step poisoned (?p [?D, Created, Created] [True, False, False]) (?p [?D, Looping, Created] [True, True, False])"
    using main_step.enter [of 1 "?p [?D, Created, Created] [True, False, False]" poisoned] by simp
  have d1: "main_step poisoned (?p [?D, Looping, Created] [True, True, False]) (?p [?D, ?D, Created] [True, True, False])"
    using main_step.died [of 1 "?p [?D, Looping, Created] [True, True, False]" "''type_error''" "()" poisoned] by (simp add: poisoned_def)
  have e2: "main_step poisoned (?p [?D, ?D, Created] [True, True, False]) (?p [?D, ?D, Looping] [True, True, True])"
    using main_step.enter [of 2 "?p [?D, ?D, Created] [True, True, False]" poisoned] by simp
  have d2: "main_step poisoned (?p [?D, ?D, Looping] [True, True, True]) (?p [?D, ?D, ?D] [True, True, True])"
    using main_step.died [of 2 "?p [?D, ?D, Looping] [True, True, True]" "''type_error''" "()" poisoned] by (simp add: poisoned_def)
  from e0 d0 e1 d1 e2 d2 show ?thesis
    by (auto simp: launched_def numeral_3_eq_3 intro: converse_rtranclp_into_rtranclp)
qed

theorem crash_unnoticed_witness:
  "\<exists>p. (main_step poisoned)\<^sup>*\<^sup>* (launched False [(), (), ()]) p \<and> threads p = replicate 3 (Died ''type_error'')
    \<and> (\<forall>p'. main_step poisoned p p' \<longrightarrow> p' = p\<lparr>shutdown := True\<rparr>)"
proof (intro exI conjI)
  show "\<forall>p'. main_step poisoned \<lparr>phase = Watching, shutdown = False, threads = replicate 3 (Died ''type_error''),
      flags = [True, True, True], bodies = [(), (), ()]\<rparr> p' \<longrightarrow> p' = \<lparr>phase = Watching, shutdown = False,
      threads = replicate 3 (Died ''type_error''), flags = [True, True, True], bodies = [(), (), ()]\<rparr>\<lparr>shutdown := True\<rparr>"
    using crash_unnoticed [OF all_die, THEN conjunct2] by simp
qed (rule all_die, simp)

section \<open>Shutting down\<close>

text \<open>
  C25. A stop can be lost. \<open>Run\<close> sets \<open>running_\<close> when its thread enters it: a request that came before the threads
  got there is answered by a \<open>Stop\<close> that the thread then undoes. The main thread waits for it in \<open>join\<close>, and
  unless that consumer dies of an exception it waits forever.
\<close>

theorem stop_can_be_lost:
  assumes "\<And>s e s'. (Inl e, s') \<notin> body 0 s"
  shows "\<exists>p. (main_step body)\<^sup>*\<^sup>* (launched True ss) p
    \<and> (\<forall>p'. (main_step body)\<^sup>*\<^sup>* p p' \<longrightarrow> phase p' = Stopping 3 \<and> threads p' ! 0 = Looping \<and> flags p' ! 0)"
proof -
  let ?p = "\<lambda>ph ts f. \<lparr>phase = ph, shutdown = True, threads = ts, flags = f, bodies = ss\<rparr>"
  let ?T = "[Created, Created, Created]" and ?F = "[False, False, False]" and ?e = "?p (Stopping 3) [Looping, Created, Created] [True, False, False]"
  have "main_step body (?p Watching ?T ?F) (?p (Stopping 0) ?T ?F)"
    using main_step.notice [of "?p Watching ?T ?F" body] by simp
  moreover have "main_step body (?p (Stopping 0) ?T ?F) (?p (Stopping 1) ?T ?F)"
    using main_step.stop [of "?p (Stopping 0) ?T ?F" 0 body] by simp
  moreover have "main_step body (?p (Stopping 1) ?T ?F) (?p (Stopping 2) ?T ?F)"
    using main_step.stop [of "?p (Stopping 1) ?T ?F" 1 body] by (simp add: numeral_2_eq_2)
  moreover have "main_step body (?p (Stopping 2) ?T ?F) (?p (Stopping 3) ?T ?F)"
    using main_step.stop [of "?p (Stopping 2) ?T ?F" 2 body] by (simp add: numeral_3_eq_3)
  moreover have "main_step body (?p (Stopping 3) ?T ?F) ?e"
    using main_step.enter [of 0 "?p (Stopping 3) ?T ?F" body] by simp
  ultimately have "(main_step body)\<^sup>*\<^sup>* (launched True ss) ?e"
    unfolding launched_def by (blast intro: converse_rtranclp_into_rtranclp)
  moreover have "phase p' = Stopping 3 \<and> threads p' ! 0 = Looping \<and> flags p' ! 0" if "(main_step body)\<^sup>*\<^sup>* ?e p'" for p'
  proof -
    have "main_inv ?e" by (simp add: main_inv_def nth_Cons split: nat.splits)
    from that main_steps_inv [OF _ this] show ?thesis
    proof (induction rule: rtranclp_induct)
      case (step p1 p2)
      then have now: "phase p1 = Stopping 3" "threads p1 ! 0 = Looping" "flags p1 ! 0" and inv: "main_inv p1" by blast+
      from inv have len: "length (threads p1) = 3" "length (flags p1) = 3" by (simp_all add: main_inv_def)
      from step.hyps(2) show ?case
      proof cases
        case (died k e s)
        then have "k \<noteq> 0" using assms by metis
        with died now len show ?thesis by (simp add: nth_list_update)
      next
        case (leave k)
        then have "k \<noteq> 0" using now(3) by metis
        with leave now len show ?thesis by (simp add: nth_list_update)
      next
        case (joined)
        then show ?thesis using now(2) by (metis thread.distinct zero_less_numeral)
      qed (use now len assms in \<open>auto simp: nth_list_update\<close>)
    qed simp
  qed
  ultimately show ?thesis by blast
qed

theorem stop_can_be_lost_witness:
  "\<exists>p. (main_step (\<lambda>k s. {(Inr (), s)}))\<^sup>*\<^sup>* (launched True [(), (), ()]) p \<and> phase p = Stopping 3"
  using stop_can_be_lost [of "\<lambda>k s. {(Inr (), s)}" "[(), (), ()]"] by blast

text \<open>When every thread has entered its loop before the request is seen, no flag is set again.\<close>

definition entered :: "'s process \<Rightarrow> bool" where
  "entered p \<longleftrightarrow> main_inv p \<and> (\<forall>k < 3. threads p ! k \<noteq> Created)
     \<and> (case phase p of
          Watching \<Rightarrow> True
        | Stopping n \<Rightarrow> \<forall>k < n. \<not> flags p ! k
        | Ended c \<Rightarrow> True)"

lemma entered_step: "main_step body p p' \<Longrightarrow> entered p \<Longrightarrow> entered p'"
proof -
  assume st: "main_step body p p'" and en: "entered p"
  have inv: "main_inv p'" using main_step_inv [OF st] en by (simp add: entered_def)
  have len: "length (threads p) = 3" "length (flags p) = 3" using en by (simp_all add: entered_def main_inv_def)
  from st show "entered p'"
  proof cases
    case (enter k)
    with en show ?thesis by (simp add: entered_def)
  next
    case (died k e s)
    with en inv len show ?thesis by (auto simp: entered_def nth_list_update split: phase.splits)
  next
    case (leave k)
    with en inv len show ?thesis by (auto simp: entered_def nth_list_update split: phase.splits)
  next
    case (stop k)
    with en inv len show ?thesis by (auto simp: entered_def nth_list_update less_Suc_eq)
  qed (use en inv in \<open>auto simp: entered_def split: phase.splits\<close>)
qed

text \<open>From there the main thread can stop, let the loops return, and join.\<close>

lemma stop_all:
  "entered p \<Longrightarrow> phase p = Stopping n \<Longrightarrow> \<exists>p'. (main_step body)\<^sup>*\<^sup>* p p' \<and> entered p' \<and> phase p' = Stopping 3"
proof (induction "3 - n" arbitrary: n p)
  case 0
  then have "n = 3" by (simp add: entered_def main_inv_def)
  with 0 show ?case by blast
next
  case (Suc m)
  then have "n < 3" by simp
  let ?q = "p\<lparr>flags := (flags p)[n := False], phase := Stopping (Suc n)\<rparr>"
  have s: "main_step body p ?q" using Suc.prems(2) \<open>n < 3\<close> by (rule main_step.stop)
  have "m = 3 - Suc n" using Suc.hyps(2) by simp
  from Suc.hyps(1) [OF this entered_step [OF s Suc.prems(1)]] obtain p' where
    "(main_step body)\<^sup>*\<^sup>* ?q p'" "entered p'" "phase p' = Stopping 3" by auto
  with s show ?case by (blast intro: converse_rtranclp_into_rtranclp)
qed

lemma return_all:
  assumes "entered p" "phase p = Stopping 3"
  shows "\<exists>p'. (main_step body)\<^sup>*\<^sup>* p p' \<and> entered p' \<and> phase p' = Stopping 3 \<and> (\<forall>k < 3. threads p' ! k \<noteq> Looping)"
proof -
  have "\<exists>p'. (main_step body)\<^sup>*\<^sup>* p p' \<and> entered p' \<and> phase p' = Stopping 3 \<and> (\<forall>k < n. threads p' ! k \<noteq> Looping)" if "n \<le> 3" for n
    using that
  proof (induction n)
    case 0
    with assms show ?case by auto
  next
    case (Suc n)
    then obtain p1 where p1: "(main_step body)\<^sup>*\<^sup>* p p1" "entered p1" "phase p1 = Stopping 3" "\<forall>k < n. threads p1 ! k \<noteq> Looping" by auto
    show ?case
    proof (cases "threads p1 ! n = Looping")
      case False
      with p1 show ?thesis by (auto simp: less_Suc_eq)
    next
      case True
      let ?q = "p1\<lparr>threads := (threads p1)[n := Returned]\<rparr>"
      have "\<not> flags p1 ! n" "length (threads p1) = 3" using p1(2,3) Suc.prems by (simp_all add: entered_def main_inv_def)
      with True Suc.prems have s: "main_step body p1 ?q" by (intro main_step.leave) simp_all
      have "\<forall>k < Suc n. threads ?q ! k \<noteq> Looping"
        using p1(4) \<open>length (threads p1) = 3\<close> Suc.prems by (auto simp: nth_list_update less_Suc_eq)
      with p1(1,3) s entered_step [OF s p1(2)] show ?thesis by (intro exI [of _ ?q]) auto
    qed
  qed
  then show ?thesis by blast
qed

text \<open>
  C26. A request that comes once the consumers run is obeyed: whatever happens next, no thread is waited for
  in vain; from every state on the way the process can end, with exit code 0, and when the main thread
  has called the last \<open>Stop\<close> no consumer begins another pass.
\<close>

theorem shutdown_completes:
  assumes "(main_step body)\<^sup>*\<^sup>* (launched requested ss) p" "\<And>k. k < 3 \<Longrightarrow> threads p ! k \<noteq> Created" "phase p = Watching"
    and "shutdown p" "(main_step body)\<^sup>*\<^sup>* p p'"
  shows "(\<exists>p''. (main_step body)\<^sup>*\<^sup>* p' p'' \<and> phase p'' = Ended 0)
    \<and> (phase p' = Stopping 3 \<longrightarrow> (\<forall>k < 3. \<not> flags p' ! k))"
proof -
  have "entered p" using main_steps_inv [OF assms(1) launched_inv] assms(2,3) by (simp add: entered_def)
  with assms(5) have en: "entered p'" by (induction rule: rtranclp_induct) (auto intro: entered_step)
  have req: "shutdown p'" using assms(5,4) by (induction rule: rtranclp_induct) (auto elim!: main_stepE)
  have "\<exists>q. (main_step body)\<^sup>*\<^sup>* p' q \<and> entered q \<and> (\<exists>n. phase q = Stopping n)" if "\<And>c. phase p' \<noteq> Ended c"
  proof (cases "phase p'")
    case Watching
    then have s: "main_step body p' (p'\<lparr>phase := Stopping 0\<rparr>)" using req by (rule main_step.notice)
    with entered_step [OF s en] show ?thesis by (intro exI [of _ "p'\<lparr>phase := Stopping 0\<rparr>"]) auto
  qed (use that en in auto)
  moreover have "\<exists>p''. (main_step body)\<^sup>*\<^sup>* q p'' \<and> phase p'' = Ended 0" if q: "entered q" "phase q = Stopping n" for q n
  proof -
    obtain q1 where q1: "(main_step body)\<^sup>*\<^sup>* q q1" "entered q1" "phase q1 = Stopping 3" using stop_all [OF q] by blast
    obtain q2 where q2: "(main_step body)\<^sup>*\<^sup>* q1 q2" "entered q2" "phase q2 = Stopping 3" "\<forall>k < 3. threads q2 ! k \<noteq> Looping"
      using return_all [OF q1(2,3)] by blast
    have "threads q2 ! k = Returned \<or> (\<exists>e. threads q2 ! k = Died e)" if "k < 3" for k
      using that q2(2,4) by (cases "threads q2 ! k") (auto simp: entered_def)
    with q2(3) have "main_step body q2 (q2\<lparr>phase := Ended 0\<rparr>)" by (rule main_step.joined)
    with q1(1) q2(1) show ?thesis by (intro exI [of _ "q2\<lparr>phase := Ended 0\<rparr>"]) (auto intro: rtranclp_trans)
  qed
  moreover have "phase p' = Ended 0" if "phase p' = Ended c" for c
    using en that by (simp add: entered_def main_inv_def)
  ultimately have "\<exists>p''. (main_step body)\<^sup>*\<^sup>* p' p'' \<and> phase p'' = Ended 0"
    by (metis rtranclp.rtrancl_refl rtranclp_trans)
  with en show ?thesis by (auto simp: entered_def)
qed

theorem shutdown_completes_witness:
  "\<exists>p. (main_step poisoned)\<^sup>*\<^sup>* (launched False [(), (), ()]) p \<and> phase p = Ended 0"
proof -
  let ?p = "\<lparr>phase = Watching, shutdown = False, threads = replicate 3 (Died ''type_error''), flags = [True, True, True], bodies = [(), (), ()]\<rparr>"
  let ?q = "?p\<lparr>shutdown := True\<rparr>"
  have "main_step poisoned ?p ?q" by (rule main_step.signal) simp
  with all_die have r: "(main_step poisoned)\<^sup>*\<^sup>* (launched False [(), (), ()]) ?q" by (rule rtranclp.rtrancl_into_rtrancl)
  have "threads ?q ! k \<noteq> Created" if "k < 3" for k using that by simp
  from shutdown_completes [OF r this _ _ rtranclp.rtrancl_refl] obtain p'' where
    "(main_step poisoned)\<^sup>*\<^sup>* ?q p''" "phase p'' = Ended 0" by auto
  with r show ?thesis by (blast intro: rtranclp_trans)
qed

end
