(* ===== verification/Log_Formats.thy ===== *)
theory Log_Formats
  imports Main
begin

text \<open>
  The lines the loggers of the two services send to Logstash: the pattern of \<open>Logger::Init\<close>
  (\<open>api/src/logger.cpp\<close>, \<open>consumers/src/logger.cpp\<close>), the formats of the log statements, and what a JSON
  reader makes of a line. The formatting of {fmt} and the flags of spdlog are parameters with their
  documented behaviour as laws.
\<close>

section \<open>Formatting\<close>

text \<open>
  \<open>fmt::format\<close>: a doubled brace is one brace, \<open>{}\<close> is the next argument as it is, everything else stands
  for itself. \<open>spdlog::pattern_formatter\<close>: a flag is the text the message has for it.
\<close>

definition replaces_fields :: "(string \<Rightarrow> string list \<Rightarrow> string) \<Rightarrow> bool" where
  \<open>replaces_fields fmt \<longleftrightarrow>
     (\<forall>t as. fmt (''{{'' @ t) as = ''{'' @ fmt t as) \<and> (\<forall>t as. fmt (''}}'' @ t) as = ''}'' @ fmt t as) \<and>
     (\<forall>t a as. fmt (''{}'' @ t) (a # as) = a @ fmt t as) \<and>
     (\<forall>c t as. c \<notin> set ''{}'' \<longrightarrow> fmt (c # t) as = c # fmt t as) \<and> (\<forall>as. fmt [] as = [])\<close>

definition expands_flags :: "(string \<Rightarrow> (char \<Rightarrow> string) \<Rightarrow> string) \<Rightarrow> bool" where
  \<open>expands_flags pat \<longleftrightarrow>
     (\<forall>c t flag. pat (CHR ''%'' # c # t) flag = flag c @ pat t flag) \<and>
     (\<forall>c t flag. c \<noteq> CHR ''%'' \<longrightarrow> pat (c # t) flag = c # pat t flag) \<and> (\<forall>flag. pat [] flag = [])\<close>

definition json_pattern :: string where
  \<open>json_pattern =
     ''{"@timestamp":"%Y-%m-%dT%H:%M:%S.%f%z", "level":"%l", "service":"%n", "message":%v}'' @ [CHR 0x0A]\<close>

text \<open>What the sink of the TCP connection writes for a message of a level.\<close>

definition log_line :: "(string \<Rightarrow> (char \<Rightarrow> string) \<Rightarrow> string) \<Rightarrow> (char \<Rightarrow> string) \<Rightarrow> string \<Rightarrow> string \<Rightarrow> string \<Rightarrow> string" where
  "log_line pat clock level service message =
     pat json_pattern (clock(CHR ''l'' := level, CHR ''n'' := service, CHR ''v'' := message))"

section \<open>The statements\<close>

text \<open>A log statement: its level and its format, as in the source.\<close>

type_synonym log_statement = "string \<times> string"

text \<open>\<open>api_server.cpp\<close>\<close>

definition s_order_created :: log_statement where
  \<open>s_order_created = (''info'', ''{{"event": "api_order_created", "order_id": "{}", "latency_ms": {}}}'')\<close>
definition s_bad_request :: log_statement where
  \<open>s_bad_request = (''warning'', ''{{"event": "api_bad_request", "error": "{}"}}'')\<close>
definition s_server_error :: log_statement where
  \<open>s_server_error = (''error'', ''{{"event": "api_server_error", "error": "{}"}}'')\<close>
definition s_status_updated :: log_statement where
  \<open>s_status_updated = (''info'', ''{{"event": "api_order_status_updated", "order_id": "{}", "new_status": "{}", "latency_ms": {}}}'')\<close>
definition s_cache_hit :: log_statement where
  \<open>s_cache_hit = (''info'', ''{{"event": "api_cache_hit", "order_id": "{}"}}'')\<close>
definition s_cache_miss :: log_statement where
  \<open>s_cache_miss = (''info'', ''{{"event": "api_cache_miss", "order_id": "{}"}}'')\<close>
definition s_redis_fallback :: log_statement where
  \<open>s_redis_fallback = (''warning'', ''{{"event": "api_redis_fallback", "error": "{}", "order_id": "{}"}}'')\<close>
definition s_db_hit :: log_statement where
  \<open>s_db_hit = (''info'', ''{{"event": "api_db_hit", "order_id": "{}"}}'')\<close>

text \<open>\<open>database_client.cpp\<close>\<close>

definition s_db_connected :: log_statement where
  \<open>s_db_connected = (''info'', ''{{"event": "db_connected", "dbname": "{}"}}'')\<close>
definition s_db_connection_failed :: log_statement where
  \<open>s_db_connection_failed = (''critical'', ''{{"event": "db_connection_failed", "error": "{}"}}'')\<close>
definition s_order_created_db :: log_statement where
  \<open>s_order_created_db = (''info'', ''{{"event": "order_created_db", "order_id": "{}"}}'')\<close>
definition s_db_insert_failed :: log_statement where
  \<open>s_db_insert_failed = (''error'', ''{{"event": "db_insert_failed", "error": "{}"}}'')\<close>
definition s_status_updated_db :: log_statement where
  \<open>s_status_updated_db = (''info'', ''{{"event": "order_status_updated_db", "order_id": "{}", "new_status": "{}"}}'')\<close>
definition s_db_update_failed :: log_statement where
  \<open>s_db_update_failed = (''error'', ''{{"event": "db_update_failed", "order_id": "{}", "error": "{}"}}'')\<close>
definition s_db_read_failed :: log_statement where
  \<open>s_db_read_failed = (''error'', ''{{"event": "db_read_failed", "error": "{}"}}'')\<close>

text \<open>\<open>load_generator.cpp\<close>\<close>

definition s_generator_started :: log_statement where
  \<open>s_generator_started = (''info'', ''{{"event": "load_generator_started", "target": "{}:{}", "req_per_sec": {}, "threads": {}}}'')\<close>
definition s_generator_stopped :: log_statement where
  \<open>s_generator_stopped = (''info'', ''{{"event": "load_generator_stopped"}}'')\<close>
definition s_patch_sent :: log_statement where
  \<open>s_patch_sent = (''info'', ''{{"event": "request_sent", "method": "PATCH", "thread_id": {}, "order_id": "{}", "new_status": "{}", "status_code": {}, "latency_ms": {}}}'')\<close>
definition s_patch_failed :: log_statement where
  \<open>s_patch_failed = (''warning'', ''{{"event": "request_failed", "method": "PATCH", "thread_id": {}, "status_code": {}, "latency_ms": {}}}'')\<close>
definition s_post_sent :: log_statement where
  \<open>s_post_sent = (''info'', ''{{"event": "request_sent", "method": "POST", "thread_id": {}, "status_code": {}, "latency_ms": {}}}'')\<close>
definition s_post_failed :: log_statement where
  \<open>s_post_failed = (''warning'', ''{{"event": "request_failed", "method": "POST", "thread_id": {}, "status_code": {}, "latency_ms": {}}}'')\<close>

text \<open>\<open>kafka_consumer_base.cpp\<close>\<close>

definition s_subscribed :: log_statement where
  \<open>s_subscribed = (''info'', ''{{"event": "consumer_subscribed", "consumer": "{}", "topic": "{}", "group_id": "{}", "dlq_topic": "{}", "max_retries": {}}}'')\<close>
definition s_producer_warning :: log_statement where
  \<open>s_producer_warning = (''warning'', ''{{"event": "dlq_producer_init_warning", "consumer": "{}", "error": "{}"}}'')\<close>
definition s_producer_unavailable :: log_statement where
  \<open>s_producer_unavailable = (''error'', ''{{"event": "dlq_producer_unavailable", "consumer": "{}"}}'')\<close>
definition s_produce_failed :: log_statement where
  \<open>s_produce_failed = (''error'', ''{{"event": "dlq_produce_failed", "consumer": "{}", "error": "{}"}}'')\<close>
definition s_routed_to_dlq :: log_statement where
  \<open>s_routed_to_dlq = (''warning'', ''{{"event": "routed_to_dlq", "consumer": "{}", "dlq_topic": "{}", "offset": {}, "error": "{}"}}'')\<close>
definition s_unparseable :: log_statement where
  \<open>s_unparseable = (''error'', ''{{"event": "unparseable_payload_routing_dlq", "consumer": "{}", "offset": {}}}'')\<close>
definition s_processed :: log_statement where
  \<open>s_processed = (''info'', ''{{"event": "record_processed", "consumer": "{}", "offset": {}, "processing_latency_ms": {}}}'')\<close>
definition s_processing_failed :: log_statement where
  \<open>s_processing_failed = (''warning'', ''{{"event": "record_processing_failed", "consumer": "{}", "attempt": {}, "max_retries": {}, "offset": {}, "error": "{}"}}'')\<close>
definition s_retries_exhausted :: log_statement where
  \<open>s_retries_exhausted = (''error'', ''{{"event": "retries_exhausted_routing_dlq", "consumer": "{}", "offset": {}, "error": "{}"}}'')\<close>
definition s_consumer_warning :: log_statement where
  \<open>s_consumer_warning = (''warning'', ''{{"event": "kafka_consumer_warning", "consumer": "{}", "error": "{}"}}'')\<close>
definition s_consumer_stopped :: log_statement where
  \<open>s_consumer_stopped = (''info'', ''{{"event": "consumer_stopped", "consumer": "{}"}}'')\<close>

text \<open>\<open>redis_updater.cpp\<close>, \<open>es_indexer.cpp\<close>, \<open>notifier.cpp\<close>\<close>

definition s_redis_deleted :: log_statement where
  \<open>s_redis_deleted = (''info'', ''{{"event": "redis_deleted", "order_id": "{}", "lsn": {}, "offset": {}}}'')\<close>
definition s_stale_ignored :: log_statement where
  \<open>s_stale_ignored = (''warning'', ''{{"event": "redis_stale_event_ignored", "order_id": "{}", "lsn": {}, "offset": {}}}'')\<close>
definition s_redis_updated :: log_statement where
  \<open>s_redis_updated = (''info'', ''{{"event": "redis_updated", "consumer": "RedisUpdater", "order_id": "{}", "status": "{}", "lsn": {}, "offset": {}, "sink_latency_ms": {}}}'')\<close>
definition s_es_deleted :: log_statement where
  \<open>s_es_deleted = (''info'', ''{{"event": "es_deleted", "order_id": "{}", "status": {}}}'')\<close>
definition s_es_indexed :: log_statement where
  \<open>s_es_indexed = (''info'', ''{{"event": "es_indexed", "consumer": "ESIndexer", "order_id": "{}", "status_code": {}, "offset": {}, "sink_latency_ms": {}}}'')\<close>
definition s_email_sent :: log_statement where
  \<open>s_email_sent = (''info'', ''{{"event": "email_notification_sent", "consumer": "Notifier", "recipient": "{}@example.com", "order_id": "{}", "status": "{}", "subject": "Order {} has been {}", "offset": {}}}'')\<close>
definition s_email_skipped :: log_statement where
  \<open>s_email_skipped = (''warning'', ''{{"event": "email_notification_skipped_duplicate", "consumer": "Notifier", "order_id": "{}", "status": "{}", "reason": "Idempotency key already exists in Redis", "offset": {}}}'')\<close>

text \<open>\<open>avro_deserializer.cpp\<close>\<close>

definition s_avro_failed :: log_statement where
  \<open>s_avro_failed = (''error'', ''{{"event": "avro_deserialization_failed", "error": "{}"}}'')\<close>
definition s_raw_failed :: log_statement where
  \<open>s_raw_failed = (''error'', ''{{"event": "raw_payload_parse_failed", "error": "{}"}}'')\<close>

text \<open>\<open>api_server.cpp\<close>, \<open>redis_client.cpp\<close> and \<open>main.cpp\<close> of the API, where they start and stop\<close>

definition s_api_starting :: log_statement where
  \<open>s_api_starting = (''info'', ''{{"event": "api_server_starting", "port": {}}}'')\<close>
definition s_redis_connected :: log_statement where
  \<open>s_redis_connected = (''info'', ''{{"event": "redis_connected", "host": "{}"}}'')\<close>
definition s_api_signal :: log_statement where
  \<open>s_api_signal = (''info'', ''{{"event": "shutdown_signal_received", "signal": {}}}'')\<close>
definition s_waiting_for_db :: log_statement where
  \<open>s_waiting_for_db = (''warning'', ''{{"event": "waiting_for_db_or_redis", "attempt": {}, "error": "{}"}}'')\<close>
definition s_generator_config :: log_statement where
  \<open>s_generator_config = (''info'', ''{{"event": "load_generator_config", "rps": {}, "threads": {}}}'')\<close>
definition s_fatal_startup :: log_statement where
  \<open>s_fatal_startup = (''critical'', ''{{"event": "fatal_startup_error", "error": "{}"}}'')\<close>

text \<open>Records without an identifier, and the other ways a payload cannot be read\<close>

definition s_redis_no_id :: log_statement where
  \<open>s_redis_no_id = (''warning'', ''{{"event": "redis_updater_skip_no_id", "offset": {}}}'')\<close>
definition s_es_no_id :: log_statement where
  \<open>s_es_no_id = (''warning'', ''{{"event": "es_indexer_skip_no_id", "offset": {}}}'')\<close>
definition s_avro_to_json_failed :: log_statement where
  \<open>s_avro_to_json_failed = (''error'', ''{{"event": "avro_to_json_conversion_failed"}}'')\<close>
definition s_json_parse_failed :: log_statement where
  \<open>s_json_parse_failed = (''error'', ''{{"event": "json_parse_failed", "error": "{}"}}'')\<close>

text \<open>The parts of the consumers when they are built, \<open>logger.cpp\<close> and \<open>main.cpp\<close> of the consumers\<close>

definition s_avro_initialized :: log_statement where
  \<open>s_avro_initialized = (''info'', ''{{"event": "avro_deserializer_initialized", "schema_registry": "{}"}}'')\<close>
definition s_redis_updater_connected :: log_statement where
  \<open>s_redis_updater_connected = (''info'', ''{{"event": "redis_updater_connected", "host": "{}"}}'')\<close>
definition s_notifier_connected :: log_statement where
  \<open>s_notifier_connected = (''info'', ''{{"event": "notifier_redis_connected", "host": "{}"}}'')\<close>
definition s_logger_initialized :: log_statement where
  \<open>s_logger_initialized = (''info'', ''{{"event": "logger_initialized", "service": "{}"}}'')\<close>
definition s_consumers_starting :: log_statement where
  \<open>s_consumers_starting = (''info'', ''{{"event": "consumers_starting", "brokers": "{}", "topic": "{}", "schema_registry": "{}"}}'')\<close>
definition s_waiting_for_services :: log_statement where
  \<open>s_waiting_for_services = (''warning'', ''{{"event": "waiting_for_services", "attempt": {}, "error": "{}"}}'')\<close>
definition s_launching_threads :: log_statement where
  \<open>s_launching_threads = (''info'', ''{{"event": "launching_consumer_threads"}}'')\<close>
definition s_es_crashed :: log_statement where
  \<open>s_es_crashed = (''critical'', ''{{"event": "es_indexer_crashed", "error": "{}"}}'')\<close>
definition s_redis_updater_crashed :: log_statement where
  \<open>s_redis_updater_crashed = (''critical'', ''{{"event": "redis_updater_crashed", "error": "{}"}}'')\<close>
definition s_notifier_crashed :: log_statement where
  \<open>s_notifier_crashed = (''critical'', ''{{"event": "notifier_crashed", "error": "{}"}}'')\<close>
definition s_threads_running :: log_statement where
  \<open>s_threads_running = (''info'', ''{{"event": "all_consumer_threads_running"}}'')\<close>
definition s_consumers_signal :: log_statement where
  \<open>s_consumers_signal = (''info'', ''{{"event": "shutdown_signal_received"}}'')\<close>
definition s_shutdown_complete :: log_statement where
  \<open>s_shutdown_complete = (''info'', ''{{"event": "consumers_shutdown_complete"}}'')\<close>
definition s_consumers_fatal :: log_statement where
  \<open>s_consumers_fatal = (''critical'', ''{{"event": "consumers_fatal_error", "error": "{}"}}'')\<close>

text \<open>
  Two calls are not here, since nothing of them reaches Logstash as an event: \<open>"Logger initialized successfully"\<close>
  of \<open>api/src/logger.cpp\<close>, a JSON text without an event, and \<open>logger_tcp_failed_using_console_only\<close> of
  \<open>consumers/src/logger.cpp\<close>, which is written when there is no connection to Logstash.
\<close>

end
