(* ===== verification/Log_Routing.thy ===== *)
theory Log_Routing
  imports Cpp_Json
begin

text \<open>
  What \<open>logstash/logstash.conf\<close> does to a log event of the services: the members of its message move
  to the top level, numbers are converted, and the name of the event decides the index. The conversions
  of Logstash and its date are parameters.
\<close>

section \<open>Names and indices\<close>

definition api_events :: "string list" where
  "api_events =
     [''request_sent'', ''request_failed'', ''api_order_created'',
      ''api_order_status_updated'', ''api_cache_hit'', ''api_cache_miss'']"

definition consumer_events :: "string list" where
  "consumer_events =
     [''redis_updated'', ''es_indexed'', ''email_notification_sent'',
      ''record_processed'', ''routed_to_dlq'',
      ''record_processing_failed'', ''redis_stale_event_ignored'']"

text \<open>An event without the field \<open>event\<close> is in neither list.\<close>

definition log_type :: "string option \<Rightarrow> string" where
  "log_type event =
     (case event of
        None \<Rightarrow> ''system''
      | Some e \<Rightarrow>
          if e \<in> set api_events then ''api'' else if e \<in> set consumer_events then ''consumer'' else ''system'')"

text \<open>The index is the pattern with the date of the event for the final \<open>*\<close>.\<close>

definition log_index :: "string option \<Rightarrow> string" where
  "log_index event =
     (if log_type event = ''api'' then ''cdc-api-logs-*''
      else if log_type event = ''consumer'' then ''cdc-consumer-logs-*''
      else ''cdc-system-logs-*'')"

lemma log_index_cases:
  "log_index (Some e) =
     (if e \<in> set api_events then ''cdc-api-logs-*''
      else if e \<in> set consumer_events then ''cdc-consumer-logs-*'' else ''cdc-system-logs-*'')"
  by (simp add: log_index_def log_type_def)

section \<open>The filter\<close>

type_synonym log_document = "(string \<times> json) list"

definition set_field :: "string \<Rightarrow> json \<Rightarrow> log_document \<Rightarrow> log_document" where
  "set_field k v d = (k, v) # filter (\<lambda>p. fst p \<noteq> k) d"

definition remove_field :: "string \<Rightarrow> log_document \<Rightarrow> log_document" where
  "remove_field k d = filter (\<lambda>p. fst p \<noteq> k) d"

text \<open>\<open>[message]\<close> is a condition: present and neither null nor false; only a hash is flattened.\<close>

definition flatten_message :: "log_document \<Rightarrow> log_document" where
  "flatten_message d =
     (case map_of d ''message'' of
        Some (JObj ms) \<Rightarrow> remove_field ''message'' (fold (\<lambda>(k, v). set_field k v) ms d)
      | _ \<Rightarrow> d)"

definition present :: "string \<Rightarrow> log_document \<Rightarrow> bool" where
  "present k d = (case map_of d k of None \<Rightarrow> False | Some JNull \<Rightarrow> False | Some (JBool b) \<Rightarrow> b | _ \<Rightarrow> True)"

definition coerce_field :: "(string \<Rightarrow> json \<Rightarrow> json) \<Rightarrow> string \<times> string \<Rightarrow> log_document \<Rightarrow> log_document" where
  "coerce_field convert f d =
     (case f of (k, kind) \<Rightarrow>
        if present k d then set_field k (convert kind (the (map_of d k))) d else d)"

definition coercions :: "(string \<times> string) list" where
  "coercions =
     [(''latency_ms'', ''float''), (''processing_latency_ms'', ''float''), (''sink_latency_ms'', ''float''),
      (''offset'', ''integer''), (''status_code'', ''integer''), (''thread_id'', ''integer'')]"

text \<open>\<open>add_field\<close> on a field that exists makes an array of both values.\<close>

definition add_field :: "string \<Rightarrow> json \<Rightarrow> log_document \<Rightarrow> log_document" where
  "add_field k v d =
     set_field k (case map_of d k of None \<Rightarrow> v | Some (JArr vs) \<Rightarrow> JArr (vs @ [v]) | Some u \<Rightarrow> JArr [u, v]) d"

definition event_name :: "log_document \<Rightarrow> string option" where
  "event_name d = (case map_of d ''event'' of Some (JStr e) \<Rightarrow> Some e | _ \<Rightarrow> None)"

definition filter_event :: "(string \<Rightarrow> json \<Rightarrow> json) \<Rightarrow> json \<Rightarrow> log_document \<Rightarrow> log_document" where
  "filter_event convert timestamp d =
     (let d1 = fold (coerce_field convert) coercions (flatten_message d);
          d2 = add_field ''log_type'' (JStr (log_type (event_name d1))) d1 in
      add_field ''ingest_time'' timestamp d2)"

definition output_index :: "log_document \<Rightarrow> string" where
  "output_index d =
     (if map_of d ''log_type'' = Some (JStr ''api'') then ''cdc-api-logs-*''
      else if map_of d ''log_type'' = Some (JStr ''consumer'') then ''cdc-consumer-logs-*''
      else ''cdc-system-logs-*'')"

section \<open>Routing of what the services log\<close>

lemma set_field_get: "map_of (set_field k v d) k' = (if k' = k then Some v else map_of d k')"
proof -
  have "k' \<noteq> k \<Longrightarrow> map_of (filter (\<lambda>p. fst p \<noteq> k) d) k' = map_of d k'" by (rule map_of_filter_ne)
  then show ?thesis by (auto simp: set_field_def)
qed

lemma set_fields_get: "map_of (fold (\<lambda>(k, v). set_field k v) ms d) k = map_of (rev ms @ d) k"
  by (induction ms arbitrary: d) (auto simp: set_field_get map_add_def split: option.splits)

lemma coerce_other: "k \<notin> fst ` set fs \<Longrightarrow> map_of (fold (coerce_field convert) fs d) k = map_of d k"
proof (induction fs arbitrary: d)
  case (Cons f fs)
  then show ?case by (cases f) (auto simp: coerce_field_def set_field_get)
qed simp

lemma present_other: "k \<noteq> k' \<Longrightarrow> present k (set_field k' v d) = present k d"
  by (simp add: present_def set_field_get)

lemma coerced_get:
  "distinct (map fst fs) \<Longrightarrow> map_of (fold (coerce_field convert) fs d) k =
    (case map_of fs k of
       None \<Rightarrow> map_of d k
     | Some kind \<Rightarrow> if present k d then Some (convert kind (the (map_of d k))) else map_of d k)"
proof (induction fs arbitrary: d)
  case (Cons f fs)
  obtain k' kind where f: "f = (k', kind)" by (cases f)
  have new: "k' \<notin> fst ` set fs" using Cons.prems by (auto simp: f)
  then have "map_of fs k' = None" by (simp add: map_of_eq_None_iff)
  with Cons show ?case
    by (cases "k = k'") (auto simp: f coerce_field_def set_field_get present_other split: option.splits)
qed simp

text \<open>
  A line as the logger of the services prints it, its message an object without repeated keys, goes
  to the index of the event its message names.
\<close>

lemma routed_by_name:
  assumes "map_of d ''message'' = Some (JObj ms)" "distinct (map fst ms)" "map_of ms ''event'' = Some (JStr e)"
    and "''log_type'' \<notin> fst ` set (ms @ d)"
  shows "output_index (filter_event convert timestamp d) = log_index (Some e)"
proof -
  let ?d1 = "fold (coerce_field convert) coercions (flatten_message d)"
  have rev: "map_of (rev ms) = map_of ms"
    using assms(2) by (intro map_of_eqI) (auto simp: rev_map [symmetric] map_of_eq_Some_iff)
  have get: "map_of ?d1 k = map_of (rev ms @ d) k" if "k \<noteq> ''message''" "k \<notin> fst ` set coercions" for k
    using that by (simp add: coerce_other flatten_message_def assms(1) remove_field_def map_of_filter_ne set_fields_get
        del: map_of_append)
  have "event_name ?d1 = Some e"
    using get [of "''event''"] by (simp add: event_name_def coercions_def rev assms(3))
  moreover have "map_of ?d1 ''log_type'' = None"
  proof -
    have "map_of (rev ms @ d) ''log_type'' = None" using assms(4) by (auto simp: map_of_eq_None_iff simp del: map_of_append)
    then show ?thesis using get [of "''log_type''"] by (simp add: coercions_def del: map_of_append)
  qed
  ultimately show ?thesis
    by (simp add: filter_event_def Let_def add_field_def output_index_def set_field_get log_index_def log_type_def)
qed

lemma coercions_distinct: "distinct (map fst coercions)"
  by (simp add: coercions_def)

text \<open>Every other member of the message is a field of the document, a number converted as configured.\<close>

lemma routed_field:
  assumes "map_of d ''message'' = Some (JObj ms)" "distinct (map fst ms)" "map_of ms k = Some v"
    and "k \<notin> {''message'', ''log_type'', ''ingest_time''}" "v \<noteq> JNull" "v \<noteq> JBool False"
  shows "map_of (filter_event convert timestamp d) k =
    Some (case map_of coercions k of None \<Rightarrow> v | Some kind \<Rightarrow> convert kind v)"
proof -
  have rev: "map_of (rev ms) = map_of ms"
    using assms(2) by (intro map_of_eqI) (auto simp: rev_map [symmetric] map_of_eq_Some_iff)
  have flat: "map_of (flatten_message d) k = Some v"
    using assms(3,4)
    by (simp add: flatten_message_def assms(1) remove_field_def map_of_filter_ne set_fields_get rev map_add_Some_iff
        del: map_of_append) (simp add: rev)
  moreover have "present k (flatten_message d)"
    using flat assms(5,6) by (auto simp: present_def split: json.splits)
  ultimately have "map_of (fold (coerce_field convert) coercions (flatten_message d)) k =
      Some (case map_of coercions k of None \<Rightarrow> v | Some kind \<Rightarrow> convert kind v)"
    using coerced_get [of coercions convert "flatten_message d" k] flat coercions_distinct by (simp split: option.splits)
  then show ?thesis using assms(4) by (simp add: filter_event_def Let_def add_field_def set_field_get)
qed

end
