(* ===== verification/Py_Json.thy ===== *)
theory Py_Json
  imports Decimal_Text Cdc_Prelude
begin

text \<open>
  The values, texts and JSON codec the Python scripts (\<open>scripts/*.py\<close>) use. A Python string is
  the list of its code points; \<open>json.dumps\<close> (compact and with \<open>indent\<close>, \<open>ensure_ascii\<close> on) and
  \<open>json.loads\<close> are the standard library's, written out so that what a server reads from a
  request body can be computed.
\<close>

section \<open>Values\<close>

type_synonym pystr = "nat list"

definition ascii :: "string \<Rightarrow> pystr" where
  "ascii s = map of_char s"

text \<open>
  \<open>PFloat m k\<close> is the float written as the decimal \<open>m / 10 ^ k\<close> with \<open>k\<close> digits after the point;
  the scripts only print floats of a few digits, which Python prints as that decimal. \<open>PSpecial\<close> is one of the floats \<open>NaN\<close>, \<open>Infinity\<close> and \<open>-Infinity\<close>.
\<close>

datatype pyval =
    PNone
  | PBool bool
  | PInt int
  | PFloat int nat
  | PSpecial string
  | PStr pystr
  | PList "pyval list"
  | PDict "(pystr \<times> pyval) list"

abbreviation S :: "string \<Rightarrow> pyval" where "S s \<equiv> PStr (ascii s)"
abbreviation T :: "string \<Rightarrow> pystr" where "T s \<equiv> ascii s"

lemma ascii_simps [simp]:
  "ascii [] = []" "ascii (s @ t) = ascii s @ ascii t" "length (ascii s) = length s"
  "ascii s = [] \<longleftrightarrow> s = []"
  by (simp_all add: ascii_def)

lemma ascii_Cons: "ascii (c # s) = of_char c # ascii s"
  by (simp add: ascii_def)

lemma ascii_inj [simp]: "ascii s = ascii t \<longleftrightarrow> s = t"
  unfolding ascii_def by (intro inj_map_eq_map injI) simp

text \<open>\<open>d[k]\<close> and \<open>d.get(k)\<close>: \<open>None\<close> is the \<open>KeyError\<close> (or, on a value that is no dict, the \<open>TypeError\<close>).\<close>

definition item :: "pystr \<Rightarrow> pyval \<Rightarrow> pyval option" where
  "item k v = (case v of PDict ms \<Rightarrow> map_of ms k | _ \<Rightarrow> None)"

text \<open>A dict built from pairs: the last value of a key wins and stays at the key's first place.\<close>

fun dict_set :: "'k \<Rightarrow> 'v \<Rightarrow> ('k \<times> 'v) list \<Rightarrow> ('k \<times> 'v) list" where
  "dict_set k v [] = [(k, v)]"
| "dict_set k v ((k', v') # ms) = (if k' = k then (k, v) # ms else (k', v') # dict_set k v ms)"

definition dict_of :: "('k \<times> 'v) list \<Rightarrow> ('k \<times> 'v) list" where
  "dict_of ps = fold (\<lambda>(k, v) d. dict_set k v d) ps []"

lemma dict_set_map_of: "map_of (dict_set k v d) = (map_of d)(k \<mapsto> v)"
  by (induction k v d rule: dict_set.induct) (auto simp: fun_eq_iff)

lemma dict_set_new: "k \<notin> fst ` set d \<Longrightarrow> dict_set k v d = d @ [(k, v)]"
  by (induction k v d rule: dict_set.induct) auto

lemma dict_of_distinct: "distinct (map fst ps) \<Longrightarrow> dict_of ps = ps"
proof -
  have "distinct (map fst (d @ ps)) \<Longrightarrow> fold (\<lambda>(k, v) d. dict_set k v d) ps d = d @ ps" for d
  proof (induction ps arbitrary: d)
    case (Cons p ps)
    obtain k v where p: "p = (k, v)" by (cases p)
    then have "k \<notin> fst ` set d" using Cons.prems by auto
    with Cons.IH [of "d @ [p]"] Cons.prems p show ?case by (simp add: dict_set_new)
  qed simp
  from this [of "[]"] show "distinct (map fst ps) \<Longrightarrow> dict_of ps = ps" by (simp add: dict_of_def)
qed

lemma dict_of_map_of: "map_of (dict_of ps) k = map_of (rev ps) k"
proof -
  have "map_of (fold (\<lambda>(k, v) d. dict_set k v d) ps d) k = map_of (rev ps @ d) k" for d
    by (induction ps arbitrary: d) (auto simp: dict_set_map_of map_add_def split: option.splits)
  from this [of "[]"] show ?thesis by (simp add: dict_of_def)
qed

section \<open>dumps\<close>

definition hex_digit :: "nat \<Rightarrow> nat" where
  "hex_digit d = (if d < 10 then 48 + d else 87 + d)"

definition hex4 :: "nat \<Rightarrow> pystr" where
  "hex4 n = [hex_digit (n div 4096 mod 16), hex_digit (n div 256 mod 16), hex_digit (n div 16 mod 16),
             hex_digit (n mod 16)]"

definition uXXXX :: "nat \<Rightarrow> pystr" where
  "uXXXX n = [92, 117] @ hex4 n"

text \<open>\<open>py_encode_basestring_ascii\<close>: everything outside printable ASCII is escaped.\<close>

definition escape_char :: "nat \<Rightarrow> pystr" where
  "escape_char c =
     (if c = 34 then [92, 34] else if c = 92 then [92, 92] else if c = 10 then [92, 110]
      else if c = 13 then [92, 114] else if c = 9 then [92, 116] else if c = 8 then [92, 98]
      else if c = 12 then [92, 102]
      else if 32 \<le> c \<and> c \<le> 126 then [c]
      else if c < 65536 then uXXXX c
      else uXXXX (55296 + (c - 65536) div 1024) @ uXXXX (56320 + (c - 65536) mod 1024))"

definition dump_str :: "pystr \<Rightarrow> pystr" where
  "dump_str t = [34] @ concat (map escape_char t) @ [34]"

text \<open>The decimal \<open>m / 10 ^ k\<close>, with the point.\<close>

definition pad_nat :: "nat \<Rightarrow> nat \<Rightarrow> string" where
  "pad_nat k n = replicate (k - length (show_nat n)) (CHR ''0'') @ show_nat n"

definition dump_float :: "int \<Rightarrow> nat \<Rightarrow> pystr" where
  "dump_float m k =
     ascii ((if m < 0 then ''-'' else []) @ show_nat (nat \<bar>m\<bar> div 10 ^ k) @ ''.'' @ pad_nat k (nat \<bar>m\<bar> mod 10 ^ k))"

definition newline :: "nat option \<Rightarrow> nat \<Rightarrow> pystr" where
  "newline ind level = (case ind of None \<Rightarrow> [] | Some w \<Rightarrow> 10 # replicate (w * level) 32)"

definition item_separator :: "nat option \<Rightarrow> nat \<Rightarrow> pystr" where
  "item_separator ind level = (case ind of None \<Rightarrow> [44, 32] | Some _ \<Rightarrow> 44 # newline ind level)"

fun dump_val :: "nat option \<Rightarrow> nat \<Rightarrow> pyval \<Rightarrow> pystr"
and dump_items :: "nat option \<Rightarrow> nat \<Rightarrow> pyval list \<Rightarrow> pystr"
and dump_members :: "nat option \<Rightarrow> nat \<Rightarrow> (pystr \<times> pyval) list \<Rightarrow> pystr" where
  "dump_val ind level PNone = ascii ''null''"
| "dump_val ind level (PBool b) = ascii (if b then ''true'' else ''false'')"
| "dump_val ind level (PInt i) = ascii (show_int i)"
| "dump_val ind level (PFloat m k) = dump_float m k"
| "dump_val ind level (PSpecial c) = ascii c"
| "dump_val ind level (PStr t) = dump_str t"
| "dump_val ind level (PList xs) =
     (if xs = [] then [91, 93]
      else [91] @ newline ind (Suc level) @ dump_items ind (Suc level) xs @ newline ind level @ [93])"
| "dump_val ind level (PDict ms) =
     (if ms = [] then [123, 125]
      else [123] @ newline ind (Suc level) @ dump_members ind (Suc level) ms @ newline ind level @ [125])"
| "dump_items ind level [] = []"
| "dump_items ind level (x # xs) =
     dump_val ind level x @ (if xs = [] then [] else item_separator ind level @ dump_items ind level xs)"
| "dump_members ind level [] = []"
| "dump_members ind level ((k, v) # ms) =
     dump_str k @ [58, 32] @ dump_val ind level v
       @ (if ms = [] then [] else item_separator ind level @ dump_members ind level ms)"

definition dumps :: "pyval \<Rightarrow> pystr" where
  "dumps v = dump_val None 0 v"

definition dumps_indent :: "nat \<Rightarrow> pyval \<Rightarrow> pystr" where
  "dumps_indent w v = dump_val (Some w) 0 v"

section \<open>loads\<close>

definition is_ws :: "nat \<Rightarrow> bool" where
  "is_ws c \<longleftrightarrow> c = 32 \<or> c = 9 \<or> c = 10 \<or> c = 13"

definition skip_ws :: "pystr \<Rightarrow> pystr" where
  "skip_ws s = dropWhile is_ws s"

definition unhex :: "nat \<Rightarrow> nat option" where
  "unhex c = (if 48 \<le> c \<and> c \<le> 57 then Some (c - 48) else if 97 \<le> c \<and> c \<le> 102 then Some (c - 87)
     else if 65 \<le> c \<and> c \<le> 70 then Some (c - 55) else None)"

definition scan_hex4 :: "pystr \<Rightarrow> (nat \<times> pystr) option" where
  "scan_hex4 s =
     (case s of
        a # b # c # d # r \<Rightarrow>
          (case (unhex a, unhex b, unhex c, unhex d) of
             (Some a, Some b, Some c, Some d) \<Rightarrow> Some (a * 4096 + b * 256 + c * 16 + d, r)
           | _ \<Rightarrow> None)
      | _ \<Rightarrow> None)"

text \<open>A four-digit escape after the \<open>u\<close>: a high surrogate joins an escaped low one that follows.\<close>

definition scan_unicode :: "pystr \<Rightarrow> (nat \<times> pystr) option" where
  "scan_unicode s =
     (case scan_hex4 s of
        None \<Rightarrow> None
      | Some (u, r) \<Rightarrow>
          if 55296 \<le> u \<and> u < 56320 then
            (case r of
               a # b # r' \<Rightarrow>
                 if a = 92 \<and> b = 117 then
                   (case scan_hex4 r' of
                      None \<Rightarrow> None
                    | Some (u', r'') \<Rightarrow>
                        if 56320 \<le> u' \<and> u' < 57344
                        then Some (65536 + (u - 55296) * 1024 + (u' - 56320), r'')
                        else Some (u, r))
                 else Some (u, r)
             | _ \<Rightarrow> Some (u, r))
          else Some (u, r))"

definition scan_escape :: "pystr \<Rightarrow> (nat \<times> pystr) option" where
  "scan_escape s =
     (case s of
        [] \<Rightarrow> None
      | c # r \<Rightarrow>
          if c = 34 \<or> c = 92 \<or> c = 47 then Some (c, r)
          else if c = 98 then Some (8, r) else if c = 102 then Some (12, r)
          else if c = 110 then Some (10, r) else if c = 114 then Some (13, r)
          else if c = 116 then Some (9, r) else if c = 117 then scan_unicode r else None)"

lemma scan_hex4_shorter: "scan_hex4 s = Some (u, r) \<Longrightarrow> length r < length s"
  by (auto simp: scan_hex4_def split: list.splits option.splits prod.splits)

lemma scan_unicode_shorter: "scan_unicode s = Some (u, r) \<Longrightarrow> length r < length s"
  by (auto simp: scan_unicode_def dest!: scan_hex4_shorter split: list.splits option.splits prod.splits if_splits)

lemma scan_escape_shorter [termination_simp]: "scan_escape s = Some (u, r) \<Longrightarrow> length r < length s"
  by (auto simp: scan_escape_def dest!: scan_unicode_shorter split: list.splits if_splits)

text \<open>\<open>scanstring\<close> in strict mode, after the opening quote.\<close>

fun scan_string :: "pystr \<Rightarrow> (pystr \<times> pystr) option" where
  "scan_string [] = None"
| "scan_string (c # r) =
     (if c = 34 then Some ([], r)
      else if c = 92 then
        (case scan_escape r of
           None \<Rightarrow> None
         | Some (u, r') \<Rightarrow>
             (case scan_string r' of None \<Rightarrow> None | Some (t, z) \<Rightarrow> Some (u # t, z)))
      else if c < 32 then None
      else (case scan_string r of None \<Rightarrow> None | Some (t, z) \<Rightarrow> Some (c # t, z)))"

definition is_dig :: "nat \<Rightarrow> bool" where
  "is_dig c \<longleftrightarrow> 48 \<le> c \<and> c \<le> 57"

definition digits_value :: "pystr \<Rightarrow> nat" where
  "digits_value ds = foldl (\<lambda>n d. n * 10 + (d - 48)) 0 ds"

text \<open>The float a decimal \<open>m * 10 ^ e\<close> denotes, without superfluous zeros.\<close>

function strip_zeros :: "int \<Rightarrow> nat \<Rightarrow> int \<times> nat" where
  "strip_zeros m k = (if 1 < k \<and> m mod 10 = 0 then strip_zeros (m div 10) (k - 1) else (m, k))"
  by pat_completeness auto
termination by (relation "measure snd") auto

declare strip_zeros.simps [simp del]

definition make_float :: "bool \<Rightarrow> pystr \<Rightarrow> pystr \<Rightarrow> int \<Rightarrow> pyval" where
  "make_float neg ip fp e =
     (let m = int (digits_value (ip @ fp)); m = (if neg then - m else m); k = int (length fp) - e in
      case strip_zeros (if 1 \<le> k then m else m * 10 ^ nat (1 - k)) (nat (max 1 k)) of (m, k) \<Rightarrow> PFloat m k)"

definition scan_exponent :: "pystr \<Rightarrow> (int \<times> pystr) option" where
  "scan_exponent s =
     (case s of
        [] \<Rightarrow> None
      | c # r \<Rightarrow>
          if c = 101 \<or> c = 69 then
            (let (sg, r') = (case r of [] \<Rightarrow> (1, r) | d # r'' \<Rightarrow> if d = 45 then (-1, r'') else if d = 43 then (1, r'') else (1, r));
                 ds = takeWhile is_dig r' in
             if ds = [] then None else Some (sg * int (digits_value ds), dropWhile is_dig r'))
          else None)"

definition scan_fraction :: "pystr \<Rightarrow> (pystr \<times> pystr) option" where
  "scan_fraction s =
     (case s of
        [] \<Rightarrow> None
      | c # r \<Rightarrow> if c = 46 \<and> takeWhile is_dig r \<noteq> [] then Some (takeWhile is_dig r, dropWhile is_dig r) else None)"

definition scan_number :: "pystr \<Rightarrow> (pyval \<times> pystr) option" where
  "scan_number s =
     (let (neg, s1) = (case s of [] \<Rightarrow> (False, s) | c # r \<Rightarrow> if c = 45 then (True, r) else (False, s));
          ds = takeWhile is_dig s1;
          ip = (if ds \<noteq> [] \<and> hd ds = 48 then [48] else ds);
          r = drop (length ip) s1 in
      if ip = [] then None
      else
        (case (scan_fraction r, scan_exponent (case scan_fraction r of None \<Rightarrow> r | Some (_, r') \<Rightarrow> r')) of
           (None, None) \<Rightarrow> Some (PInt (if neg then - int (digits_value ip) else int (digits_value ip)), r)
         | (Some (fp, r'), None) \<Rightarrow> Some (make_float neg ip fp 0, r')
         | (None, Some (e, r')) \<Rightarrow> Some (make_float neg ip [] e, r')
         | (Some (fp, _), Some (e, r')) \<Rightarrow> Some (make_float neg ip fp e, r')))"

definition scan_atom :: "pystr \<Rightarrow> (pyval \<times> pystr) option" where
  "scan_atom s =
     (if take 4 s = ascii ''null'' then Some (PNone, drop 4 s)
      else if take 4 s = ascii ''true'' then Some (PBool True, drop 4 s)
      else if take 5 s = ascii ''false'' then Some (PBool False, drop 5 s)
      else if take 3 s = ascii ''NaN'' then Some (PSpecial ''NaN'', drop 3 s)
      else if take 8 s = ascii ''Infinity'' then Some (PSpecial ''Infinity'', drop 8 s)
      else if take 9 s = ascii ''-Infinity'' then Some (PSpecial ''-Infinity'', drop 9 s)
      else scan_number s)"

text \<open>
  \<open>scan_once\<close>, with the nesting of values bounded by fuel; \<open>loads\<close> gives it enough for any text.
\<close>

fun scan_value :: "nat \<Rightarrow> pystr \<Rightarrow> (pyval \<times> pystr) option"
and scan_elements :: "nat \<Rightarrow> pystr \<Rightarrow> (pyval list \<times> pystr) option"
and scan_members :: "nat \<Rightarrow> pystr \<Rightarrow> ((pystr \<times> pyval) list \<times> pystr) option" where
  "scan_value 0 s = None"
| "scan_value (Suc n) s =
     (case s of
        [] \<Rightarrow> None
      | c # r \<Rightarrow>
          if c = 34 then map_option (\<lambda>(t, z). (PStr t, z)) (scan_string r)
          else if c = 91 then
            (if take 1 (skip_ws r) = [93] then Some (PList [], drop 1 (skip_ws r))
             else map_option (\<lambda>(vs, z). (PList vs, z)) (scan_elements n (skip_ws r)))
          else if c = 123 then
            (if take 1 (skip_ws r) = [125] then Some (PDict [], drop 1 (skip_ws r))
             else map_option (\<lambda>(ms, z). (PDict (dict_of ms), z)) (scan_members n (skip_ws r)))
          else scan_atom s)"
| "scan_elements 0 s = None"
| "scan_elements (Suc n) s =
     (case scan_value n s of
        None \<Rightarrow> None
      | Some (v, r) \<Rightarrow>
          (case skip_ws r of
             [] \<Rightarrow> None
           | c # r' \<Rightarrow>
               if c = 93 then Some ([v], r')
               else if c = 44 then map_option (\<lambda>(vs, z). (v # vs, z)) (scan_elements n (skip_ws r'))
               else None))"
| "scan_members 0 s = None"
| "scan_members (Suc n) s =
     (case s of
        [] \<Rightarrow> None
      | q # r \<Rightarrow>
          if q \<noteq> 34 then None
          else
            (case scan_string r of
               None \<Rightarrow> None
             | Some (k, r1) \<Rightarrow>
                 (case skip_ws r1 of
                    [] \<Rightarrow> None
                  | c # r2 \<Rightarrow>
                      if c \<noteq> 58 then None
                      else
                        (case scan_value n (skip_ws r2) of
                           None \<Rightarrow> None
                         | Some (v, r3) \<Rightarrow>
                             (case skip_ws r3 of
                                [] \<Rightarrow> None
                              | d # r4 \<Rightarrow>
                                  if d = 125 then Some ([(k, v)], r4)
                                  else if d = 44
                                  then map_option (\<lambda>(ms, z). ((k, v) # ms, z)) (scan_members n (skip_ws r4))
                                  else None)))))"

definition loads :: "pystr \<Rightarrow> pyval option" where
  "loads s =
     (case scan_value (2 * length s + 1) (skip_ws s) of
        Some (v, r) \<Rightarrow> if skip_ws r = [] then Some v else None
      | None \<Rightarrow> None)"

end
