(* ===== verification/Py_Json_Roundtrip.thy ===== *)
theory Py_Json_Roundtrip
  imports Py_Json
begin

text \<open>
  \<open>json.loads\<close> inverts \<open>json.dumps\<close>, compact or indented, on every value whose strings hold no
  surrogate code points and whose dicts have distinct keys: what a server decodes from a request
  body is the value the script encoded.
\<close>

section \<open>Well-formed values\<close>

definition scalar :: "nat \<Rightarrow> bool" where
  "scalar c \<longleftrightarrow> c < 55296 \<or> 57344 \<le> c \<and> c < 1114112"

fun wf_val :: "pyval \<Rightarrow> bool" where
  "wf_val (PStr t) \<longleftrightarrow> list_all scalar t"
| "wf_val (PFloat m k) \<longleftrightarrow> 1 \<le> k \<and> (k = 1 \<or> m mod 10 \<noteq> 0)"
| "wf_val (PSpecial c) \<longleftrightarrow> c = ''NaN'' \<or> c = ''Infinity'' \<or> c = ''-Infinity''"
| "wf_val (PList xs) \<longleftrightarrow> (\<forall>x \<in> set xs. wf_val x)"
| "wf_val (PDict ms) \<longleftrightarrow> distinct (map fst ms) \<and> (\<forall>p \<in> set ms. list_all scalar (fst p) \<and> wf_val (snd p))"
| "wf_val _ \<longleftrightarrow> True"

lemma scalar_ascii [simp]: "list_all scalar (ascii s)"
proof -
  have "(of_char c :: nat) < 55296" for c :: char
    by (rule less_trans [OF nat_of_char_less_256]) simp
  then show ?thesis by (auto simp: ascii_def list_all_iff scalar_def)
qed

section \<open>Strings\<close>

lemma unhex_hex_digit: "d < 16 \<Longrightarrow> unhex (hex_digit d) = Some d"
  by (auto simp: unhex_def hex_digit_def)

lemma hex4_value:
  fixes n :: nat
  assumes "n < 65536"
  shows "n div 4096 mod 16 * 4096 + n div 256 mod 16 * 256 + n div 16 mod 16 * 16 + n mod 16 = n"
proof -
  have "n div 4096 mod 16 = n div 4096" using assms by simp
  moreover have "n = n div 16 * 16 + n mod 16" "n div 16 = n div 256 * 16 + n div 16 mod 16"
    "n div 256 = n div 4096 * 16 + n div 256 mod 16"
    using div_mult_mod_eq [of "n div 16" 16] div_mult_mod_eq [of "n div 256" 16]
    by (simp_all add: div_mult2_eq [symmetric])
  ultimately show ?thesis by linarith
qed

lemma scan_hex4_hex4 [simp]: "n < 65536 \<Longrightarrow> scan_hex4 (hex4 n @ r) = Some (n, r)"
  using hex4_value [of n] by (simp add: scan_hex4_def hex4_def unhex_hex_digit)

lemma scan_string_escaped:
  assumes "scalar c"
  shows "scan_string (escape_char c @ z) = (case scan_string z of None \<Rightarrow> None | Some (t, z') \<Rightarrow> Some (c # t, z'))"
proof (cases "65536 \<le> c")
  case True
  then have "\<not> c \<le> 126" "c < 1114112" using assms by (simp_all add: scalar_def)
  define q r where "q = (c - 65536) div 1024" and "r = (c - 65536) mod 1024"
  have "c - 65536 < 1024 * 1024" using \<open>c < 1114112\<close> True by simp
  then have qr: "q < 1024" "r < 1024" "c = 65536 + q * 1024 + r"
    using True by (simp_all add: q_def r_def less_mult_imp_div_less)
  then show ?thesis
    by (simp add: escape_char_def uXXXX_def scan_escape_def scan_unicode_def
        q_def [symmetric] r_def [symmetric] split: option.splits)
next
  case False
  with assms show ?thesis
    by (auto simp: escape_char_def uXXXX_def scan_escape_def scan_unicode_def scalar_def split: option.splits)
qed

lemma scan_string_dump:
  "list_all scalar t \<Longrightarrow> scan_string (concat (map escape_char t) @ 34 # r) = Some (t, r)"
  by (induction t) (auto simp: scan_string_escaped)

section \<open>Numbers\<close>

definition stops_number :: "pystr \<Rightarrow> bool" where
  "stops_number r \<longleftrightarrow> (case r of [] \<Rightarrow> True | c # _ \<Rightarrow> \<not> is_dig c \<and> c \<noteq> 46 \<and> c \<noteq> 101 \<and> c \<noteq> 69)"

lemma is_dig_show_nat: "c \<in> set (ascii (show_nat n)) \<Longrightarrow> is_dig c"
  using show_nat_digits by (auto simp: ascii_def is_dig_def is_digit_def)

lemma digits_value_append:
  "digits_value (a @ b) = digits_value a * 10 ^ length b + digits_value b"
proof -
  have "foldl (\<lambda>n d. n * 10 + (d - 48)) m b = m * 10 ^ length b + digits_value b" for m
    unfolding digits_value_def
    by (induction b rule: rev_induct) (auto simp: algebra_simps)
  from this [of "digits_value a"] show ?thesis unfolding digits_value_def foldl_append .
qed

lemma of_digit_char: "d < 10 \<Longrightarrow> of_char (digit_char d) = (48 + d :: nat)"
  by (simp add: digit_char_def)

lemma digits_value_digit: "d < 10 \<Longrightarrow> digits_value (ascii [digit_char d]) = d"
  by (simp add: digits_value_def ascii_def of_digit_char)

lemma digits_value_show_nat [simp]: "digits_value (ascii (show_nat n)) = n"
proof (induction n rule: show_nat.induct)
  case (1 n)
  show ?case
  proof (cases "n < 10")
    case True
    then show ?thesis by (simp add: show_nat.simps [of n] digits_value_digit)
  next
    case False
    then have "show_nat n = show_nat (n div 10) @ [digit_char (n mod 10)]" by (simp add: show_nat.simps [of n])
    with 1 False digits_value_digit [of "n mod 10"] show ?thesis by (simp add: digits_value_append)
  qed
qed

lemma digits_value_zeros: "digits_value (ascii (replicate k (CHR ''0''))) = 0"
  by (induction k rule: nat.induct)
    (simp_all add: replicate_append_same [symmetric] digits_value_append,
     simp_all add: digits_value_def ascii_def)

lemma show_nat_length: "n < 10 ^ k \<Longrightarrow> 1 \<le> k \<Longrightarrow> length (show_nat n) \<le> k"
proof (induction n arbitrary: k rule: show_nat.induct)
  case (1 n)
  show ?case
  proof (cases "n < 10")
    case False
    then obtain j where k: "k = Suc j" "1 \<le> j" using 1(2,3) by (cases k; cases "k - 1") auto
    then have "n div 10 < 10 ^ j" using 1(2) by (simp add: div_less_iff_less_mult mult.commute)
    with 1(1) False k show ?thesis by (simp add: show_nat.simps [of n])
  qed (use 1(3) in \<open>simp add: show_nat.simps [of n]\<close>)
qed

lemma pad_nat_facts:
  assumes "n < 10 ^ k" "1 \<le> k"
  shows "length (pad_nat k n) = k" "digits_value (ascii (pad_nat k n)) = n"
    "c \<in> set (ascii (pad_nat k n)) \<Longrightarrow> is_dig c"
proof -
  note len = show_nat_length [OF assms]
  show "length (pad_nat k n) = k" "digits_value (ascii (pad_nat k n)) = n"
    using len by (simp_all add: pad_nat_def digits_value_append digits_value_zeros)
  show "is_dig c" if "c \<in> set (ascii (pad_nat k n))"
    using that is_dig_show_nat [of c n] by (auto simp: pad_nat_def ascii_def is_dig_def)
qed

lemma show_nat_zero: "show_nat 0 = ''0''"
  by code_simp

lemma show_nat_leading: "0 < n \<Longrightarrow> hd (ascii (show_nat n)) \<noteq> 48"
proof (induction n rule: show_nat.induct)
  case (1 n)
  show ?case
  proof (cases "n < 10")
    case True
    with 1(2) show ?thesis by (simp add: show_nat.simps [of n] ascii_def of_digit_char)
  next
    case False
    with 1(1) have "hd (ascii (show_nat (n div 10))) \<noteq> 48" by simp
    with False show ?thesis by (simp add: show_nat.simps [of n] hd_append)
  qed
qed

lemma takeWhile_digits:
  assumes "\<And>c. c \<in> set ds \<Longrightarrow> is_dig c" "case r of [] \<Rightarrow> True | c # _ \<Rightarrow> \<not> is_dig c"
  shows "takeWhile is_dig (ds @ r) = ds" "dropWhile is_dig (ds @ r) = r"
  using assms by (auto simp: takeWhile_append dropWhile_append split: list.splits)

lemma show_nat_integer_part:
  "(if ascii (show_nat n) \<noteq> [] \<and> hd (ascii (show_nat n)) = 48 then [48] else ascii (show_nat n)) = ascii (show_nat n)"
  using show_nat_leading [of n] by (cases "n = 0") (simp_all add: show_nat_zero ascii_def)

text \<open>A number up to where its digits end, the integer part read.\<close>

lemma scan_number_prefix:
  assumes "case r of [] \<Rightarrow> True | c # _ \<Rightarrow> \<not> is_dig c"
  shows "scan_number ((if neg then [45] else []) @ ascii (show_nat n) @ r) =
    (case (scan_fraction r, scan_exponent (case scan_fraction r of None \<Rightarrow> r | Some (_, r') \<Rightarrow> r')) of
       (None, None) \<Rightarrow> Some (PInt (if neg then - int n else int n), r)
     | (Some (fp, r'), None) \<Rightarrow> Some (make_float neg (ascii (show_nat n)) fp 0, r')
     | (None, Some (e, r')) \<Rightarrow> Some (make_float neg (ascii (show_nat n)) [] e, r')
     | (Some (fp, _), Some (e, r')) \<Rightarrow> Some (make_float neg (ascii (show_nat n)) fp e, r'))"
proof -
  let ?s = "(if neg then [45] else []) @ ascii (show_nat n) @ r"
  obtain d ds where dd: "show_nat n = d # ds" "is_digit d" using show_nat_Cons by blast
  then have "(of_char d :: nat) \<noteq> 45" by (auto simp: is_digit_def)
  then have sign: "(case ?s of [] \<Rightarrow> (False, ?s) | c # r \<Rightarrow> if c = 45 then (True, r) else (False, ?s))
      = (neg, ascii (show_nat n) @ r)"
    by (simp add: dd ascii_Cons)
  have tw: "takeWhile is_dig (ascii (show_nat n) @ r) = ascii (show_nat n)"
    using is_dig_show_nat assms by (rule takeWhile_digits)
  have dr: "drop (length (ascii (show_nat n))) (ascii (show_nat n) @ r) = r" by simp
  show ?thesis
    unfolding scan_number_def sign Let_def prod.case tw show_nat_integer_part dr digits_value_show_nat
    by simp
qed

lemma stops_number_simps:
  "stops_number r \<Longrightarrow> scan_fraction r = None" "stops_number r \<Longrightarrow> scan_exponent r = None"
  "stops_number r \<Longrightarrow> (case r of [] \<Rightarrow> True | c # _ \<Rightarrow> \<not> is_dig c)"
  by (auto simp: stops_number_def scan_fraction_def scan_exponent_def split: list.splits)

lemma scan_number_int:
  assumes "stops_number r"
  shows "scan_number (ascii (show_int i) @ r) = Some (PInt i, r)"
proof -
  have s: "ascii (show_int i) = (if i < 0 then [45] else []) @ ascii (show_nat (nat \<bar>i\<bar>))"
    by (auto simp: show_int_def ascii_Cons)
  show ?thesis
    using scan_number_prefix [OF stops_number_simps(3) [OF assms], of "i < 0" "nat \<bar>i\<bar>"]
    by (simp add: s stops_number_simps [OF assms])
qed

lemma scan_number_float:
  assumes "stops_number r" "1 \<le> k" "k = 1 \<or> m mod 10 \<noteq> 0"
  shows "scan_number (dump_float m k @ r) = Some (PFloat m k, r)"
proof -
  let ?a = "nat \<bar>m\<bar>"
  let ?ip = "?a div 10 ^ k" and ?fp = "?a mod 10 ^ k"
  let ?r = "46 # ascii (pad_nat k ?fp) @ r"
  have lt: "?fp < 10 ^ k" by simp
  note pad = pad_nat_facts [OF lt assms(2)]
  have d: "dump_float m k @ r = (if m < 0 then [45] else []) @ ascii (show_nat ?ip) @ ?r"
    by (auto simp: dump_float_def ascii_Cons)
  have ne: "ascii (pad_nat k ?fp) \<noteq> []" using pad(1) assms(2) by auto
  have tw: "takeWhile is_dig (ascii (pad_nat k ?fp) @ r) = ascii (pad_nat k ?fp)"
    "dropWhile is_dig (ascii (pad_nat k ?fp) @ r) = r"
    by (rule takeWhile_digits [OF pad(3) stops_number_simps(3) [OF assms(1)]], assumption)+
  have fr: "scan_fraction ?r = Some (ascii (pad_nat k ?fp), r)"
    unfolding scan_fraction_def using tw ne by simp
  have val: "digits_value (ascii (show_nat ?ip) @ ascii (pad_nat k ?fp)) = ?a"
    unfolding digits_value_append ascii_simps(3) pad(1,2) digits_value_show_nat by (rule div_mult_mod_eq)
  have "make_float (m < 0) (ascii (show_nat ?ip)) (ascii (pad_nat k ?fp)) 0 = PFloat m k"
  proof -
    have "strip_zeros m k = (m, k)" using assms(3) by (subst strip_zeros.simps) auto
    moreover have "(if m < 0 then - \<bar>m\<bar> else \<bar>m\<bar>) = m" by simp
    ultimately show ?thesis using assms(2) pad(1) by (simp add: make_float_def val Let_def)
  qed
  then show ?thesis
    unfolding d using scan_number_prefix [of ?r "m < 0" ?ip] fr
    by (simp add: stops_number_simps [OF assms(1)] is_dig_def)
qed

section \<open>Values\<close>

lemma skip_ws_simps [simp]:
  "skip_ws (newline ind level @ z) = skip_ws z" "skip_ws (32 # z) = skip_ws z"
  by (auto simp: skip_ws_def newline_def is_ws_def dropWhile_append split: option.splits)

lemma skip_ws_solid: "\<not> is_ws c \<Longrightarrow> skip_ws (c # z) = c # z"
  by (simp add: skip_ws_def)

lemma skip_separator [simp]:
  "item_separator ind level @ z = 44 # drop (Suc 0) (item_separator ind level) @ z"
  "skip_ws (drop (Suc 0) (item_separator ind level) @ z) = skip_ws z"
  by (auto simp: item_separator_def split: option.splits)

lemma separator_length: "1 \<le> length (item_separator ind level)"
  by (auto simp: item_separator_def split: option.splits)

text \<open>What a dumped value begins with.\<close>

lemma dump_val_head:
  assumes "wf_val v"
  obtains c z where "dump_val ind level v = c # z" "\<not> is_ws c" "c \<noteq> 93" "c \<noteq> 125"
proof -
  have dig: "\<exists>d z. ascii (show_nat n) = d # z \<and> is_dig d" for n
    using show_nat_Cons [of n] by (auto simp: ascii_def is_dig_def is_digit_def)
  have "\<exists>c z. dump_val ind level v = c # z \<and> \<not> is_ws c \<and> c \<noteq> 93 \<and> c \<noteq> 125"
  proof (cases v)
    case (PInt i)
    then show ?thesis
      using dig [of "nat i"] by (auto simp: show_int_def ascii_Cons is_dig_def is_ws_def)
  next
    case (PFloat m k)
    obtain d z where "ascii (show_nat (nat \<bar>m\<bar> div 10 ^ k)) = d # z" "is_dig d"
      using dig by blast
    with PFloat show ?thesis by (cases "m < 0") (auto simp: dump_float_def ascii_Cons is_dig_def is_ws_def)
  qed (use assms in \<open>auto simp: ascii_def is_ws_def dump_str_def\<close>)
  then show thesis using that by blast
qed

lemma skip_ws_dump: "wf_val v \<Longrightarrow> skip_ws (dump_val ind level v @ z) = dump_val ind level v @ z"
  by (elim dump_val_head [of v ind level]) (simp add: skip_ws_solid)

lemma scan_value_other:
  "s = c # r \<Longrightarrow> c \<noteq> 34 \<Longrightarrow> c \<noteq> 91 \<Longrightarrow> c \<noteq> 123 \<Longrightarrow> 1 \<le> n \<Longrightarrow> scan_value n s = scan_atom s"
  by (cases n) auto

lemma scan_atom_number:
  assumes "s = c # r" "is_dig c \<or> c = 45 \<and> r \<noteq> [] \<and> is_dig (hd r)"
  shows "scan_atom s = scan_number s"
proof -
  from assms have "c \<noteq> 110" "c \<noteq> 116" "c \<noteq> 102" "c \<noteq> 78" "c \<noteq> 73" by (auto simp: is_dig_def)
  moreover have "c = 45 \<Longrightarrow> take 9 s \<noteq> ascii ''-Infinity''"
    using assms by (cases r) (simp_all add: take_Cons' ascii_Cons is_dig_def, presburger?)
  moreover have "c \<noteq> 45 \<Longrightarrow> take 9 s \<noteq> ascii ''-Infinity''" using assms(1) by (simp add: take_Cons' ascii_Cons)
  ultimately show ?thesis unfolding scan_atom_def assms(1) by (auto simp: take_Cons' ascii_Cons)
qed

text \<open>A number text: an optional sign and digits.\<close>

lemma scan_value_number:
  assumes "1 \<le> n" "s = (if neg then [45] else []) @ ascii (show_nat m) @ r"
  shows "scan_value n s = scan_number s"
proof -
  obtain d z where d: "ascii (show_nat m) = d # z" "is_dig d"
    using show_nat_Cons [of m] by (auto simp: ascii_def is_dig_def is_digit_def)
  show ?thesis
  proof (cases neg)
    case True
    with assms d have s: "s = 45 # d # z @ r" by simp
    with d assms(1) show ?thesis
      using scan_value_other [OF s, of n] scan_atom_number [OF s] by simp
  next
    case False
    with assms d have s: "s = d # z @ r" by simp
    with d assms(1) show ?thesis
      using scan_value_other [OF s, of n] scan_atom_number [OF s] by (auto simp: is_dig_def)
  qed
qed

lemma scan_value_int:
  assumes "1 \<le> n" "stops_number r"
  shows "scan_value n (ascii (show_int i) @ r) = Some (PInt i, r)"
proof -
  have "ascii (show_int i) @ r = (if i < 0 then [45] else []) @ ascii (show_nat (nat \<bar>i\<bar>)) @ r"
    by (auto simp: show_int_def ascii_Cons)
  from scan_value_number [OF assms(1) this] show ?thesis using scan_number_int [OF assms(2)] by simp
qed

lemma scan_value_float:
  assumes "1 \<le> n" "stops_number r" "1 \<le> k" "k = 1 \<or> m mod 10 \<noteq> 0"
  shows "scan_value n (dump_float m k @ r) = Some (PFloat m k, r)"
proof -
  have "dump_float m k @ r = (if m < 0 then [45] else []) @ ascii (show_nat (nat \<bar>m\<bar> div 10 ^ k))
      @ 46 # ascii (pad_nat k (nat \<bar>m\<bar> mod 10 ^ k)) @ r"
    by (auto simp: dump_float_def ascii_Cons)
  from scan_value_number [OF assms(1) this] show ?thesis using scan_number_float [OF assms(2-4)] by simp
qed


lemma scan_value_constants:
  assumes "1 \<le> n"
  shows "scan_value n (ascii ''null'' @ r) = Some (PNone, r)"
    "scan_value n (ascii ''true'' @ r) = Some (PBool True, r)"
    "scan_value n (ascii ''false'' @ r) = Some (PBool False, r)"
    "c = ''NaN'' \<or> c = ''Infinity'' \<or> c = ''-Infinity'' \<Longrightarrow> scan_value n (ascii c @ r) = Some (PSpecial c, r)"
  using assms by (cases n; auto simp: scan_atom_def ascii_def)+

lemma scan_value_str:
  "1 \<le> n \<Longrightarrow> list_all scalar t \<Longrightarrow> scan_value n (dump_str t @ r) = Some (PStr t, r)"
  by (cases n) (simp_all add: dump_str_def scan_string_dump)

text \<open>What follows a value inside a container lets its digits end.\<close>

lemma stops_number_follow [simp]:
  "stops_number (item_separator ind level @ z)" "stops_number (44 # z)"
  "stops_number (newline ind level @ 93 # z)" "stops_number (newline ind level @ 125 # z)"
  by (auto simp: stops_number_def item_separator_def newline_def is_dig_def split: option.splits)

lemma scan_value_list:
  assumes "scan_elements n (dump_items ind (Suc level) xs @ newline ind level @ 93 # r) = Some (xs, r)"
    and "xs \<noteq> []" "wf_val (hd xs)"
  shows "scan_value (Suc n) (dump_val ind level (PList xs) @ r) = Some (PList xs, r)"
proof -
  obtain x ys where xs: "xs = x # ys" using assms(2) by (cases xs) auto
  then have "wf_val x" using assms(3) by simp
  then obtain c z where h: "dump_val ind (Suc level) x = c # z" "\<not> is_ws c" "c \<noteq> 93" "c \<noteq> 125"
    by (rule dump_val_head)
  let ?b = "dump_items ind (Suc level) xs @ newline ind level @ 93 # r"
  have "skip_ws (newline ind (Suc level) @ ?b) = ?b" using h by (simp add: xs skip_ws_solid)
  moreover have "take 1 ?b \<noteq> [93]" using h by (simp add: xs)
  ultimately show ?thesis using assms(1,2) by simp
qed

lemma scan_value_dict:
  assumes "scan_members n (dump_members ind (Suc level) ms @ newline ind level @ 125 # r) = Some (ms, r)"
    and "ms \<noteq> []" "distinct (map fst ms)"
  shows "scan_value (Suc n) (dump_val ind level (PDict ms) @ r) = Some (PDict ms, r)"
proof -
  obtain k v ys where ms: "ms = (k, v) # ys" using assms(2) by (cases ms) auto
  let ?b = "dump_members ind (Suc level) ms @ newline ind level @ 125 # r"
  have "skip_ws (newline ind (Suc level) @ ?b) = ?b" by (simp add: ms dump_str_def skip_ws_solid is_ws_def)
  moreover have "take 1 ?b \<noteq> [125]" by (simp add: ms dump_str_def)
  ultimately show ?thesis using assms by (simp add: dict_of_distinct)
qed

lemma scan_elements_step:
  assumes "scan_value n (dump_val ind level x @ y) = Some (x, y)"
    and "y = (if xs = [] then r else item_separator ind level @ dump_items ind level xs @ r)"
    and "if xs = [] then skip_ws r = 93 # z
         else scan_elements n (dump_items ind level xs @ r) = Some (xs, z) \<and> wf_val (hd xs)"
  shows "scan_elements (Suc n) (dump_items ind level (x # xs) @ r) = Some (x # xs, z)"
proof (cases "xs = []")
  case True
  with assms show ?thesis by simp
next
  case False
  then obtain w ws where xs: "xs = w # ws" by (cases xs) auto
  have "skip_ws (dump_items ind level xs @ r) = dump_items ind level xs @ r"
    using assms(3) False skip_ws_dump [of w ind level] by (simp add: xs)
  with assms False show ?thesis by (simp add: skip_ws_solid is_ws_def)
qed

lemma scan_members_step:
  assumes "list_all scalar k" "wf_val v" "scan_value n (dump_val ind level v @ y) = Some (v, y)"
    and "y = (if ms = [] then r else item_separator ind level @ dump_members ind level ms @ r)"
    and "if ms = [] then skip_ws r = 125 # z
         else scan_members n (dump_members ind level ms @ r) = Some (ms, z)"
  shows "scan_members (Suc n) (dump_members ind level ((k, v) # ms) @ r) = Some ((k, v) # ms, z)"
proof -
  have str: "scan_string (concat (map escape_char k) @ 34 # x) = Some (k, x)" for x
    using assms(1) by (rule scan_string_dump)
  have val: "scan_value n (skip_ws (32 # dump_val ind level v @ y)) = Some (v, y)"
    using assms(2,3) by (simp add: skip_ws_dump)
  show ?thesis
  proof (cases "ms = []")
    case True
    with assms str val show ?thesis by (simp add: dump_str_def skip_ws_solid is_ws_def)
  next
    case False
    then obtain k' v' ms' where ms: "ms = (k', v') # ms'" by (cases ms) auto
    have "skip_ws (dump_members ind level ms @ r) = dump_members ind level ms @ r"
      by (simp add: ms dump_str_def skip_ws_solid is_ws_def)
    with assms str val False show ?thesis by (simp add: dump_str_def skip_ws_solid is_ws_def)
  qed
qed

lemma scan_dump:
  "wf_val v \<Longrightarrow> stops_number r \<Longrightarrow> 2 * length (dump_val ind level v) + 1 \<le> n \<Longrightarrow>
     scan_value n (dump_val ind level v @ r) = Some (v, r)"
  "xs \<noteq> [] \<Longrightarrow> (\<forall>x \<in> set xs. wf_val x) \<Longrightarrow> skip_ws r = 93 # z \<Longrightarrow> stops_number r \<Longrightarrow>
     2 * length (dump_items ind level xs) + 2 \<le> n \<Longrightarrow>
     scan_elements n (dump_items ind level xs @ r) = Some (xs, z)"
  "ms \<noteq> [] \<Longrightarrow> (\<forall>p \<in> set ms. list_all scalar (fst p) \<and> wf_val (snd p)) \<Longrightarrow> skip_ws r = 125 # z \<Longrightarrow>
     stops_number r \<Longrightarrow> 2 * length (dump_members ind level ms) + 2 \<le> n \<Longrightarrow>
     scan_members n (dump_members ind level ms @ r) = Some (ms, z)"
proof (induction ind level v and ind level xs and ind level ms arbitrary: r n and r z n and r z n
    rule: dump_val_dump_items_dump_members.induct)
  case (7 ind level xs)
  show ?case
  proof (cases "xs = []")
    case True
    with 7(4) show ?thesis by (cases n) (simp_all add: skip_ws_def is_ws_def)
  next
    case False
    with 7(4) obtain m where m: "n = Suc m" "2 * length (dump_items ind (Suc level) xs) + 2 \<le> m"
      by (cases n) auto
    have "scan_elements m (dump_items ind (Suc level) xs @ newline ind level @ 93 # r) = Some (xs, r)"
      using False 7(2) m(2) by (intro 7(1)) (auto simp: skip_ws_solid is_ws_def)
    from scan_value_list [OF this False] 7(2) False m(1) show ?thesis by (cases xs) auto
  qed
next
  case (8 ind level ms)
  show ?case
  proof (cases "ms = []")
    case True
    with 8(4) show ?thesis by (cases n) (simp_all add: skip_ws_def is_ws_def dict_of_def)
  next
    case False
    with 8(4) obtain m where m: "n = Suc m" "2 * length (dump_members ind (Suc level) ms) + 2 \<le> m"
      by (cases n) auto
    have "scan_members m (dump_members ind (Suc level) ms @ newline ind level @ 125 # r) = Some (ms, r)"
      using False 8(2) m(2) by (intro 8(1)) (auto simp: skip_ws_solid is_ws_def)
    from scan_value_dict [OF this False] 8(2) m(1) show ?thesis by simp
  qed
next
  case (10 ind level x xs)
  obtain m where m: "n = Suc m" using 10(7) by (cases n) auto
  let ?y = "if xs = [] then r else item_separator ind level @ dump_items ind level xs @ r"
  have "scan_value m (dump_val ind level x @ ?y) = Some (x, ?y)"
    using 10(4,6,7) m by (intro 10(1)) (auto split: if_splits)
  moreover have "if xs = [] then skip_ws r = 93 # z
      else scan_elements m (dump_items ind level xs @ r) = Some (xs, z) \<and> wf_val (hd xs)"
  proof (cases "xs = []")
    case False
    then have "scan_elements m (dump_items ind level xs @ r) = Some (xs, z)"
      using 10(4,7) m separator_length [of ind level] by (intro 10(2) 10(5,6)) auto
    with False 10(4) show ?thesis by (cases xs) auto
  qed (use 10(5) in simp)
  ultimately show ?case unfolding m by (intro scan_elements_step) auto
next
  case (12 ind level k v ms)
  obtain m where m: "n = Suc m" using 12(7) by (cases n) auto
  let ?y = "if ms = [] then r else item_separator ind level @ dump_members ind level ms @ r"
  have "scan_value m (dump_val ind level v @ ?y) = Some (v, ?y)"
    using 12(4,6,7) m by (intro 12(1)) (auto split: if_splits)
  moreover have "if ms = [] then skip_ws r = 125 # z
      else scan_members m (dump_members ind level ms @ r) = Some (ms, z)"
  proof (cases "ms = []")
    case False
    then have "scan_members m (dump_members ind level ms @ r) = Some (ms, z)"
      using 12(4,7) m separator_length [of ind level] by (intro 12(2) 12(5,6)) auto
    with False show ?thesis by simp
  qed (use 12(5) in simp)
  ultimately show ?case using 12(4) unfolding m by (intro scan_members_step) auto
next
  case (2 ind level b)
  then show ?case by (cases b) (simp_all add: scan_value_constants)
qed (simp_all add: scan_value_constants scan_value_int scan_value_float scan_value_str)


lemma loads_dump_val:
  assumes "wf_val v"
  shows "loads (dump_val ind level v) = Some v"
proof -
  let ?s = "dump_val ind level v"
  have "scan_value (2 * length ?s + 1) (?s @ []) = Some (v, [])"
    using assms by (intro scan_dump(1)) (simp_all add: stops_number_def)
  moreover have "skip_ws ?s = ?s" using skip_ws_dump [OF assms, of ind level "[]"] by simp
  ultimately show ?thesis
    unfolding loads_def by (simp add: skip_ws_def del: scan_value.simps)
qed

lemmas loads_dumps = loads_dump_val [where level = 0 and ind = None, folded dumps_def]
lemmas loads_dumps_indent = loads_dump_val [where level = 0 and ind = "Some w" for w, folded dumps_indent_def]

section \<open>The fuel of loads is enough\<close>

lemma skip_ws_length: "length (skip_ws s) \<le> length s"
  by (simp add: skip_ws_def length_dropWhile_le)

lemma scan_string_shorter: "scan_string s = Some (t, r) \<Longrightarrow> length r < length s"
proof (induction s arbitrary: t r rule: scan_string.induct)
  case (2 c s)
  then show ?case
    by (force dest!: scan_escape_shorter split: if_splits option.splits prod.splits)
qed simp

lemma drop_digits_length: "length (dropWhile is_dig s) \<le> length s"
  by (rule length_dropWhile_le)

lemma scan_exponent_length: "scan_exponent s = Some (e, r) \<Longrightarrow> length r \<le> length s"
  by (auto simp: scan_exponent_def Let_def split: list.splits if_splits
      intro: le_SucI drop_digits_length [THEN order_trans])

lemma scan_fraction_length: "scan_fraction s = Some (e, r) \<Longrightarrow> length r \<le> length s"
  by (auto simp: scan_fraction_def split: list.splits if_splits
      intro: le_SucI drop_digits_length [THEN order_trans])

lemma scan_number_shorter:
  assumes "scan_number s = Some (v, r)"
  shows "length r < length s"
proof -
  define s1 where "s1 = (case s of [] \<Rightarrow> s | c # r \<Rightarrow> if c = 45 then r else s)"
  define ds where "ds = takeWhile is_dig s1"
  define ip where "ip = (if ds \<noteq> [] \<and> hd ds = 48 then [48] else ds)"
  define z where "z = drop (length ip) s1"
  have ne: "ip \<noteq> []" using assms
    by (auto simp: scan_number_def Let_def s1_def ds_def ip_def split: list.splits if_splits)
  have le: "length ip \<le> length s1"
    by (auto simp: ip_def ds_def length_takeWhile_le Suc_le_eq length_greater_0_conv)
  have "length z < length s1"
    unfolding z_def length_drop using le ne by (intro diff_less) (cases ip; auto)+
  moreover have "length s1 \<le> length s" by (auto simp: s1_def split: list.splits)
  moreover have "length r \<le> length z"
  proof -
    from assms have "scan_number s = Some (v, r)" .
    then have "r = z \<or> (\<exists>f. scan_fraction z = Some (f, r)) \<or> (\<exists>e. scan_exponent z = Some (e, r))
        \<or> (\<exists>f y e. scan_fraction z = Some (f, y) \<and> scan_exponent y = Some (e, r))"
      by (auto simp: scan_number_def Let_def s1_def ds_def ip_def z_def
          split: list.splits if_splits option.splits prod.splits)
    then show ?thesis using scan_fraction_length scan_exponent_length by (meson order_refl order_trans)
  qed
  ultimately show ?thesis by linarith
qed

lemma scan_atom_shorter: "scan_atom s = Some (v, r) \<Longrightarrow> length r < length s"
  by (cases s) (auto simp: scan_atom_def take_Cons' ascii_Cons dest: scan_number_shorter split: if_splits)


lemma skip_ws_Cons: "skip_ws s = c # r \<Longrightarrow> length r < length s"
  using skip_ws_length [of s] by simp

text \<open>The successful ways through one array element and one dict member.\<close>

lemma scan_elements_cases:
  assumes "scan_elements (Suc n) s = Some (xs, r)"
  obtains v r0 c r1 where "scan_value n s = Some (v, r0)" "skip_ws r0 = c # r1" "c = 93" "r = r1"
  | v r0 c r1 ys where "scan_value n s = Some (v, r0)" "skip_ws r0 = c # r1" "c = 44"
      "scan_elements n (skip_ws r1) = Some (ys, r)"
  using assms by (auto split: option.splits list.splits if_splits)

lemma scan_members_cases:
  assumes "scan_members (Suc n) s = Some (ms, r)"
  obtains q z k r1 c r2 v r3 d r4 where "s = q # z" "scan_string z = Some (k, r1)" "skip_ws r1 = c # r2"
      "scan_value n (skip_ws r2) = Some (v, r3)" "skip_ws r3 = d # r4" "d = 125" "r = r4"
  | q z k r1 c r2 v r3 d r4 ys where "s = q # z" "scan_string z = Some (k, r1)" "skip_ws r1 = c # r2"
      "scan_value n (skip_ws r2) = Some (v, r3)" "skip_ws r3 = d # r4" "d = 44"
      "scan_members n (skip_ws r4) = Some (ys, r)"
  using assms by (auto split: option.splits list.splits if_splits)

lemma scan_value_cases:
  assumes "scan_value (Suc n) s = Some (v, r)"
  obtains c z t where "s = c # z" "scan_string z = Some (t, r)"
  | c z where "s = c # z" "r = drop 1 (skip_ws z)"
  | c z xs where "s = c # z" "scan_elements n (skip_ws z) = Some (xs, r)"
  | c z ms where "s = c # z" "scan_members n (skip_ws z) = Some (ms, r)"
  | "scan_atom s = Some (v, r)"
  using assms by (auto split: list.splits if_splits)

lemma scan_shorter_all:
  "(\<forall>s v r. scan_value n s = Some (v, r) \<longrightarrow> length r < length s) \<and>
   (\<forall>s xs r. scan_elements n s = Some (xs, r) \<longrightarrow> length r < length s) \<and>
   (\<forall>s ms r. scan_members n s = Some (ms, r) \<longrightarrow> length r < length s)"
proof (induction n)
  case (Suc n)
  have val: "length r < length s" if "scan_value n s = Some (v, r)" for s v r using Suc that by blast
  have els: "length r < length s" if "scan_elements n s = Some (xs, r)" for s xs r using Suc that by blast
  have mem: "length r < length s" if "scan_members n s = Some (ms, r)" for s ms r using Suc that by blast
  have ws: "length r < length s" if "length r < length (skip_ws s)" for r s :: pystr
    using that skip_ws_length by (rule order.strict_trans2)
  have "length r < length s" if "scan_value (Suc n) s = Some (v, r)" for s v r
    using that
  proof (cases rule: scan_value_cases)
    case (2 c z)
    then show ?thesis using skip_ws_length [of z] by simp
  next
    case (3 c z xs)
    show ?thesis using ws [OF els [OF 3(2)]] 3(1) by simp
  next
    case (4 c z ms)
    show ?thesis using ws [OF mem [OF 4(2)]] 4(1) by simp
  qed (auto dest: scan_string_shorter scan_atom_shorter)
  moreover have "length r < length s" if "scan_elements (Suc n) s = Some (xs, r)" for s xs r
    using that
  proof (cases rule: scan_elements_cases)
    case (1 v r0 c r1)
    show ?thesis using val [OF 1(1)] skip_ws_Cons [OF 1(2)] 1(4) by simp
  next
    case (2 v r0 c r1 ys)
    show ?thesis using val [OF 2(1)] skip_ws_Cons [OF 2(2)] ws [OF els [OF 2(4)]] by linarith
  qed
  moreover have "length r < length s" if "scan_members (Suc n) s = Some (ms, r)" for s ms r
    using that
  proof (cases rule: scan_members_cases)
    case (1 q z k r1 c r2 v r3 d r4)
    show ?thesis
      using scan_string_shorter [OF 1(2)] skip_ws_Cons [OF 1(3)] ws [OF val [OF 1(4)]]
        skip_ws_Cons [OF 1(5)] 1(1,7) by simp
  next
    case (2 q z k r1 c r2 v r3 d r4 ys)
    show ?thesis
      using scan_string_shorter [OF 2(2)] skip_ws_Cons [OF 2(3)] ws [OF val [OF 2(4)]]
        skip_ws_Cons [OF 2(5)] ws [OF mem [OF 2(7)]] 2(1) by simp
  qed
  ultimately show ?case by blast
qed simp

lemma scan_value_shorter: "scan_value n s = Some (v, r) \<Longrightarrow> length r < length s"
  using scan_shorter_all by blast

text \<open>Any two amounts of fuel above the bound give the same result.\<close>

lemma scan_enough:
  "(2 * length s + 1 \<le> n \<longrightarrow> 2 * length s + 1 \<le> m \<longrightarrow> scan_value n s = scan_value m s) \<and>
   (2 * length s + 2 \<le> n \<longrightarrow> 2 * length s + 2 \<le> m \<longrightarrow> scan_elements n s = scan_elements m s) \<and>
   (2 * length s + 2 \<le> n \<longrightarrow> 2 * length s + 2 \<le> m \<longrightarrow> scan_members n s = scan_members m s)"
proof (induction n arbitrary: m s)
  case (Suc n)
  show ?case
  proof (cases m)
    case (Suc k)
    have val: "scan_value n t = scan_value k t" if "2 * length t + 1 \<le> n" "2 * length t + 1 \<le> k" for t
      using Suc.IH that by blast
    have els: "scan_elements n t = scan_elements k t" if "2 * length t + 2 \<le> n" "2 * length t + 2 \<le> k" for t
      using Suc.IH that by blast
    have mem: "scan_members n t = scan_members k t" if "2 * length t + 2 \<le> n" "2 * length t + 2 \<le> k" for t
      using Suc.IH that by blast
    have "scan_value (Suc n) s = scan_value (Suc k) s"
      if "2 * length s + 1 \<le> Suc n" "2 * length s + 1 \<le> Suc k"
    proof (cases s)
      case (Cons c r)
      then have "2 * length (skip_ws r) + 2 \<le> n" "2 * length (skip_ws r) + 2 \<le> k"
        using that skip_ws_length [of r] by simp_all
      with Cons show ?thesis using els [of "skip_ws r"] mem [of "skip_ws r"] by simp
    qed simp
    moreover have "scan_elements (Suc n) s = scan_elements (Suc k) s"
      if b: "2 * length s + 2 \<le> Suc n" "2 * length s + 2 \<le> Suc k"
    proof -
      have v: "scan_value n s = scan_value k s" using b by (intro val) simp_all
      have "scan_elements n (skip_ws r1) = scan_elements k (skip_ws r1)"
        if "scan_value k s = Some (v, r)" "skip_ws r = c # r1" for v r c r1
        using b scan_value_shorter [OF that(1)] skip_ws_Cons [OF that(2)] skip_ws_length [of r1]
        by (intro els) simp_all
      then show ?thesis using v by (auto split: option.splits list.splits)
    qed
    moreover have "scan_members (Suc n) s = scan_members (Suc k) s"
      if b: "2 * length s + 2 \<le> Suc n" "2 * length s + 2 \<le> Suc k"
    proof (cases s)
      case (Cons q z)
      have v: "scan_value n (skip_ws r2) = scan_value k (skip_ws r2)"
        if "scan_string z = Some (t, r1)" "skip_ws r1 = c # r2" for t r1 c r2
        using b Cons scan_string_shorter [OF that(1)] skip_ws_Cons [OF that(2)] skip_ws_length [of r2]
        by (intro val) simp_all
      have m: "scan_members n (skip_ws r4) = scan_members k (skip_ws r4)"
        if "scan_string z = Some (t, r1)" "skip_ws r1 = c # r2" "scan_value k (skip_ws r2) = Some (v, r3)"
          "skip_ws r3 = d # r4" for t r1 c r2 v r3 d r4
        using b Cons scan_string_shorter [OF that(1)] skip_ws_Cons [OF that(2)] skip_ws_length [of r2]
          scan_value_shorter [OF that(3)] skip_ws_Cons [OF that(4)] skip_ws_length [of r4]
        by (intro mem) simp_all
      show ?thesis using v m Cons by (auto split: option.splits list.splits)
    qed simp
    ultimately show ?thesis using Suc by blast
  qed simp
qed simp

lemma loads_fuel:
  assumes "2 * length s + 1 \<le> n"
  shows "loads s =
     (case scan_value n (skip_ws s) of Some (v, r) \<Rightarrow> if skip_ws r = [] then Some v else None | None \<Rightarrow> None)"
proof -
  have "scan_value (2 * length s + 1) (skip_ws s) = scan_value n (skip_ws s)"
    using assms skip_ws_length [of s]
    by (intro scan_enough [THEN conjunct1, rule_format]) linarith+
  then show ?thesis unfolding loads_def by (simp only:)
qed

declare skip_separator [simp del]

end
