(* ===== verification/Log_Line.thy ===== *)
theory Log_Line
  imports Log_Formats Log_Routing Py_Json_Roundtrip
begin

text \<open>
  What becomes of a log line: read as JSON and taken through Logstash. A statement whose text arguments
  need no escaping arrives with all its members in the index of its event; one quotation mark in an
  argument is enough for the line to be no JSON, or to carry other members than the statement has.
\<close>

section \<open>The members of a statement\<close>

text \<open>
  A format is a list of members; the value of a member is a quoted text made of pieces and places for
  arguments, or the place of a number.
\<close>

datatype piece = Hole | Words string
datatype log_field = Quoted "piece list" | Plain

type_synonym log_shape = "(string \<times> log_field) list"

fun pieces_format :: "piece list \<Rightarrow> string" where
  "pieces_format [] = []"
| \<open>pieces_format (Hole # ps) = ''{}'' @ pieces_format ps\<close>
| "pieces_format (Words s # ps) = s @ pieces_format ps"

fun member_format :: "string \<times> log_field \<Rightarrow> string" where
  \<open>member_format (k, Quoted ps) = ''"'' @ k @ ''": "'' @ pieces_format ps @ ''"''\<close>
| \<open>member_format (k, Plain) = ''"'' @ k @ ''": {}''\<close>

fun members_format :: "log_shape \<Rightarrow> string" where
  "members_format [] = []"
| "members_format (f # fs) = member_format f @ (if fs = [] then [] else '', '' @ members_format fs)"

definition format_of :: "log_shape \<Rightarrow> string" where
  \<open>format_of sh = ''{{'' @ members_format sh @ ''}}''\<close>

text \<open>The arguments of one member.\<close>

datatype log_arg = Texts "string list" | Num int

fun arg_texts :: "log_arg \<Rightarrow> string list" where
  "arg_texts (Texts as) = as"
| "arg_texts (Num i) = [show_int i]"

fun fill_pieces :: "piece list \<Rightarrow> string list \<Rightarrow> string" where
  "fill_pieces (Hole # ps) (a # as) = a @ fill_pieces ps as"
| "fill_pieces (Words s # ps) as = s @ fill_pieces ps as"
| "fill_pieces _ _ = []"

fun fill_field :: "log_field \<Rightarrow> log_arg \<Rightarrow> pyval" where
  "fill_field (Quoted ps) (Texts as) = PStr (ascii (fill_pieces ps as))"
| "fill_field Plain (Num i) = PInt i"
| "fill_field _ _ = PNone"

definition members_of :: "log_shape \<Rightarrow> log_arg list \<Rightarrow> (pystr \<times> pyval) list" where
  "members_of sh args = map2 (\<lambda>(k, f) a. (ascii k, fill_field f a)) sh args"

text \<open>A text JSON writes as it is: printable ASCII without quotation mark and backslash.\<close>

definition clean :: "string \<Rightarrow> bool" where
  \<open>clean s \<longleftrightarrow> list_all (\<lambda>c. 32 \<le> (of_char c :: nat) \<and> of_char c \<le> (126 :: nat) \<and> c \<noteq> CHR 0x22 \<and> c \<noteq> CHR 0x5C) s\<close>

definition braceless :: "string \<Rightarrow> bool" where
  \<open>braceless s \<longleftrightarrow> set s \<inter> set ''{}'' = {}\<close>

fun holes :: "piece list \<Rightarrow> nat" where
  "holes [] = 0"
| "holes (Hole # ps) = Suc (holes ps)"
| "holes (Words s # ps) = holes ps"

fun pieces_ok :: "piece list \<Rightarrow> bool" where
  "pieces_ok [] = True"
| "pieces_ok (Hole # ps) = pieces_ok ps"
| "pieces_ok (Words s # ps) = (clean s \<and> braceless s \<and> pieces_ok ps)"

fun shape_field_ok :: "log_field \<Rightarrow> bool" where
  "shape_field_ok (Quoted ps) = pieces_ok ps"
| "shape_field_ok Plain = True"

definition shape_ok :: "log_shape \<Rightarrow> bool" where
  "shape_ok sh \<longleftrightarrow> distinct (map fst sh) \<and> list_all (\<lambda>(k, f). clean k \<and> braceless k \<and> shape_field_ok f) sh"

fun field_fits :: "log_field \<Rightarrow> log_arg \<Rightarrow> bool" where
  "field_fits (Quoted ps) (Texts as) = (length as = holes ps)"
| "field_fits Plain (Num i) = True"
| "field_fits _ _ = False"

definition args_fit :: "log_shape \<Rightarrow> log_arg list \<Rightarrow> bool" where
  "args_fit sh args \<longleftrightarrow> list_all2 (\<lambda>(k, f) a. field_fits f a) sh args"

fun clean_arg :: "log_arg \<Rightarrow> bool" where
  "clean_arg (Texts as) = list_all clean as"
| "clean_arg (Num i) = True"

section \<open>Formatting a statement\<close>

lemma clean_simps [simp]: "clean []" "clean (s @ t) \<longleftrightarrow> clean s \<and> clean t"
  by (simp_all add: clean_def)

lemma escape_clean: "clean s \<Longrightarrow> concat (map escape_char (ascii s)) = ascii s"
proof (induction s)
  case (Cons c s)
  have "of_char c = (of_char (CHR 0x22) :: nat) \<longleftrightarrow> c = CHR 0x22"
    "of_char c = (of_char (CHR 0x5C) :: nat) \<longleftrightarrow> c = CHR 0x5C" by (simp_all only: of_char_eq_iff)
  with Cons show ?case by (simp add: clean_def ascii_Cons escape_char_def)
qed simp

lemma dump_clean: "clean s \<Longrightarrow> dump_str (ascii s) = 34 # ascii s @ [34]"
  by (simp add: dump_str_def escape_clean)

lemma fmt_plain:
  assumes "replaces_fields fmt" "braceless s"
  shows "fmt (s @ t) as = s @ fmt t as"
  using assms(2)
proof (induction s)
  case (Cons c s)
  then have "c \<notin> set ''{}''" by (auto simp: braceless_def)
  then have "fmt (c # s @ t) as = c # fmt (s @ t) as"
    using assms(1) unfolding replaces_fields_def by blast
  with Cons show ?case by (simp add: braceless_def)
qed simp

lemma fmt_laws:
  assumes "replaces_fields fmt"
  shows \<open>fmt (''{{'' @ t) as = ''{'' @ fmt t as\<close> \<open>fmt (''}}'' @ t) as = ''}'' @ fmt t as\<close>
    \<open>fmt (''{}'' @ t) (a # as) = a @ fmt t as\<close> "fmt [] as = []"
  using assms by (simp_all add: replaces_fields_def)

lemma fmt_pieces:
  assumes "replaces_fields fmt"
  shows "pieces_ok ps \<Longrightarrow> length as = holes ps \<Longrightarrow> fmt (pieces_format ps @ t) (as @ rest) = fill_pieces ps as @ fmt t rest"
proof (induction ps as rule: fill_pieces.induct)
  case (1 ps a as)
  then show ?case using fmt_laws(3) [OF assms, of "pieces_format ps @ t" a "as @ rest"] by simp
next
  case (2 s ps as)
  then show ?case using fmt_plain [OF assms, of s "pieces_format ps @ t"] by simp
qed simp_all

lemma clean_filled: "pieces_ok ps \<Longrightarrow> list_all clean as \<Longrightarrow> clean (fill_pieces ps as)"
  by (induction ps as rule: fill_pieces.induct) simp_all

text \<open>A JSON writer would print the same text for the members.\<close>

lemma formatted_member:
  assumes "replaces_fields fmt" "clean k" "braceless k" "shape_field_ok f" "field_fits f a" "clean_arg a"
  shows "ascii (fmt (member_format (k, f) @ t) (arg_texts a @ rest)) =
    dump_str (ascii k) @ [58, 32] @ dump_val None l (fill_field f a) @ ascii (fmt t rest)"
proof -
  note plain = fmt_plain [OF assms(1)]
  show ?thesis
  proof (cases f)
    case (Quoted ps)
    with assms(5) obtain as where a: "a = Texts as" by (cases a) auto
    have "fmt (member_format (k, f) @ t) (arg_texts a @ rest) =
        fmt ([CHR 0x22] @ k @ [CHR 0x22, CHR 0x3A, CHR 0x20, CHR 0x22] @ pieces_format ps @ [CHR 0x22] @ t) (as @ rest)"
      by (simp add: Quoted a)
    also have "\<dots> = [CHR 0x22] @ k @ [CHR 0x22, CHR 0x3A, CHR 0x20, CHR 0x22] @ fill_pieces ps as @ [CHR 0x22] @ fmt t rest"
      using assms by (subst plain, simp add: braceless_def, subst plain, simp, subst plain, simp add: braceless_def,
          subst fmt_pieces, simp_all add: Quoted a, subst plain [of "[CHR 0x22]", simplified], simp_all add: braceless_def)
    finally show ?thesis using assms
      by (simp add: Quoted a dump_clean clean_filled) (simp add: ascii_def)
  next
    case Plain
    with assms(5) obtain i where a: "a = Num i" by (cases a) auto
    have "fmt (member_format (k, f) @ t) (arg_texts a @ rest) =
        fmt ([CHR 0x22] @ k @ [CHR 0x22, CHR 0x3A, CHR 0x20] @ ''{}'' @ t) (show_int i # rest)"
      by (simp add: Plain a)
    also have "\<dots> = [CHR 0x22] @ k @ [CHR 0x22, CHR 0x3A, CHR 0x20] @ show_int i @ fmt t rest"
      using assms by (subst plain, simp add: braceless_def, subst plain, simp, subst plain, simp add: braceless_def,
          subst fmt_laws(3), simp_all)
    finally show ?thesis using assms by (simp add: Plain a dump_clean) (simp add: ascii_def)
  qed
qed

lemma formatted_members:
  assumes "replaces_fields fmt"
  shows "list_all (\<lambda>(k, f). clean k \<and> braceless k \<and> shape_field_ok f) sh \<Longrightarrow> args_fit sh args \<Longrightarrow> list_all clean_arg args \<Longrightarrow>
    ascii (fmt (members_format sh @ t) (concat (map arg_texts args) @ rest)) =
      dump_members None l (members_of sh args) @ ascii (fmt t rest)"
proof (induction sh arbitrary: args)
  case Nil
  then show ?case by (simp add: args_fit_def members_of_def)
next
  case (Cons kf sh)
  obtain k f where kf: "kf = (k, f)" by (cases kf)
  obtain a args' where args: "args = a # args'" using Cons.prems(2) by (cases args) (auto simp: args_fit_def)
  have head: "clean k" "braceless k" "shape_field_ok f" "field_fits f a" "clean_arg a"
    using Cons.prems by (simp_all add: kf args args_fit_def)
  note member = formatted_member [OF assms head, where l = l]
  have ih: "ascii (fmt (members_format sh @ t) (concat (map arg_texts args') @ rest)) =
      dump_members None l (members_of sh args') @ ascii (fmt t rest)"
    using Cons.prems by (intro Cons.IH) (simp_all add: kf args args_fit_def)
  show ?case
  proof (cases "sh = []")
    case True
    with Cons.prems(2) have "args' = []" by (simp add: args args_fit_def)
    with True member [of t rest] show ?thesis by (simp add: kf args members_of_def)
  next
    case False
    then have ne: "members_of sh args' \<noteq> []"
      using Cons.prems(2) by (cases sh; cases args') (auto simp: members_of_def args args_fit_def)
    have "fmt ('', '' @ members_format sh @ t) as = '', '' @ fmt (members_format sh @ t) as" for as
      by (rule fmt_plain [OF assms]) (simp add: braceless_def)
    then have "ascii (fmt ('', '' @ members_format sh @ t) (concat (map arg_texts args') @ rest)) =
        [44, 32] @ dump_members None l (members_of sh args') @ ascii (fmt t rest)"
      using ih by (simp add: ascii_def)
    with False member [of "'', '' @ members_format sh @ t" "concat (map arg_texts args') @ rest"] ne show ?thesis
      by (simp add: kf args members_of_def item_separator_def)
  qed
qed

lemma formatted:
  assumes "replaces_fields fmt" "shape_ok sh" "args_fit sh args" "list_all clean_arg args"
  shows "ascii (fmt (format_of sh) (concat (map arg_texts args))) = dumps (PDict (members_of sh args))"
proof -
  have fits: "list_all (\<lambda>(k, f). clean k \<and> braceless k \<and> shape_field_ok f) sh" using assms(2) by (simp add: shape_ok_def)
  have "fmt (format_of sh) as = ''{'' @ fmt (members_format sh @ ''}}'') as" for as
    unfolding format_of_def by (rule fmt_laws(1) [OF assms(1)])
  moreover have "fmt ''}}'' [] = ''}''" using fmt_laws(2) [OF assms(1), of "[]" "[]"] fmt_laws(4) [OF assms(1)] by simp
  ultimately have "ascii (fmt (format_of sh) (concat (map arg_texts args))) =
      123 # dump_members None 1 (members_of sh args) @ [125]"
    using formatted_members [OF assms(1) fits assms(3,4), of "''}}''" "[]" 1] by (simp add: ascii_def)
  then show ?thesis by (simp add: dumps_def newline_def)
qed

section \<open>Reading a line\<close>

definition stamp :: "(char \<Rightarrow> string) \<Rightarrow> string" where
  "stamp clock =
     clock (CHR ''Y'') @ ''-'' @ clock (CHR ''m'') @ ''-'' @ clock (CHR ''d'') @ ''T'' @ clock (CHR ''H'') @ '':'' @
     clock (CHR ''M'') @ '':'' @ clock (CHR ''S'') @ ''.'' @ clock (CHR ''f'') @ clock (CHR ''z'')"

lemma pat_plain:
  assumes "expands_flags pat" "CHR ''%'' \<notin> set s"
  shows "pat (s @ t) flag = s @ pat t flag"
  using assms(2)
proof (induction s)
  case (Cons c s)
  then have "c \<noteq> CHR ''%''" by auto
  then have "pat (c # s @ t) flag = c # pat (s @ t) flag" using assms(1) unfolding expands_flags_def by blast
  with Cons show ?case by simp
qed simp

lemma pat_flag: "expands_flags pat \<Longrightarrow> pat (''%'' @ [c] @ t) flag = flag c @ pat t flag"
  by (simp add: expands_flags_def)

lemma log_line_text:
  assumes "expands_flags pat"
  shows \<open>log_line pat clock level service message =
    ''{"@timestamp":"'' @ stamp clock @ ''", "level":"'' @ level @ ''", "service":"'' @ service @ ''", "message":'' @
    message @ ''}'' @ [CHR 0x0A]\<close>
proof -
  have split: \<open>json_pattern = ''{"@timestamp":"'' @ ''%'' @ ''Y'' @ ''-'' @ ''%'' @ ''m'' @ ''-'' @ ''%'' @ ''d'' @ ''T'' @
      ''%'' @ ''H'' @ '':'' @ ''%'' @ ''M'' @ '':'' @ ''%'' @ ''S'' @ ''.'' @ ''%'' @ ''f'' @ ''%'' @ ''z'' @
      ''", "level":"'' @ ''%'' @ ''l'' @ ''", "service":"'' @ ''%'' @ ''n'' @ ''", "message":'' @ ''%'' @ ''v'' @
      ''}'' @ [CHR 0x0A]\<close>
    by (simp add: json_pattern_def)
  have nil: "pat [] flag = []" for flag using assms unfolding expands_flags_def by blast
  have last: "pat (''}'' @ [CHR 0x0A]) flag = ''}'' @ [CHR 0x0A]" for flag
    using pat_plain [OF assms, of "''}'' @ [CHR 0x0A]" "[]"] by (simp add: nil)
  show ?thesis
    unfolding log_line_def split stamp_def
    by (simp only: pat_flag [OF assms] pat_plain [OF assms] last fun_upd_apply append_assoc
        list.set insert_iff empty_iff char.inject simp_thms if_True if_False)
qed

lemma skip_simps [simp]:
  "skip_ws [] = []" "skip_ws (34 # z) = 34 # z" "skip_ws (44 # z) = 44 # z" "skip_ws (58 # z) = 58 # z"
  "skip_ws (123 # z) = 123 # z" "skip_ws (125 # z) = 125 # z" "skip_ws (10 # z) = skip_ws z"
  by (simp_all add: skip_ws_def is_ws_def)

lemma scan_clean: "clean s \<Longrightarrow> scan_string (ascii s @ 34 # z) = Some (ascii s, z)"
  using scan_string_dump [of "ascii s" z] by (simp add: escape_clean)

text \<open>One member whose value is a text, and what follows it.\<close>

lemma scan_text_member:
  assumes "clean k" "clean v"
  shows "scan_members (Suc (Suc n)) (34 # ascii k @ 34 # 58 # 34 # ascii v @ 34 # r) =
    (case skip_ws r of
       [] \<Rightarrow> None
     | d # r4 \<Rightarrow>
         if d = 125 then Some ([(ascii k, PStr (ascii v))], r4)
         else if d = 44 then map_option (\<lambda>(ms, z). ((ascii k, PStr (ascii v)) # ms, z)) (scan_members (Suc n) (skip_ws r4))
         else None)"
  using assms by (subst scan_members.simps) (simp add: scan_clean)

lemma scan_last_member:
  assumes "clean k" "scan_value (Suc n) (c # z) = v" "\<not> is_ws c"
  shows "scan_members (Suc (Suc n)) (34 # ascii k @ 34 # 58 # c # z) =
    (case v of
       None \<Rightarrow> None
     | Some (v, r3) \<Rightarrow>
         (case skip_ws r3 of
            [] \<Rightarrow> None
          | d # r4 \<Rightarrow>
              if d = 125 then Some ([(ascii k, v)], r4)
              else if d = 44 then map_option (\<lambda>(ms, z). ((ascii k, v) # ms, z)) (scan_members (Suc n) (skip_ws r4))
              else None))"
  using assms by (subst scan_members.simps) (simp add: scan_clean skip_ws_solid del: scan_value.simps)

lemma clean_names: "clean ''@timestamp''" "clean ''level''" "clean ''service''" "clean ''message''"
  by (simp_all add: clean_def)

text \<open>A line is JSON if its message is, and has the message as its last member.\<close>

lemma line_ascii:
  assumes "expands_flags pat"
  shows "ascii (log_line pat clock level service message) =
    123 # 34 # ascii ''@timestamp'' @ 34 # 58 # 34 # ascii (stamp clock) @ 34 # 44 # 32 #
    34 # ascii ''level'' @ 34 # 58 # 34 # ascii level @ 34 # 44 # 32 #
    34 # ascii ''service'' @ 34 # 58 # 34 # ascii service @ 34 # 44 # 32 #
    34 # ascii ''message'' @ 34 # 58 # ascii message @ 125 # 10 # []"
  by (simp add: log_line_text [OF assms] ascii_def)

lemma loads_line:
  assumes "expands_flags pat" "clean (stamp clock)" "clean level" "clean service" "ascii message = c # m" "\<not> is_ws c"
    and enough: "2 * length (ascii (log_line pat clock level service message)) \<le> n"
  shows "loads (ascii (log_line pat clock level service message)) =
    (case scan_value (Suc n) (ascii message @ 125 # 10 # []) of
       None \<Rightarrow> None
     | Some (v, r) \<Rightarrow>
         (case skip_ws r of
            [] \<Rightarrow> None
          | d # r4 \<Rightarrow>
              if d = 125
              then (if skip_ws r4 = []
                    then Some (PDict [(ascii ''@timestamp'', PStr (ascii (stamp clock))), (ascii ''level'', PStr (ascii level)),
                           (ascii ''service'', PStr (ascii service)), (ascii ''message'', v)])
                    else None)
              else if d = 44
              then (case scan_members (Suc n) (skip_ws r4) of
                      None \<Rightarrow> None
                    | Some (ms, z) \<Rightarrow>
                        if skip_ws z = []
                        then Some (PDict (dict_of ([(ascii ''@timestamp'', PStr (ascii (stamp clock))), (ascii ''level'', PStr (ascii level)),
                               (ascii ''service'', PStr (ascii service)), (ascii ''message'', v)] @ ms)))
                        else None)
              else None))"
proof -
  let ?s = "ascii (log_line pat clock level service message)"
  have fuel: "loads ?s = (case scan_value (Suc (Suc (Suc (Suc (Suc (Suc n)))))) (skip_ws ?s) of
      Some (v, r) \<Rightarrow> if skip_ws r = [] then Some v else None | None \<Rightarrow> None)"
    using enough by (intro loads_fuel) simp
  have dict: "dict_of [(ascii ''@timestamp'', PStr (ascii (stamp clock))), (ascii ''level'', PStr (ascii level)),
      (ascii ''service'', PStr (ascii service)), (ascii ''message'', v)] =
      [(ascii ''@timestamp'', PStr (ascii (stamp clock))), (ascii ''level'', PStr (ascii level)),
      (ascii ''service'', PStr (ascii service)), (ascii ''message'', v)]" for v
    by (rule dict_of_distinct) simp
  have last: "scan_members (Suc (Suc n)) (34 # ascii ''message'' @ 34 # 58 # ascii message @ 125 # 10 # []) =
    (case scan_value (Suc n) (ascii message @ 125 # 10 # []) of
       None \<Rightarrow> None
     | Some (v, r3) \<Rightarrow>
         (case skip_ws r3 of
            [] \<Rightarrow> None
          | d # r4 \<Rightarrow>
              if d = 125 then Some ([(ascii ''message'', v)], r4)
              else if d = 44 then map_option (\<lambda>(ms, z). ((ascii ''message'', v) # ms, z)) (scan_members (Suc n) (skip_ws r4))
              else None))"
    using scan_last_member [OF clean_names(4) refl assms(6), of n] by (simp add: assms(5) del: scan_value.simps scan_members.simps)
  have obj: "scan_value (Suc k) (123 # 34 # z) = map_option (\<lambda>(ms, z). (PDict (dict_of ms), z)) (scan_members k (34 # z))" for k z
    by simp
  show ?thesis
    unfolding fuel unfolding line_ascii [OF assms(1)]
    using assms(2-4)
    by (simp add: obj scan_text_member clean_names last dict del: scan_value.simps scan_members.simps split: option.splits list.splits)
qed

text \<open>A message printed from a value is read back as that value.\<close>

lemma loads_line_value:
  assumes "expands_flags pat" "clean (stamp clock)" "clean level" "clean service" "ascii message = dumps v" "wf_val v"
  shows "loads (ascii (log_line pat clock level service message)) =
    Some (PDict [(ascii ''@timestamp'', PStr (ascii (stamp clock))), (ascii ''level'', PStr (ascii level)),
      (ascii ''service'', PStr (ascii service)), (ascii ''message'', v)])"
proof -
  define n where "n = 2 * length (ascii (log_line pat clock level service message))"
  obtain c m where c: "dumps v = c # m" "\<not> is_ws c" unfolding dumps_def by (rule dump_val_head [OF assms(6)])
  have "length (dumps v) \<le> length (ascii (log_line pat clock level service message))"
    unfolding line_ascii [OF assms(1)] assms(5) by simp
  then have "scan_value (Suc n) (dumps v @ 125 # 10 # []) = Some (v, 125 # 10 # [])"
    unfolding dumps_def n_def using assms(6)
    by (intro scan_dump(1)) (simp_all add: stops_number_def is_dig_def)
  with loads_line [OF assms(1-4), of message c m n] c show ?thesis
    unfolding assms(5) by (simp add: n_def del: scan_value.simps)
qed

end
