(* ===== verification/Log_Events.thy ===== *)
theory Log_Events
  imports Log_Line
begin

text \<open>
  The events the log statements of the two services become in Elasticsearch: every statement with clean
  arguments is indexed under its event with all its members; and what a quotation mark in an argument does.
\<close>

section \<open>All statements\<close>

abbreviation text_arg :: "string \<Rightarrow> string \<times> log_field" where "text_arg k \<equiv> (k, Quoted [Hole])"
abbreviation number_arg :: "string \<Rightarrow> string \<times> log_field" where "number_arg k \<equiv> (k, Plain)"
abbreviation constant_text :: "string \<Rightarrow> string \<Rightarrow> string \<times> log_field" where "constant_text k s \<equiv> (k, Quoted [Words s])"

text \<open>A statement, its event, and its other members.\<close>

definition statements :: "(log_statement \<times> string \<times> log_shape) list" where
  "statements =
    [(s_order_created, ''api_order_created'', [text_arg ''order_id'', number_arg ''latency_ms'']),
     (s_bad_request, ''api_bad_request'', [text_arg ''error'']),
     (s_server_error, ''api_server_error'', [text_arg ''error'']),
     (s_status_updated, ''api_order_status_updated'', [text_arg ''order_id'', text_arg ''new_status'', number_arg ''latency_ms'']),
     (s_cache_hit, ''api_cache_hit'', [text_arg ''order_id'']),
     (s_cache_miss, ''api_cache_miss'', [text_arg ''order_id'']),
     (s_redis_fallback, ''api_redis_fallback'', [text_arg ''error'', text_arg ''order_id'']),
     (s_db_hit, ''api_db_hit'', [text_arg ''order_id'']),
     (s_db_connected, ''db_connected'', [text_arg ''dbname'']),
     (s_db_connection_failed, ''db_connection_failed'', [text_arg ''error'']),
     (s_order_created_db, ''order_created_db'', [text_arg ''order_id'']),
     (s_db_insert_failed, ''db_insert_failed'', [text_arg ''error'']),
     (s_status_updated_db, ''order_status_updated_db'', [text_arg ''order_id'', text_arg ''new_status'']),
     (s_db_update_failed, ''db_update_failed'', [text_arg ''order_id'', text_arg ''error'']),
     (s_db_read_failed, ''db_read_failed'', [text_arg ''error'']),
     (s_generator_started, ''load_generator_started'',
       [(''target'', Quoted [Hole, Words '':'', Hole]), number_arg ''req_per_sec'', number_arg ''threads'']),
     (s_generator_stopped, ''load_generator_stopped'', []),
     (s_patch_sent, ''request_sent'',
       [constant_text ''method'' ''PATCH'', number_arg ''thread_id'', text_arg ''order_id'', text_arg ''new_status'',
        number_arg ''status_code'', number_arg ''latency_ms'']),
     (s_patch_failed, ''request_failed'',
       [constant_text ''method'' ''PATCH'', number_arg ''thread_id'', number_arg ''status_code'', number_arg ''latency_ms'']),
     (s_post_sent, ''request_sent'',
       [constant_text ''method'' ''POST'', number_arg ''thread_id'', number_arg ''status_code'', number_arg ''latency_ms'']),
     (s_post_failed, ''request_failed'',
       [constant_text ''method'' ''POST'', number_arg ''thread_id'', number_arg ''status_code'', number_arg ''latency_ms'']),
     (s_subscribed, ''consumer_subscribed'',
       [text_arg ''consumer'', text_arg ''topic'', text_arg ''group_id'', text_arg ''dlq_topic'', number_arg ''max_retries'']),
     (s_producer_warning, ''dlq_producer_init_warning'', [text_arg ''consumer'', text_arg ''error'']),
     (s_producer_unavailable, ''dlq_producer_unavailable'', [text_arg ''consumer'']),
     (s_produce_failed, ''dlq_produce_failed'', [text_arg ''consumer'', text_arg ''error'']),
     (s_routed_to_dlq, ''routed_to_dlq'',
       [text_arg ''consumer'', text_arg ''dlq_topic'', number_arg ''offset'', text_arg ''error'']),
     (s_unparseable, ''unparseable_payload_routing_dlq'', [text_arg ''consumer'', number_arg ''offset'']),
     (s_processed, ''record_processed'', [text_arg ''consumer'', number_arg ''offset'', number_arg ''processing_latency_ms'']),
     (s_processing_failed, ''record_processing_failed'',
       [text_arg ''consumer'', number_arg ''attempt'', number_arg ''max_retries'', number_arg ''offset'', text_arg ''error'']),
     (s_retries_exhausted, ''retries_exhausted_routing_dlq'', [text_arg ''consumer'', number_arg ''offset'', text_arg ''error'']),
     (s_consumer_warning, ''kafka_consumer_warning'', [text_arg ''consumer'', text_arg ''error'']),
     (s_consumer_stopped, ''consumer_stopped'', [text_arg ''consumer'']),
     (s_redis_deleted, ''redis_deleted'', [text_arg ''order_id'', number_arg ''lsn'', number_arg ''offset'']),
     (s_stale_ignored, ''redis_stale_event_ignored'', [text_arg ''order_id'', number_arg ''lsn'', number_arg ''offset'']),
     (s_redis_updated, ''redis_updated'',
       [constant_text ''consumer'' ''RedisUpdater'', text_arg ''order_id'', text_arg ''status'', number_arg ''lsn'',
        number_arg ''offset'', number_arg ''sink_latency_ms'']),
     (s_es_deleted, ''es_deleted'', [text_arg ''order_id'', number_arg ''status'']),
     (s_es_indexed, ''es_indexed'',
       [constant_text ''consumer'' ''ESIndexer'', text_arg ''order_id'', number_arg ''status_code'', number_arg ''offset'',
        number_arg ''sink_latency_ms'']),
     (s_email_sent, ''email_notification_sent'',
       [constant_text ''consumer'' ''Notifier'', (''recipient'', Quoted [Hole, Words ''@example.com'']), text_arg ''order_id'',
        text_arg ''status'', (''subject'', Quoted [Words ''Order '', Hole, Words '' has been '', Hole]), number_arg ''offset'']),
     (s_email_skipped, ''email_notification_skipped_duplicate'',
       [constant_text ''consumer'' ''Notifier'', text_arg ''order_id'', text_arg ''status'',
        constant_text ''reason'' ''Idempotency key already exists in Redis'', number_arg ''offset'']),
     (s_avro_failed, ''avro_deserialization_failed'', [text_arg ''error'']),
     (s_raw_failed, ''raw_payload_parse_failed'', [text_arg ''error'']),
     (s_api_starting, ''api_server_starting'', [number_arg ''port'']),
     (s_redis_connected, ''redis_connected'', [text_arg ''host'']),
     (s_api_signal, ''shutdown_signal_received'', [number_arg ''signal'']),
     (s_waiting_for_db, ''waiting_for_db_or_redis'', [number_arg ''attempt'', text_arg ''error'']),
     (s_generator_config, ''load_generator_config'', [number_arg ''rps'', number_arg ''threads'']),
     (s_fatal_startup, ''fatal_startup_error'', [text_arg ''error'']),
     (s_redis_no_id, ''redis_updater_skip_no_id'', [number_arg ''offset'']),
     (s_es_no_id, ''es_indexer_skip_no_id'', [number_arg ''offset'']),
     (s_avro_to_json_failed, ''avro_to_json_conversion_failed'', []),
     (s_json_parse_failed, ''json_parse_failed'', [text_arg ''error'']),
     (s_avro_initialized, ''avro_deserializer_initialized'', [text_arg ''schema_registry'']),
     (s_redis_updater_connected, ''redis_updater_connected'', [text_arg ''host'']),
     (s_notifier_connected, ''notifier_redis_connected'', [text_arg ''host'']),
     (s_logger_initialized, ''logger_initialized'', [text_arg ''service'']),
     (s_consumers_starting, ''consumers_starting'', [text_arg ''brokers'', text_arg ''topic'', text_arg ''schema_registry'']),
     (s_waiting_for_services, ''waiting_for_services'', [number_arg ''attempt'', text_arg ''error'']),
     (s_launching_threads, ''launching_consumer_threads'', []),
     (s_es_crashed, ''es_indexer_crashed'', [text_arg ''error'']),
     (s_redis_updater_crashed, ''redis_updater_crashed'', [text_arg ''error'']),
     (s_notifier_crashed, ''notifier_crashed'', [text_arg ''error'']),
     (s_threads_running, ''all_consumer_threads_running'', []),
     (s_consumers_signal, ''shutdown_signal_received'', []),
     (s_shutdown_complete, ''consumers_shutdown_complete'', []),
     (s_consumers_fatal, ''consumers_fatal_error'', [text_arg ''error''])]"

definition event_shape :: "string \<Rightarrow> log_shape \<Rightarrow> log_shape" where
  "event_shape e fs = constant_text ''event'' e # fs"

definition statement_ok :: "log_statement \<times> string \<times> log_shape \<Rightarrow> bool" where
  "statement_ok = (\<lambda>((level, format), e, fs).
     clean level \<and> format = format_of (event_shape e fs) \<and> shape_ok (event_shape e fs)
     \<and> list_all (\<lambda>k. k \<notin> set [''log_type'', ''message'', ''ingest_time'']) (map fst fs))"

lemma statement_formats:
  "list_all (\<lambda>((level, format), e, fs). format = format_of (event_shape e fs) \<and> distinct (map fst (event_shape e fs))
     \<and> list_all (\<lambda>(k, f). braceless k) (event_shape e fs)
     \<and> list_all (\<lambda>k. k \<notin> set [''log_type'', ''message'', ''ingest_time'']) (map fst fs)) statements"
  by code_simp

lemma statement_levels: "list_all (\<lambda>((level, format), e, fs). level \<in> set [''info'', ''warning'', ''error'', ''critical'']) statements"
  by code_simp

lemma statement_texts:
  "list_all (\<lambda>(st, e, fs). list_all (\<lambda>(k, f). clean k \<and> shape_field_ok f) (event_shape e fs)) statements"
  by (simp add: statements_def event_shape_def clean_def braceless_def)

lemma statements_ok: "list_all statement_ok statements"
proof -
  have "clean level" if "level \<in> set [''info'', ''warning'', ''error'', ''critical'']" for level
    using that by (auto simp: clean_def)
  with statement_formats statement_levels statement_texts show ?thesis
    by (fastforce simp: list_all_iff statement_ok_def shape_ok_def)
qed

section \<open>Logstash reads a line\<close>

fun json_of_py :: "pyval \<Rightarrow> json" where
  "json_of_py PNone = JNull"
| "json_of_py (PBool b) = JBool b"
| "json_of_py (PInt i) = JInt i"
| "json_of_py (PFloat m k) = JDouble (Fract m (10 ^ k))"
| "json_of_py (PSpecial s) = JNull"
| "json_of_py (PStr t) = JStr (map char_of t)"
| "json_of_py (PList xs) = JArr (map json_of_py xs)"
| "json_of_py (PDict ms) = JObj (map (\<lambda>(k, v). (map char_of k, json_of_py v)) ms)"

abbreviation json_member :: "pystr \<times> pyval \<Rightarrow> string \<times> json" where
  "json_member \<equiv> \<lambda>(k, v). (map char_of k, json_of_py v)"

text \<open>A value without floats and with ASCII texts only, for which the two kinds of text agree.\<close>

fun plain_value :: "pyval \<Rightarrow> bool" where
  "plain_value (PFloat m k) = False"
| "plain_value (PSpecial s) = False"
| "plain_value (PStr t) = list_all (\<lambda>c. c < 128) t"
| "plain_value (PList xs) = list_all plain_value xs"
| "plain_value (PDict ms) = list_all (\<lambda>(k, v). list_all (\<lambda>c. c < 128) k \<and> plain_value v) ms"
| "plain_value _ = True"

text \<open>
  The codec \<open>json_lines\<close> of Logstash: a line that is a JSON object becomes an event with its members (and
  some fields of Logstash's own), a text that is no JSON an event with the text under \<open>message\<close>.
\<close>

definition reads_json_lines :: "(string \<Rightarrow> log_document) \<Rightarrow> bool" where
  "reads_json_lines decode \<longleftrightarrow>
     (\<forall>line. case loads (ascii line) of
        Some (PDict ms) \<Rightarrow>
          (\<forall>k v. map_of ms (ascii k) = Some v \<longrightarrow> plain_value v \<longrightarrow> map_of (decode line) k = Some (json_of_py v)) \<and>
          (''log_type'' \<in> fst ` set (decode line) \<longrightarrow> ascii ''log_type'' \<in> fst ` set ms)
      | Some v \<Rightarrow> True
      | None \<Rightarrow>
          map_of (decode line) ''message'' = Some (JStr line) \<and> map_of (decode line) ''event'' = None \<and>
          ''log_type'' \<notin> fst ` set (decode line))"

lemma char_of_ascii [simp]: "map char_of (ascii s) = s"
  by (simp add: ascii_def comp_def)

text \<open>The text of a statement, and its line.\<close>

definition message_of :: "(string \<Rightarrow> string list \<Rightarrow> string) \<Rightarrow> log_statement \<Rightarrow> log_arg list \<Rightarrow> string" where
  "message_of fmt st args = fmt (snd st) (concat (map arg_texts args))"

definition statement_line ::
    "(string \<Rightarrow> string list \<Rightarrow> string) \<Rightarrow> (string \<Rightarrow> (char \<Rightarrow> string) \<Rightarrow> string) \<Rightarrow> (char \<Rightarrow> string) \<Rightarrow> string
      \<Rightarrow> log_statement \<Rightarrow> log_arg list \<Rightarrow> string" where
  "statement_line fmt pat clock service st args = log_line pat clock (fst st) service (message_of fmt st args)"

definition event_members :: "string \<Rightarrow> log_shape \<Rightarrow> log_arg list \<Rightarrow> (pystr \<times> pyval) list" where
  "event_members e fs args = (ascii ''event'', PStr (ascii e)) # members_of fs args"

definition line_value :: "(char \<Rightarrow> string) \<Rightarrow> string \<Rightarrow> string \<Rightarrow> pyval \<Rightarrow> pyval" where
  "line_value clock level service v =
     PDict [(ascii ''@timestamp'', PStr (ascii (stamp clock))), (ascii ''level'', PStr (ascii level)),
       (ascii ''service'', PStr (ascii service)), (ascii ''message'', v)]"

lemma members_keys: "args_fit fs args \<Longrightarrow> map fst (members_of fs args) = map (ascii \<circ> fst) fs"
proof -
  assume "args_fit fs args"
  then have "length fs = length args" by (simp add: args_fit_def list_all2_lengthD)
  then show ?thesis by (induction fs args rule: list_induct2) (auto simp: members_of_def)
qed

lemma fitting_field:
  assumes "field_fits f a"
  shows "wf_val (fill_field f a)" "json_of_py (fill_field f a) \<noteq> JNull" "json_of_py (fill_field f a) \<noteq> JBool b"
  using assms by (cases f; cases a; simp)+

lemma members_fit:
  assumes "args_fit fs args" "(k, v) \<in> set (members_of fs args)"
  obtains f a k' where "(k', f) \<in> set fs" "field_fits f a" "k = ascii k'" "v = fill_field f a"
  using assms by (force simp: args_fit_def list_all2_iff members_of_def set_zip)

lemma event_members_wf:
  assumes "args_fit fs args" "distinct (map fst (event_shape e fs))"
  shows "wf_val (PDict (event_members e fs args))" "distinct (map fst (event_members e fs args))"
proof -
  have "map fst (event_members e fs args) = map ascii (map fst (event_shape e fs))"
    by (simp add: event_members_def event_shape_def members_keys [OF assms(1)])
  moreover have "inj_on ascii S" for S by (rule inj_onI) simp
  ultimately show d: "distinct (map fst (event_members e fs args))" using assms(2) by (simp only: distinct_map)
  have "wf_val v \<and> list_all scalar k" if "(k, v) \<in> set (event_members e fs args)" for k v
    using that fitting_field(1) by (auto simp: event_members_def elim!: members_fit [OF assms(1)])
  then have "\<forall>p \<in> set (event_members e fs args). list_all scalar (fst p) \<and> wf_val (snd p)" by auto
  with d show "wf_val (PDict (event_members e fs args))" by simp
qed

lemma statement_read:
  assumes "replaces_fields fmt" "expands_flags pat" "statement_ok (st, e, fs)" "args_fit fs args" "list_all clean_arg args"
    and "clean (stamp clock)" "clean service"
  shows "loads (ascii (statement_line fmt pat clock service st args)) =
    Some (line_value clock (fst st) service (PDict (event_members e fs args)))"
proof -
  obtain level format where st: "st = (level, format)" by (cases st)
  have ok: "clean level" "format = format_of (event_shape e fs)" "shape_ok (event_shape e fs)"
    using assms(3) by (simp_all add: statement_ok_def st)
  have fit: "args_fit (event_shape e fs) (Texts [] # args)" using assms(4) by (simp add: args_fit_def event_shape_def)
  have "ascii (message_of fmt st args) = dumps (PDict (members_of (event_shape e fs) (Texts [] # args)))"
    using formatted [OF assms(1) ok(3) fit] assms(5) by (simp add: message_of_def st ok(2))
  also have "members_of (event_shape e fs) (Texts [] # args) = event_members e fs args"
    by (simp add: members_of_def event_shape_def event_members_def)
  finally have msg: "ascii (message_of fmt st args) = dumps (PDict (event_members e fs args))" .
  have "wf_val (PDict (event_members e fs args))"
    using event_members_wf(1) [OF assms(4)] ok(3) unfolding shape_ok_def by blast
  from loads_line_value [OF assms(2,6) ok(1) assms(7) msg this] show ?thesis
    by (simp add: statement_line_def line_value_def st)
qed

text \<open>The event Logstash makes of a line whose message is an object.\<close>

lemma decoded_line:
  assumes "reads_json_lines decode" "loads (ascii line) = Some (line_value clock level service (PDict ms))" "plain_value (PDict ms)"
  shows "map_of (decode line) ''message'' = Some (JObj (map json_member ms))"
    and "''log_type'' \<notin> fst ` set (decode line)"
proof -
  note laws = assms(1) [unfolded reads_json_lines_def, rule_format, of line, unfolded assms(2) line_value_def option.case pyval.case]
  from laws have get: "\<And>k v. map_of [(ascii ''@timestamp'', PStr (ascii (stamp clock))), (ascii ''level'', PStr (ascii level)),
       (ascii ''service'', PStr (ascii service)), (ascii ''message'', PDict ms)] (ascii k) = Some v \<Longrightarrow> plain_value v \<Longrightarrow>
      map_of (decode line) k = Some (json_of_py v)" by blast
  show "map_of (decode line) ''message'' = Some (JObj (map json_member ms))"
    using get [of "''message''" "PDict ms"] assms(3) by (simp del: plain_value.simps)
  show "''log_type'' \<notin> fst ` set (decode line)" using laws by auto
qed

lemma clean_ascii: "clean s \<Longrightarrow> list_all (\<lambda>c. c < 128) (ascii s)"
  by (induction s) (auto simp: clean_def ascii_Cons)

lemma event_members_plain:
  assumes "shape_ok (event_shape e fs)" "args_fit fs args" "list_all clean_arg args"
  shows "plain_value (PDict (event_members e fs args))"
proof -
  have field: "plain_value (fill_field f a)" if "shape_field_ok f" "field_fits f a" "clean_arg a" for f a
    using that by (cases f; cases a; simp add: clean_filled clean_ascii)
  have "list_all (\<lambda>c. c < 128) k \<and> plain_value v" if "(k, v) \<in> set (members_of fs args)" for k v
  proof -
    from that obtain f a k' where fa: "((k', f), a) \<in> set (zip fs args)" and kv: "k = ascii k'" "v = fill_field f a"
      by (auto simp: members_of_def)
    then have "(k', f) \<in> set fs" "a \<in> set args" by (auto dest: set_zip_leftD set_zip_rightD)
    with assms fa have "clean k'" "shape_field_ok f" "field_fits f a" "clean_arg a"
      by (auto simp: list_all_iff shape_ok_def event_shape_def args_fit_def list_all2_iff)
    with field kv show ?thesis by (simp add: clean_ascii)
  qed
  then have "list_all (\<lambda>(k, v). list_all (\<lambda>c. c < 128) k \<and> plain_value v) (members_of fs args)"
    by (auto simp: list_all_iff [of _ "members_of fs args"])
  moreover have "clean e" "clean ''event''" using assms(1) by (simp_all add: shape_ok_def event_shape_def)
  ultimately show ?thesis by (simp add: event_members_def clean_ascii)
qed

lemma statement_facts:
  assumes "(st, e, fs) \<in> set statements"
  shows "statement_ok (st, e, fs)" "distinct (map fst (event_shape e fs))"
    "k \<in> fst ` set fs \<Longrightarrow> k \<notin> {''event'', ''log_type'', ''message'', ''ingest_time''}"
proof -
  show ok: "statement_ok (st, e, fs)" using statements_ok assms by (simp add: list_all_iff)
  then show "distinct (map fst (event_shape e fs))" by (cases st) (simp add: statement_ok_def shape_ok_def)
  have "''event'' \<notin> fst ` set fs" "\<forall>k \<in> fst ` set fs. k \<notin> {''log_type'', ''message'', ''ingest_time''}"
    using ok by (cases st, simp add: statement_ok_def shape_ok_def event_shape_def list_all_iff)+
  then show "k \<in> fst ` set fs \<Longrightarrow> k \<notin> {''event'', ''log_type'', ''message'', ''ingest_time''}" by blast
qed

lemma json_keys: "map fst (map json_member ms) = map (map char_of) (map fst ms)"
  by (auto simp: case_prod_beta)

lemma json_event_members:
  "map json_member (event_members e fs args) = (''event'', JStr e) # map json_member (members_of fs args)"
  by (simp add: event_members_def)

lemma json_members_distinct:
  assumes "args_fit fs args" "distinct (map fst (event_shape e fs))"
  shows "distinct (map fst (map json_member (event_members e fs args)))"
proof -
  have "map fst (map json_member (event_members e fs args)) = map fst (event_shape e fs)"
    unfolding json_keys by (simp add: event_members_def event_shape_def members_keys [OF assms(1)])
  with assms(2) show ?thesis by simp
qed

lemma json_members_fit:
  assumes "args_fit fs args" "map_of (map json_member (members_of fs args)) k = Some v"
  shows "k \<in> fst ` set fs" "v \<noteq> JNull" "v \<noteq> JBool b"
proof -
  from map_of_SomeD [OF assms(2)] obtain k0 v0 where "(k0, v0) \<in> set (members_of fs args)" "k = map char_of k0" "v = json_of_py v0"
    by auto
  with members_fit [OF assms(1)] fitting_field(2,3)
  show "k \<in> fst ` set fs" "v \<noteq> JNull" "v \<noteq> JBool b" by (metis char_of_ascii fst_conv image_eqI)+
qed


text \<open>Formatting, flags and codec written out, for the witnesses.\<close>

fun plain_fmt :: "string \<Rightarrow> string list \<Rightarrow> string" where
  "plain_fmt [] as = []"
| "plain_fmt (c # t) as =
     (if c = CHR ''{'' then
        (case t of
           [] \<Rightarrow> []
         | d # t' \<Rightarrow>
             if d = CHR ''{'' then CHR ''{'' # plain_fmt t' as
             else if d = CHR ''}'' then (case as of [] \<Rightarrow> plain_fmt t' [] | a # as' \<Rightarrow> a @ plain_fmt t' as')
             else plain_fmt t as)
      else if c = CHR ''}'' then (case t of [] \<Rightarrow> [] | d # t' \<Rightarrow> CHR ''}'' # plain_fmt t' as)
      else c # plain_fmt t as)"

fun plain_pattern :: "string \<Rightarrow> (char \<Rightarrow> string) \<Rightarrow> string" where
  "plain_pattern [] flag = []"
| "plain_pattern [c] flag = (if c = CHR ''%'' then [] else [c])"
| "plain_pattern (c # d # t) flag = (if c = CHR ''%'' then flag d @ plain_pattern t flag else c # plain_pattern (d # t) flag)"

definition plain_decode :: "string \<Rightarrow> log_document" where
  "plain_decode line =
     (case loads (ascii line) of
        Some (PDict ms) \<Rightarrow> map json_member (filter (\<lambda>(k, v). list_all (\<lambda>c. c < 256) k) ms)
      | _ \<Rightarrow> [(''message'', JStr line)])"

lemma plain_fmt_laws: "replaces_fields plain_fmt"
  by (simp add: replaces_fields_def)

lemma plain_pattern_laws: "expands_flags plain_pattern"
proof -
  have "c \<noteq> CHR ''%'' \<Longrightarrow> plain_pattern (c # t) flag = c # plain_pattern t flag" for c t flag
    by (cases t) simp_all
  then show ?thesis by (simp add: expands_flags_def)
qed

lemma ascii_of_chars: "list_all (\<lambda>c. c < 256) k \<Longrightarrow> ascii (map char_of k) = k"
  by (induction k) (simp_all add: ascii_def take_bit_eq_mod)

lemma plain_decode_laws: "reads_json_lines plain_decode"
proof -
  let ?d = "\<lambda>ms. map json_member (filter (\<lambda>(k, v). list_all (\<lambda>c. c < 256) k) ms)"
  have small: "list_all (\<lambda>c. c < 256) (ascii k)" for k
    by (induction k) (auto simp: ascii_Cons)
  have get: "map_of (?d ms) k = map_option json_of_py (map_of ms (ascii k))" for ms k
  proof (induction ms)
    case (Cons p ms)
    obtain k0 v0 where p: "p = (k0, v0)" by (cases p)
    show ?case
    proof (cases "list_all (\<lambda>c. c < 256) k0")
      case True
      then have "map char_of k0 = k \<longleftrightarrow> k0 = ascii k" using ascii_of_chars by fastforce
      with True Cons show ?thesis by (auto simp: p)
    next
      case False
      then have "k0 \<noteq> ascii k" using small by blast
      with False Cons show ?thesis by (simp add: p)
    qed
  qed simp
  have keys: "k \<in> fst ` set (?d ms) \<longleftrightarrow> ascii k \<in> fst ` set ms" for ms k
    using get [of ms k] by (metis map_of_eq_None_iff option.map_disc_iff)
  show ?thesis
    unfolding reads_json_lines_def plain_decode_def
    by (simp add: get keys del: map_map set_map set_filter split: option.splits pyval.splits)
qed

definition midnight :: "char \<Rightarrow> string" where
  "midnight c =
     (if c = CHR ''Y'' then ''2026'' else if c = CHR ''f'' then ''000000'' else if c = CHR ''z'' then ''+00:00'' else ''01'')"

lemma midnight_clean: "clean (stamp midnight)"
  by (simp add: stamp_def midnight_def clean_def)


end
