(* ===== verification/Log_Injection.thy ===== *)
theory Log_Injection
  imports Log_Events Cache_Aside
begin

text \<open>
  What a quotation mark in an argument of a log statement does. The services put their arguments between
  the quotation marks of a format as they are: an error message that quotes something makes the line no
  JSON, and an order identifier out of a URL can replace the event of the line.
\<close>

section \<open>Members before the argument\<close>

lemma scan_members_more:
  assumes "M \<noteq> []" "\<forall>p \<in> set M. list_all scalar (fst p) \<and> wf_val (snd p)" "2 * length (dump_members None l M) + 2 \<le> m"
  shows "scan_members (length M + m) (dump_members None l M @ 44 # 32 # 34 # w) =
    map_option (\<lambda>(ms, z). (M @ ms, z)) (scan_members m (34 # w))"
  using assms
proof (induction M)
  case (Cons p M)
  obtain k v where p: "p = (k, v)" by (cases p)
  define y where "y = (if M = [] then 44 # 32 # 34 # w else 44 # 32 # dump_members None l M @ 44 # 32 # 34 # w)"
  have shown: "dump_members None l (p # M) @ 44 # 32 # 34 # w = dump_str k @ 58 # 32 # dump_val None l v @ y"
    by (simp add: p y_def item_separator_def)
  have str: "scan_string (concat (map escape_char k) @ 34 # x) = Some (k, x)" for x
    using Cons.prems(2) by (simp add: p scan_string_dump)
  have wf: "wf_val v" using Cons.prems(2) by (simp add: p)
  have "2 * length (dump_val None l v) + 1 \<le> length M + m" using Cons.prems(3) by (simp add: p)
  then have val: "scan_value (length M + m) (skip_ws (32 # dump_val None l v @ y)) = Some (v, y)"
    using scan_dump(1) [OF wf, where r = y and n = "length M + m" and ind = None and level = l] by (simp add: skip_ws_dump [OF wf] y_def)
  show ?case
  proof (cases "M = []")
    case True
    with str val show ?thesis unfolding shown by (cases "scan_members m (34 # w)") (auto simp: dump_str_def y_def p)
  next
    case False
    then obtain k' v' M' where M: "M = (k', v') # M'" by (cases M) auto
    have "skip_ws (32 # dump_members None l M @ 44 # 32 # 34 # w) = dump_members None l M @ 44 # 32 # 34 # w"
      by (simp add: M dump_str_def)
    moreover have "scan_members (length M + m) (dump_members None l M @ 44 # 32 # 34 # w) =
        map_option (\<lambda>(ms, z). (M @ ms, z)) (scan_members m (34 # w))"
      using Cons.prems False by (intro Cons.IH) (auto simp: p)
    ultimately show ?thesis using False str val unfolding shown
      by (cases "scan_members m (34 # w)") (auto simp: dump_str_def y_def p)
  qed
qed simp

lemma members_format_snoc:
  "fs \<noteq> [] \<Longrightarrow> members_format (fs @ f # gs) =
    members_format fs @ '', '' @ member_format f @ (if gs = [] then [] else '', '' @ members_format gs)"
  by (induction fs) auto

text \<open>The text of a statement up to an argument, and what follows it.\<close>

lemma message_with_argument:
  assumes "replaces_fields fmt" "shape_ok (fs1 @ (k, Quoted [Hole]) # fs2)" "fs1 \<noteq> []"
    and "args_fit fs1 args1" "list_all clean_arg args1"
  obtains z where
    "ascii (fmt (format_of (fs1 @ (k, Quoted [Hole]) # fs2)) (concat (map arg_texts args1) @ a # rest)) =
      123 # dump_members None 1 (members_of fs1 args1) @ 44 # 32 # 34 # ascii k @ 34 # 58 # 32 # 34 # ascii a @ 34 # z"
    "fs2 = [] \<Longrightarrow> rest = [] \<Longrightarrow> z = [125]"
proof -
  have ok: "list_all (\<lambda>(k, f). clean k \<and> braceless k \<and> shape_field_ok f) fs1" "braceless k"
    using assms(2) by (simp_all add: shape_ok_def)
  define g where "g = (if fs2 = [] then [] else '', '' @ members_format fs2)"
  note plain = fmt_plain [OF assms(1)]
  define u where "u = ('', '' @ [CHR 0x22]) @ k @ [CHR 0x22, CHR 0x3A, CHR 0x20, CHR 0x22] @ ''{}'' @ [CHR 0x22] @ g @ ''}}''"
  have "fmt (format_of (fs1 @ (k, Quoted [Hole]) # fs2)) as = ''{'' @ fmt (members_format fs1 @ u) as" for as
    unfolding format_of_def members_format_snoc [OF assms(3)] fmt_laws(1) [OF assms(1)] by (simp add: g_def u_def)
  moreover have "fmt u (a # rest) =
      ('', '' @ [CHR 0x22]) @ k @ [CHR 0x22, CHR 0x3A, CHR 0x20, CHR 0x22] @ a @ [CHR 0x22] @ fmt (g @ ''}}'') rest"
    unfolding u_def using ok(2) by (subst plain, simp add: braceless_def, subst plain, simp, subst plain, simp add: braceless_def,
        subst fmt_laws(3) [OF assms(1)], subst plain, simp_all add: braceless_def)
  then have "ascii (fmt u (a # rest)) = 44 # 32 # 34 # ascii k @ 34 # 58 # 32 # 34 # ascii a @ 34 # ascii (fmt (g @ ''}}'') rest)"
    by (simp add: ascii_def)
  ultimately have "ascii (fmt (format_of (fs1 @ (k, Quoted [Hole]) # fs2)) (concat (map arg_texts args1) @ a # rest)) =
      123 # dump_members None 1 (members_of fs1 args1) @ 44 # 32 # 34 # ascii k @ 34 # 58 # 32 # 34 # ascii a @ 34 # ascii (fmt (g @ ''}}'') rest)"
    using formatted_members [OF assms(1) ok(1) assms(4,5), of u "a # rest" 1] by (simp add: ascii_Cons)
  moreover have "ascii (fmt (g @ ''}}'') rest) = [125]" if "fs2 = []" "rest = []"
    using that fmt_laws(2) [OF assms(1), of "[]" "[]"] fmt_laws(4) [OF assms(1)] by (simp add: g_def ascii_def)
  ultimately show thesis by (rule that)
qed

section \<open>Reading up to the argument\<close>

text \<open>A text member as the services print it, with a space after the colon.\<close>

lemma scan_spaced_member:
  assumes "clean k" "clean v"
  shows "scan_members (Suc (Suc n)) (34 # ascii k @ 34 # 58 # 32 # 34 # ascii v @ 34 # r) =
    (case skip_ws r of
       [] \<Rightarrow> None
     | d # r4 \<Rightarrow>
         if d = 125 then Some ([(ascii k, PStr (ascii v))], r4)
         else if d = 44 then map_option (\<lambda>(ms, z). ((ascii k, PStr (ascii v)) # ms, z)) (scan_members (Suc n) (skip_ws r4))
         else None)"
  using assms by (subst scan_members.simps) (simp add: scan_clean)

text \<open>
  The line of a statement, read up to one of its text arguments: what the members from there on are read
  as decides.
\<close>

lemma loads_statement:
  assumes "replaces_fields fmt" "expands_flags pat" "(st, e, fs1 @ (k, Quoted [Hole]) # fs2) \<in> set statements"
    and "args_fit fs1 args1" "list_all clean_arg args1" "clean (stamp clock)" "clean service"
  obtains n z where
    "scan_members (Suc (Suc (Suc n))) (34 # ascii k @ 34 # 58 # 32 # 34 # ascii a @ 34 # z @ 125 # 10 # []) = None \<Longrightarrow>
      loads (ascii (statement_line fmt pat clock service st (args1 @ Texts [a] # args2))) = None"
    "\<And>ms. scan_members (Suc (Suc (Suc n))) (34 # ascii k @ 34 # 58 # 32 # 34 # ascii a @ 34 # z @ 125 # 10 # []) =
        Some (ms, 125 # 10 # []) \<Longrightarrow>
      loads (ascii (statement_line fmt pat clock service st (args1 @ Texts [a] # args2))) =
        Some (line_value clock (fst st) service (PDict (dict_of (event_members e fs1 args1 @ ms))))"
    "fs2 = [] \<Longrightarrow> args2 = [] \<Longrightarrow> z = [125]"
proof -
  let ?args = "args1 @ Texts [a] # args2"
  let ?M = "event_members e fs1 args1" and ?line = "statement_line fmt pat clock service st (args1 @ Texts [a] # args2)"
  obtain level format where st: "st = (level, format)" by (cases st)
  have ok: "clean level" "format = format_of (event_shape e fs1 @ (k, Quoted [Hole]) # fs2)"
      "shape_ok (event_shape e fs1 @ (k, Quoted [Hole]) # fs2)"
    using statement_facts(1) [OF assms(3)] by (simp_all add: statement_ok_def st event_shape_def)
  have fit: "args_fit (event_shape e fs1) (Texts [] # args1)" "list_all clean_arg (Texts [] # args1)"
    using assms(4,5) by (simp_all add: args_fit_def event_shape_def)
  obtain z where z: "ascii (message_of fmt st ?args) =
      123 # dump_members None 1 ?M @ 44 # 32 # 34 # ascii k @ 34 # 58 # 32 # 34 # ascii a @ 34 # z"
    "fs2 = [] \<Longrightarrow> concat (map arg_texts args2) = [] \<Longrightarrow> z = [125]"
    by (rule message_with_argument [OF assms(1) ok(3) _ fit, of a "concat (map arg_texts args2)"])
      (simp_all add: message_of_def st ok(2) event_shape_def members_of_def event_members_def)
  define n where "n = 2 * length (ascii ?line)"
  have len: "length (dump_members None 1 ?M) \<le> length (ascii ?line)"
    unfolding statement_line_def line_ascii [OF assms(2)] z(1) by simp
  have wf: "\<forall>p \<in> set ?M. list_all scalar (fst p) \<and> wf_val (snd p)"
    using fitting_field(1) by (auto simp: event_members_def elim!: members_fit [OF assms(4)])
  have "?M \<noteq> []" by (simp add: event_members_def)
  from scan_members_more [OF this wf, of 1 "Suc (Suc (Suc n))"] len
  have more: "scan_members (length ?M + Suc (Suc (Suc n))) (dump_members None 1 ?M @ 44 # 32 # 34 # w) =
      map_option (\<lambda>(ms, z). (?M @ ms, z)) (scan_members (Suc (Suc (Suc n))) (34 # w))" for w
    by (simp add: n_def del: scan_members.simps)
  obtain t where head: "dump_members None 1 ?M = 34 # t"
    by (simp add: event_members_def dump_str_def)
  have obj: "scan_value (Suc m) (123 # dump_members None 1 ?M @ w) =
      map_option (\<lambda>(ms, z). (PDict (dict_of ms), z)) (scan_members m (dump_members None 1 ?M @ w))" for m w
    unfolding head by simp
  have inner: "scan_value (Suc (length ?M + Suc (Suc (Suc n)))) (ascii (message_of fmt st ?args) @ 125 # 10 # []) =
      map_option (\<lambda>(ms, z). (PDict (dict_of (?M @ ms)), z))
        (scan_members (Suc (Suc (Suc n))) (34 # ascii k @ 34 # 58 # 32 # 34 # ascii a @ 34 # z @ 125 # 10 # []))"
    using obj [of "length ?M + Suc (Suc (Suc n))" "44 # 32 # 34 # ascii k @ 34 # 58 # 32 # 34 # ascii a @ 34 # z @ 125 # 10 # []"]
    unfolding more by (simp add: z(1) option.map_comp comp_def case_prod_unfold del: scan_value.simps scan_members.simps)
  have "2 * length (ascii (log_line pat clock level service (message_of fmt st ?args))) \<le> length ?M + Suc (Suc (Suc n))"
    by (simp add: n_def statement_line_def st)
  note line = loads_line [OF assms(2,6) ok(1) assms(7) z(1) _ this, unfolded inner]
  show thesis
  proof (rule that)
    show "fs2 = [] \<Longrightarrow> args2 = [] \<Longrightarrow> z = [125]" using z(2) by simp
    show "loads (ascii ?line) = None"
      if "scan_members (Suc (Suc (Suc n))) (34 # ascii k @ 34 # 58 # 32 # 34 # ascii a @ 34 # z @ 125 # 10 # []) = None"
      using line unfolding that by (simp add: is_ws_def statement_line_def st)
    show "loads (ascii ?line) = Some (line_value clock (fst st) service (PDict (dict_of (?M @ ms))))"
      if "scan_members (Suc (Suc (Suc n))) (34 # ascii k @ 34 # 58 # 32 # 34 # ascii a @ 34 # z @ 125 # 10 # []) =
        Some (ms, 125 # 10 # [])" for ms
      using line unfolding that by (simp add: is_ws_def statement_line_def st line_value_def)
  qed
qed

section \<open>A quotation mark in an argument\<close>

lemma undecoded_line:
  assumes "reads_json_lines decode" "loads (ascii line) = None"
  shows "event_name (filter_event convert now (decode line)) = None"
    "output_index (filter_event convert now (decode line)) = ''cdc-system-logs-*''"
proof -
  let ?d = "decode line"
  have laws: "map_of ?d ''message'' = Some (JStr line)" "map_of ?d ''event'' = None" "''log_type'' \<notin> fst ` set ?d"
    using assms(1) [unfolded reads_json_lines_def, rule_format, of line] by (simp_all add: assms(2))
  define d1 where "d1 = fold (coerce_field convert) coercions (flatten_message ?d)"
  have flat: "flatten_message ?d = ?d" by (simp add: flatten_message_def laws(1))
  have get: "map_of d1 k = map_of ?d k" if "k \<notin> fst ` set coercions" for k
    using that by (simp add: d1_def flat coerce_other)
  have "event_name d1 = None" using get [of "''event''"] laws(2) by (simp add: event_name_def coercions_def)
  moreover have "map_of d1 ''log_type'' = None"
    using get [of "''log_type''"] laws(3) by (simp add: coercions_def map_of_eq_None_iff)
  ultimately show "output_index (filter_event convert now ?d) = ''cdc-system-logs-*''"
      "event_name (filter_event convert now ?d) = None"
    by (simp_all add: filter_event_def Let_def add_field_def output_index_def set_field_get log_type_def event_name_def flip: d1_def)
qed

text \<open>What follows a quotation mark does not end a member.\<close>

definition continues :: "string \<Rightarrow> bool" where
  "continues b \<longleftrightarrow> (case b of [] \<Rightarrow> True | c # _ \<Rightarrow> c \<notin> set ('' ,}'' @ [CHR 0x09, CHR 0x0A, CHR 0x0D]))"

lemma continues_scan:
  assumes "continues b" "clean k" "clean a"
  shows "scan_members (Suc (Suc (Suc n))) (34 # ascii k @ 34 # 58 # 32 # 34 # ascii (a @ [CHR 0x22] @ b) @ 34 # z) = None"
proof -
  obtain c y where c: "ascii b @ 34 # z = c # y" "c \<noteq> 125" "c \<noteq> 44" "\<not> is_ws c"
  proof (cases b)
    case Nil
    then show ?thesis by (intro that [of 34 z]) (simp_all add: is_ws_def)
  next
    case (Cons d b')
    have inj: "of_char d = (of_char d' :: nat) \<longleftrightarrow> d = d'" for d' by (rule of_char_eq_iff)
    have "of_char d \<noteq> (125 :: nat)" "of_char d \<noteq> (44 :: nat)" "\<not> is_ws (of_char d)"
      using assms(1) Cons inj [of "CHR ''}''"] inj [of "CHR '',''"] inj [of "CHR '' ''"] inj [of "CHR 0x09"]
        inj [of "CHR 0x0A"] inj [of "CHR 0x0D"]
      by (auto simp: continues_def is_ws_def)
    then show ?thesis by (intro that [of "of_char d" "ascii b' @ 34 # z"]) (simp_all add: Cons ascii_Cons)
  qed
  have "ascii (a @ [CHR 0x22] @ b) @ 34 # z = ascii a @ 34 # (c # y)"
    using c(1) by (simp add: ascii_Cons)
  then show ?thesis using c(2-4) by (simp only: scan_spaced_member [OF assms(2,3)]) (simp add: skip_ws_solid)
qed

text \<open>
  C16. A quotation mark loses the event. Let an argument of a log statement have a text field to itself, let all
  arguments before it need no escaping, and let the first character of it that needs escaping be a quotation
  mark, with no comma, closing brace or white space behind it. Then the line is no JSON, whatever the other
  arguments are: Logstash keeps it as a raw text without the event and its fields, under the index of the system whatever its
  event is. Error messages of PostgreSQL and of the JSON library quote what they complain about, and so
  does the answer of Elasticsearch in the error of \<open>ESIndexer\<close>: none of these errors can be found by its
  event, and \<open>routed_to_dlq\<close> is lost among them. (A mark with a comma behind it can leave valid JSON; the
  section on forged events has one.)
\<close>

theorem quote_loses_event:
  assumes "replaces_fields fmt" "expands_flags pat" "reads_json_lines decode"
    and "(st, e, fs1 @ (k, Quoted [Hole]) # fs2) \<in> set statements"
    and "args_fit fs1 args1" "list_all clean_arg args1" "clean (stamp clock)" "clean service"
    and "clean a" "continues b"
  shows "let line = statement_line fmt pat clock service st (args1 @ Texts [a @ [CHR 0x22] @ b] # args2) in
    loads (ascii line) = None \<and> event_name (filter_event convert now (decode line)) = None
    \<and> output_index (filter_event convert now (decode line)) = ''cdc-system-logs-*''"
proof -
  obtain level format where st: "st = (level, format)" by (cases st)
  have "clean k" using statement_facts(1) [OF assms(4)] by (simp add: statement_ok_def st shape_ok_def event_shape_def)
  then have "loads (ascii (statement_line fmt pat clock service st (args1 @ Texts [a @ [CHR 0x22] @ b] # args2))) = None"
    using loads_statement [OF assms(1,2,4-8)] continues_scan [OF assms(10) _ assms(9)] by metis
  with undecoded_line [OF assms(3) this] show ?thesis by (simp add: Let_def)
qed

text \<open>The message of PostgreSQL for an identifier that is no UUID.\<close>

theorem quote_loses_event_witness:
  \<open>loads (ascii (statement_line plain_fmt plain_pattern midnight ''order-api'' s_db_read_failed
     [Texts [''invalid input syntax for type uuid: "abc"'']])) = None\<close>
proof -
  have s: "(s_db_read_failed, ''db_read_failed'', [] @ (''error'', Quoted [Hole]) # []) \<in> set statements"
    by (simp add: statements_def)
  have "clean ''order-api''" "clean ''invalid input syntax for type uuid: ''" \<open>continues ''abc"''\<close>
    by (simp_all add: clean_def continues_def)
  with quote_loses_event [OF plain_fmt_laws plain_pattern_laws plain_decode_laws s _ _ midnight_clean,
      of "[]" "''order-api''" "''invalid input syntax for type uuid: ''" \<open>''abc"''\<close> "[]"]
  show ?thesis by (simp add: args_fit_def Let_def)
qed

section \<open>A forged event\<close>

lemma from_postgres_log: "\<exists>es. api_log (snd (from_postgres env pg i s)) = api_log s @ es"
  by (auto simp: from_postgres_def get_order_by_id_def api_event_def Let_def split: prod.splits sum.splits option.splits list.splits)

lemma get_order_missed:
  assumes "cache_get api (order_key i) s = (Inr None, s1)"
  shows "(''api_cache_miss'', [i]) \<in> set (api_log (snd (get_order env pg api i s)))"
proof -
  obtain es where "api_log (snd (from_postgres env pg i (api_event (''api_cache_miss'', [i]) s1))) =
      api_log (api_event (''api_cache_miss'', [i]) s1) @ es" using from_postgres_log by blast
  then show ?thesis using assms by (simp add: get_order_def Let_def api_event_def)
qed

text \<open>An order identifier that closes its own member and adds one.\<close>

definition forging :: "string \<Rightarrow> string \<Rightarrow> string" where
  \<open>forging x e = x @ ''", "event": "'' @ e\<close>

lemma forged_read:
  assumes "replaces_fields fmt" "expands_flags pat" "clean (stamp clock)" "clean service" "clean x" "clean e"
  shows "loads (ascii (statement_line fmt pat clock service s_cache_miss [Texts [forging x e]])) =
    Some (line_value clock ''info'' service (PDict [(ascii ''event'', PStr (ascii e)), (ascii ''order_id'', PStr (ascii x))]))"
proof -
  have s: "(s_cache_miss, ''api_cache_miss'', [] @ (''order_id'', Quoted [Hole]) # []) \<in> set statements"
    by (simp add: statements_def)
  have names: "clean ''order_id''" "clean ''event''" by (simp_all add: clean_def)
  have shown: "34 # ascii ''order_id'' @ 34 # 58 # 32 # 34 # ascii (forging x e) @ 34 # z =
      34 # ascii ''order_id'' @ 34 # 58 # 32 # 34 # ascii x @ 34 # 44 # 32 #
      34 # ascii ''event'' @ 34 # 58 # 32 # 34 # ascii e @ 34 # z" for z
    by (simp add: forging_def ascii_def)
  have scan: "scan_members (Suc (Suc (Suc n))) (34 # ascii ''order_id'' @ 34 # 58 # 32 # 34 # ascii (forging x e) @ 34 # [125] @ [125, 10]) =
      Some ([(ascii ''order_id'', PStr (ascii x)), (ascii ''event'', PStr (ascii e))], [125, 10])" for n
    unfolding shown scan_spaced_member [OF names(1) assms(5)]
    using scan_spaced_member [OF names(2) assms(6), of n] by (simp del: scan_members.simps)
  have fit: "args_fit [] []" "list_all clean_arg []" by (simp_all add: args_fit_def)
  obtain n z where r: "\<And>ms. scan_members (Suc (Suc (Suc n))) (34 # ascii ''order_id'' @ 34 # 58 # 32 # 34 # ascii (forging x e) @ 34 # z @ [125, 10]) =
        Some (ms, [125, 10]) \<Longrightarrow>
      loads (ascii (statement_line fmt pat clock service s_cache_miss ([] @ Texts [forging x e] # []))) =
        Some (line_value clock (fst s_cache_miss) service (PDict (dict_of (event_members ''api_cache_miss'' [] [] @ ms))))"
    and z: "z = [125]"
    using loads_statement [OF assms(1,2) s fit assms(3,4), of "forging x e" "[]"] by metis
  have dict: "dict_of (event_members ''api_cache_miss'' [] [] @ [(ascii ''order_id'', PStr (ascii x)), (ascii ''event'', PStr (ascii e))]) =
      [(ascii ''event'', PStr (ascii e)), (ascii ''order_id'', PStr (ascii x))]"
    by (simp add: event_members_def members_of_def dict_of_def)
  have level: "fst s_cache_miss = ''info''" by (simp add: s_cache_miss_def)
  show ?thesis using r [unfolded z, OF scan] unfolding dict level by simp
qed

text \<open>
  C17. A request can forge an event. A \<open>GET\<close> of an order that is not in the cache logs the identifier of its
  URL, decoded, between quotation marks: an identifier that closes them and goes on with another \<open>event\<close>
  makes Logstash index, under the index of that event, a document no statement of the services has
  printed. So any client can raise the counts of the dashboards, or hide its own requests.
\<close>

theorem request_forges_event:
  assumes "replaces_fields fmt" "expands_flags pat" "reads_json_lines decode" "clean (stamp clock)"
    and "clean x" "clean e" "cache_get api (order_key (forging x e)) s = (Inr None, s1)"
  shows "(''api_cache_miss'', [forging x e]) \<in> set (api_log (snd (get_order env pg api (forging x e) s))) \<and>
    (let event = filter_event convert now (decode (statement_line fmt pat clock ''order-api'' s_cache_miss [Texts [forging x e]])) in
     map_of event ''event'' = Some (JStr e) \<and> map_of event ''order_id'' = Some (JStr x) \<and> output_index event = log_index (Some e))"
proof -
  let ?line = "statement_line fmt pat clock ''order-api'' s_cache_miss [Texts [forging x e]]"
  let ?ms = "[(ascii ''event'', PStr (ascii e)), (ascii ''order_id'', PStr (ascii x))]"
  let ?js = "[(''event'', JStr e), (''order_id'', JStr x)]"
  have "clean ''order-api''" by (simp add: clean_def)
  note read = forged_read [OF assms(1,2,4) this assms(5,6)]
  have "list_all (\<lambda>c. c < 128) (ascii ''event'')" "list_all (\<lambda>c. c < 128) (ascii ''order_id'')"
    by (intro clean_ascii; simp add: clean_def)+
  then have "plain_value (PDict ?ms)" using assms(5,6) by (simp add: clean_ascii)
  note decoded = decoded_line [OF assms(3) read this]
  have js: "map json_member ?ms = ?js" by simp
  note message = decoded(1) [unfolded js]
  have d: "distinct (map fst ?js)" by simp
  have "output_index (filter_event convert now (decode ?line)) = log_index (Some e)"
    by (rule routed_by_name [OF message d]) (use decoded(2) in simp_all)
  moreover have "map_of (filter_event convert now (decode ?line)) ''event'' = Some (JStr e)"
    "map_of (filter_event convert now (decode ?line)) ''order_id'' = Some (JStr x)"
    using routed_field [OF message d, of "''event''" "JStr e" convert now]
      routed_field [OF message d, of "''order_id''" "JStr x" convert now]
    by (simp_all add: coercions_def)
  ultimately show ?thesis using get_order_missed [OF assms(7)] by (simp add: Let_def)
qed

theorem request_forges_event_witness:
  "output_index (filter_event (\<lambda>_ v. v) (JStr ''now'')
     (plain_decode (statement_line plain_fmt plain_pattern midnight ''order-api'' s_cache_miss [Texts [forging ''7'' ''request_failed'']])))
   = ''cdc-api-logs-*''"
proof -
  have c: "clean ''7''" "clean ''request_failed''" by (simp_all add: clean_def)
  have "cache_get map_redis (order_key (forging ''7'' ''request_failed'')) (api_start (\<lambda>_. None)) =
      (Inr None, api_start (\<lambda>_. None))"
    by (simp add: cache_get_def api_start_def map_redis_def)
  from request_forges_event [OF plain_fmt_laws plain_pattern_laws plain_decode_laws midnight_clean c this,
      of tiny_env empty_pg "\<lambda>_ v. v" "JStr ''now''"]
  show ?thesis by (simp add: Let_def log_index_cases api_events_def)
qed

end
