(* ===== verification/Py_Http.thy ===== *)
theory Py_Http
  imports Py_Json_Roundtrip
begin

text \<open>
  What the Python scripts share: the exceptions they meet, the state of a run (what was printed
  and sent, and the server they talk to) and \<open>urllib.request.urlopen\<close>. The server is outside the
  repository: a function from a request and its own state to an outcome, an argument of every
  definition that talks to it.
\<close>

section \<open>Exceptions and runs\<close>

datatype py_error =
    HTTPError nat
  | URLError pystr
  | UnicodeDecodeError
  | JSONDecodeError
  | LookupFailed
  | TypeFailed
  | OverflowFailed

record request =
  r_method :: pystr
  r_url :: pystr
  r_headers :: "(pystr \<times> pystr) list"
  r_body :: pystr

text \<open>
  An answer carries its status and the text of its body, \<open>None\<close> when the bytes are not UTF-8;
  \<open>urlopen\<close> turns a status that is no success into \<open>HTTPError\<close> and a failure to reach the server
  into \<open>URLError\<close>.
\<close>

datatype http_outcome =
    Answer nat "pystr option"
  | Refusal nat "pystr option"
  | NoConnection pystr

type_synonym 'k http = "request \<Rightarrow> 'k \<Rightarrow> http_outcome \<times> 'k"

record 'k script =
  peer :: 'k
  sent :: "(request \<times> http_outcome) list"
  printed :: "pystr list"

type_synonym ('k, 'a) action = "'k script \<Rightarrow> (py_error + 'a) \<times> 'k script"

definition py_print :: "pystr \<Rightarrow> 'k script \<Rightarrow> 'k script" where
  "py_print line s = s\<lparr>printed := printed s @ [line]\<rparr>"

definition urlopen :: "'k http \<Rightarrow> request \<Rightarrow> 'k script \<Rightarrow> http_outcome \<times> 'k script" where
  "urlopen srv req s =
     (case srv req (peer s) of (r, k) \<Rightarrow> (r, s\<lparr>peer := k, sent := sent s @ [(req, r)]\<rparr>))"

definition answered :: "http_outcome \<Rightarrow> bool" where
  "answered r = (case r of Answer _ _ \<Rightarrow> True | _ \<Rightarrow> False)"

definition outcome_error :: "http_outcome \<Rightarrow> py_error" where
  "outcome_error r = (case r of Refusal c _ \<Rightarrow> HTTPError c | NoConnection e \<Rightarrow> URLError e | Answer _ _ \<Rightarrow> TypeFailed)"

lemma urlopen_frame:
  "urlopen srv req s = (r, s') \<Longrightarrow> sent s' = sent s @ [(req, r)] \<and> printed s' = printed s
     \<and> (r, peer s') = srv req (peer s)"
  by (auto simp: urlopen_def split: prod.splits)

lemma py_print_frame [simp]:
  "peer (py_print l s) = peer s" "sent (py_print l s) = sent s" "printed (py_print l s) = printed s @ [l]"
  by (simp_all add: py_print_def)

section \<open>Truth and UTF-8\<close>

text \<open>The truth value of a Python value: \<open>None\<close>, \<open>False\<close>, zero and empty containers are false.\<close>

definition truthy :: "pyval \<Rightarrow> bool" where
  "truthy v =
     (case v of
        PNone \<Rightarrow> False
      | PBool b \<Rightarrow> b
      | PInt i \<Rightarrow> i \<noteq> 0
      | PFloat m _ \<Rightarrow> m \<noteq> 0
      | PStr t \<Rightarrow> t \<noteq> []
      | PList xs \<Rightarrow> xs \<noteq> []
      | PDict ms \<Rightarrow> ms \<noteq> []
      | PSpecial _ \<Rightarrow> True)"

definition utf8_char :: "nat \<Rightarrow> nat list" where
  "utf8_char c =
     (if c < 128 then [c]
      else if c < 2048 then [192 + c div 64, 128 + c mod 64]
      else if c < 65536 then [224 + c div 4096, 128 + c div 64 mod 64, 128 + c mod 64]
      else [240 + c div 262144, 128 + c div 4096 mod 64, 128 + c div 64 mod 64, 128 + c mod 64])"

text \<open>\<open>str.encode("utf-8")\<close> of a text without surrogates, which is what \<open>json.dumps\<close> prints.\<close>

definition encode_utf8 :: "pystr \<Rightarrow> nat list" where
  "encode_utf8 t = concat (map utf8_char t)"

lemma encode_utf8_ascii: "list_all (\<lambda>c. c < 128) t \<Longrightarrow> encode_utf8 t = t"
  by (induction t) (auto simp: encode_utf8_def utf8_char_def)

section \<open>What dumps prints is ASCII\<close>

abbreviation ascii_text :: "pystr \<Rightarrow> bool" where "ascii_text t \<equiv> list_all (\<lambda>c. c < 128) t"

definition plain_chars :: "string \<Rightarrow> bool" where
  "plain_chars s \<longleftrightarrow> list_all (\<lambda>c. (of_char c :: nat) < 128) s"

lemma ascii_text_ascii: "plain_chars s \<Longrightarrow> ascii_text (ascii s)"
  by (simp add: plain_chars_def ascii_def list_all_iff)

lemma plain_digits: "(\<And>c. c \<in> set s \<Longrightarrow> is_digit c) \<Longrightarrow> plain_chars s"
  by (force simp: plain_chars_def list_all_iff is_digit_def)

lemma ascii_text_show_nat: "ascii_text (ascii (show_nat n))"
  using show_nat_digits by (intro ascii_text_ascii plain_digits)

lemma ascii_text_hex4: "ascii_text (hex4 n)"
proof -
  have "hex_digit d < 128" if "d < 16" for d using that by (simp add: hex_digit_def)
  then show ?thesis by (simp add: hex4_def)
qed

lemma ascii_text_escape: "ascii_text (escape_char c)"
  using ascii_text_hex4 by (simp add: escape_char_def uXXXX_def)

lemma ascii_text_dump_str: "ascii_text (dump_str t)"
  using ascii_text_escape by (induction t) (auto simp: dump_str_def)

lemma ascii_text_separators:
  "ascii_text (newline ind level)" "ascii_text (item_separator ind level)"
  by (auto simp: newline_def item_separator_def list_all_iff split: option.splits)

lemma ascii_text_pad: "ascii_text (ascii (pad_nat k n))"
  using ascii_text_show_nat [of n] by (auto simp: pad_nat_def ascii_def list_all_iff)

lemma ascii_text_dump:
  "wf_val v \<Longrightarrow> ascii_text (dump_val ind level v)"
  "\<forall>x \<in> set xs. wf_val x \<Longrightarrow> ascii_text (dump_items ind level xs)"
  "\<forall>p \<in> set ms. wf_val (snd p) \<Longrightarrow> ascii_text (dump_members ind level ms)"
proof (induction ind level v and ind level xs and ind level ms
    rule: dump_val_dump_items_dump_members.induct)
  case (3 ind level i)
  then show ?case using ascii_text_show_nat by (simp add: show_int_def ascii_Cons)
next
  case (4 ind level m k)
  have "ascii_text (ascii (if m < 0 then ''-'' else [])) \<and> ascii_text (ascii ''.'')" by (simp add: ascii_Cons)
  then show ?case
    using ascii_text_show_nat [of "nat \<bar>m\<bar> div 10 ^ k"] ascii_text_pad [of k "nat \<bar>m\<bar> mod 10 ^ k"]
    by (simp add: dump_float_def ascii_Cons)
qed (use ascii_text_dump_str ascii_text_separators in \<open>auto simp: ascii_Cons\<close>)

lemma encode_dumps: "wf_val v \<Longrightarrow> encode_utf8 (dumps v) = dumps v"
  by (simp add: dumps_def encode_utf8_ascii ascii_text_dump)

lemma scalar_if_ascii: "ascii_text t \<Longrightarrow> list_all scalar t"
  by (auto simp: list_all_iff scalar_def)

lemma wf_nested_dumps [simp]:
  "wf_val v \<Longrightarrow> list_all scalar (dumps v)" "wf_val v \<Longrightarrow> list_all scalar (dumps_indent w v)"
  by (simp_all add: dumps_def dumps_indent_def ascii_text_dump scalar_if_ascii)

end
