(* ===== verification/Kibana_Api.thy ===== *)
theory Kibana_Api
  imports Py_Http
begin

text \<open>
  The Kibana calls of the scripts: \<open>create_saved_object\<close>
  (\<open>scripts/build_full_kibana_dashboard.py\<close>) and \<open>create_data_view\<close>
  (\<open>scripts/setup_kibana.py\<close>).
\<close>

definition kibana_url :: pystr where
  "kibana_url = T ''http://localhost:5601''"

definition json_headers :: "(pystr \<times> pystr) list" where
  "json_headers = [(T ''Content-Type'', T ''application/json''), (T ''kbn-xsrf'', T ''true'')]"

section \<open>Saved objects\<close>

text \<open>The arguments of one \<open>create_saved_object\<close> call; \<open>references\<close> defaults to \<open>None\<close>.\<close>

record saved_object =
  obj_type :: pystr
  obj_id :: pystr
  attributes :: pyval
  obj_references :: pyval

definition saved_object_url :: "saved_object \<Rightarrow> pystr" where
  "saved_object_url ob =
     kibana_url @ T ''/api/saved_objects/'' @ obj_type ob @ T ''/'' @ obj_id ob @ T ''?overwrite=true''"

definition saved_object_payload :: "saved_object \<Rightarrow> pyval" where
  "saved_object_payload ob =
     PDict ((T ''attributes'', attributes ob) #
       (if truthy (obj_references ob) then [(T ''references'', obj_references ob)] else []))"

definition saved_object_request :: "saved_object \<Rightarrow> request" where
  "saved_object_request ob =
     \<lparr>r_method = T ''POST'', r_url = saved_object_url ob, r_headers = json_headers,
      r_body = encode_utf8 (dumps (saved_object_payload ob))\<rparr>"

definition create_saved_object :: "'k http \<Rightarrow> saved_object \<Rightarrow> ('k, unit) action" where
  "create_saved_object srv ob s =
     (case urlopen srv (saved_object_request ob) s of
        (Answer st _, s') \<Rightarrow>
          (Inr (), py_print (T ''[OK] '' @ obj_type ob @ T ''/'' @ obj_id ob @ T '' -> '' @ ascii (show_nat st)) s')
      | (r, s') \<Rightarrow> (Inl (outcome_error r), s'))"

text \<open>The calls one after another; an exception leaves the rest undone.\<close>

fun create_all :: "'k http \<Rightarrow> saved_object list \<Rightarrow> ('k, unit) action" where
  "create_all srv [] s = (Inr (), s)"
| "create_all srv (ob # obs) s =
     (case create_saved_object srv ob s of
        (Inl e, s') \<Rightarrow> (Inl e, s')
      | (Inr _, s') \<Rightarrow> create_all srv obs s')"

section \<open>Data views\<close>

definition data_view_payload :: "pystr \<Rightarrow> pystr \<Rightarrow> pystr \<Rightarrow> pyval \<Rightarrow> pyval" where
  "data_view_payload view_id title name time_field =
     PDict [(T ''data_view'', PDict (
       [(T ''id'', PStr view_id), (T ''title'', PStr title), (T ''name'', PStr name)] @
       (if truthy time_field then [(T ''timeFieldName'', time_field)] else [])))]"

definition data_view_request :: "pystr \<Rightarrow> pystr \<Rightarrow> pystr \<Rightarrow> pyval \<Rightarrow> request" where
  "data_view_request view_id title name time_field =
     \<lparr>r_method = T ''POST'', r_url = kibana_url @ T ''/api/data_views/data_view'', r_headers = json_headers,
      r_body = encode_utf8 (dumps (data_view_payload view_id title name time_field))\<rparr>"

definition contains_text :: "pystr \<Rightarrow> pystr \<Rightarrow> bool" where
  "contains_text sub t \<longleftrightarrow> list_ex (\<lambda>i. take (length sub) (drop i t) = sub) [0..<Suc (length t)]"

text \<open>An \<open>HTTPError\<close> is reported and swallowed; any other exception leaves the function.\<close>

definition create_data_view :: "'k http \<Rightarrow> pystr \<Rightarrow> pystr \<Rightarrow> pystr \<Rightarrow> pyval \<Rightarrow> ('k, unit) action" where
  "create_data_view srv view_id title name time_field s =
     (case urlopen srv (data_view_request view_id title name time_field) s of
        (Answer st _, s') \<Rightarrow>
          (Inr (), py_print (T ''[SUCCESS] Created Data View: '' @ name @ T '' ('' @ title @ T '') -> ''
                              @ ascii (show_nat st)) s')
      | (Refusal c None, s') \<Rightarrow> (Inl UnicodeDecodeError, s')
      | (Refusal c (Some body), s') \<Rightarrow>
          (Inr (),
           if c = 409 \<or> contains_text (T ''already exists'') body \<or> contains_text (T ''duplicate'') body
           then py_print (T ''[INFO] Data View '' @ name @ T '' already exists.'') s'
           else py_print (T ''[ERROR] Failed to create '' @ name @ T '': HTTP '' @ ascii (show_nat c) @ T '': '' @ body) s')
      | (NoConnection e, s') \<Rightarrow> (Inl (URLError e), s'))"

type_synonym data_view = "pystr \<times> pystr \<times> pystr \<times> pyval"

definition data_views :: "data_view list" where
  "data_views =
     [(T ''cdc-api-logs'', T ''cdc-api-logs-*'', T ''CDC API Logs'', S ''@timestamp''),
      (T ''cdc-consumer-logs'', T ''cdc-consumer-logs-*'', T ''CDC Consumer Logs'', S ''@timestamp''),
      (T ''cdc-system-logs'', T ''cdc-system-logs-*'', T ''CDC System Logs'', S ''@timestamp''),
      (T ''orders'', T ''orders'', T ''Elasticsearch Orders Store'', PNone)]"

fun create_views :: "'k http \<Rightarrow> data_view list \<Rightarrow> ('k, unit) action" where
  "create_views srv [] s = (Inr (), s)"
| "create_views srv ((vid, title, name, tfield) # vs) s =
     (case create_data_view srv vid title name tfield s of
        (Inl e, s') \<Rightarrow> (Inl e, s')
      | (Inr _, s') \<Rightarrow> create_views srv vs s')"

definition setup_main :: "'k http \<Rightarrow> ('k, unit) action" where
  "setup_main srv s =
     create_views srv data_views (py_print (T ''Connecting to Kibana to configure Data Views...'') s)"

section \<open>Facts\<close>

lemma create_saved_object_cases:
  assumes "create_saved_object srv ob s = (res, s')"
  obtains (ok) r where "answered r" "res = Inr ()" "sent s' = sent s @ [(saved_object_request ob, r)]"
  | (failed) r where "\<not> answered r" "res = Inl (outcome_error r)"
      "sent s' = sent s @ [(saved_object_request ob, r)]"
proof -
  obtain r s1 where u: "urlopen srv (saved_object_request ob) s = (r, s1)" by fastforce
  note fr = urlopen_frame [OF u]
  show thesis
  proof (cases "answered r")
    case True
    then obtain st b where "r = Answer st b" by (auto simp: answered_def split: http_outcome.splits)
    with assms u fr show thesis by (intro ok [of r]) (auto simp: create_saved_object_def answered_def)
  next
    case False
    then have "res = Inl (outcome_error r) \<and> s' = s1"
      using assms u by (auto simp: create_saved_object_def answered_def split: http_outcome.splits)
    with False fr show thesis by (intro failed [of r]) auto
  qed
qed

text \<open>A run over a list of calls: all answered, or up to the first that was not.\<close>

lemma create_all_cases:
  assumes "create_all srv obs s = (res, s')"
  obtains (finished) rs where "res = Inr ()" "list_all answered rs" "length rs = length obs"
      "sent s' = sent s @ zip (map saved_object_request obs) rs"
  | (aborted) k rs r where "k < length obs" "res = Inl (outcome_error r)" "\<not> answered r"
      "list_all answered rs" "length rs = k"
      "sent s' = sent s @ zip (map saved_object_request (take (Suc k) obs)) (rs @ [r])"
  using assms
proof (induction obs arbitrary: s thesis)
  case Nil
  then show ?case by (intro Nil(1) [of "[]"]) auto
next
  case (Cons ob obs)
  obtain res1 s1 where c: "create_saved_object srv ob s = (res1, s1)" by fastforce
  from c show ?case
  proof (cases rule: create_saved_object_cases)
    case (failed r)
    with Cons.prems(3) c show ?thesis by (intro Cons.prems(2) [of 0 r "[]"]) auto
  next
    case (ok r)
    with Cons.prems(3) c have "create_all srv obs s1 = (res, s')" by simp
    then show ?thesis
    proof (rule Cons.IH [rotated 2])
      fix rs
      assume "res = Inr ()" "list_all answered rs" "length rs = length obs"
        "sent s' = sent s1 @ zip (map saved_object_request obs) rs"
      with ok show thesis by (intro Cons.prems(1) [of "r # rs"]) auto
    next
      fix k rs r'
      assume "k < length obs" "res = Inl (outcome_error r')" "\<not> answered r'"
        "list_all answered rs" "length rs = k"
        "sent s' = sent s1 @ zip (map saved_object_request (take (Suc k) obs)) (rs @ [r'])"
      with ok show thesis by (intro Cons.prems(2) [of "Suc k" r' "r # rs"]) auto
    qed
  qed
qed

text \<open>The body of a request decodes to the payload it was built from.\<close>

lemma saved_object_decodes:
  "wf_val (saved_object_payload ob) \<Longrightarrow>
   loads (r_body (saved_object_request ob)) = Some (saved_object_payload ob)"
  by (simp add: saved_object_request_def encode_dumps loads_dumps)

end
