(* ===== verification/Kibana_Cards.thy ===== *)
theory Kibana_Cards
  imports Kibana_Api
begin

text \<open>
  The header banner and the eight metric cards \<open>build_full_kibana_dashboard.py\<close> creates.
\<close>

definition banner_markdown :: pystr where
  "banner_markdown =
     T ''# TransactFlow '' @ [0x2014] @ T '' Distributed Systems Observability & Telemetry''"

definition vis_header_banner :: saved_object where
  "vis_header_banner =
     \<lparr>obj_type = T ''visualization'', obj_id = T ''vis-header-banner'',
      attributes = PDict [
        (T ''title'', PStr []),
        (T ''visState'', PStr (dumps (
          PDict [
           (T ''title'', PStr []),
           (T ''type'', S ''markdown''),
           (T ''params'', PDict [(T ''markdown'', PStr banner_markdown)])]))),
        (T ''uiStateJSON'', S ''{}''),
        (T ''kibanaSavedObjectMeta'', PDict [
          (T ''searchSourceJSON'', PStr (dumps (
            PDict [
             (T ''query'', PDict [(T ''query'', PStr []), (T ''language'', S ''kuery'')]),
             (T ''filter'', PList [])])))])],
      obj_references = PNone\<rparr>"

text \<open>\<open>get_metric_params\<close>; the label is not used.\<close>

definition get_metric_params :: "pystr \<Rightarrow> int \<Rightarrow> pyval" where
  "get_metric_params label font_size =
     PDict [
      (T ''addTooltip'', PBool True),
      (T ''addLegend'', PBool False),
      (T ''type'', S ''metric''),
      (T ''metric'', PDict [
        (T ''percentageMode'', PBool False),
        (T ''useRanges'', PBool False),
        (T ''colorSchema'', S ''Green to Red''),
        (T ''metricColorMode'', S ''None''),
        (T ''colorsRange'', PList [PDict [(T ''from'', PInt 0), (T ''to'', PInt 100000000)]]),
        (T ''labels'', PDict [(T ''show'', PBool True)]),
        (T ''invertColors'', PBool False),
        (T ''style'', PDict [
          (T ''bgFill'', S ''#000''),
          (T ''bgColor'', PBool False),
          (T ''labelColor'', PBool False),
          (T ''subText'', PStr []),
          (T ''fontSize'', PInt font_size)])])]"

definition vis_total_orders :: saved_object where
  "vis_total_orders =
     \<lparr>obj_type = T ''visualization'', obj_id = T ''vis-total-orders'',
      attributes = PDict [
        (T ''title'', S ''Total Orders Ingested''),
        (T ''visState'', PStr (dumps (
          PDict [
           (T ''title'', S ''Total Orders Ingested''),
           (T ''type'', S ''metric''),
           (T ''params'', get_metric_params (T ''Total Ingested Orders'') 28),
           (T ''aggs'', PList [
             PDict [
              (T ''id'', S ''1''),
              (T ''enabled'', PBool True),
              (T ''type'', S ''count''),
              (T ''schema'', S ''metric''),
              (T ''params'', PDict [(T ''customLabel'', S ''Total Ingested Orders'')])]])]))),
        (T ''uiStateJSON'', S ''{}''),
        (T ''kibanaSavedObjectMeta'', PDict [
          (T ''searchSourceJSON'', PStr (dumps (
            PDict [
             (T ''query'', PDict [(T ''query'', PStr []), (T ''language'', S ''kuery'')]),
             (T ''filter'', PList []),
             (T ''indexRefName'', S ''kibanaSavedObjectMeta.searchSourceJSON.index'')])))])],
      obj_references = PList [
           PDict [
            (T ''name'', S ''kibanaSavedObjectMeta.searchSourceJSON.index''),
            (T ''type'', S ''index-pattern''),
            (T ''id'', S ''cdc-api-logs'')]]\<rparr>"

definition vis_p50_latency :: saved_object where
  "vis_p50_latency =
     \<lparr>obj_type = T ''visualization'', obj_id = T ''vis-p50-latency'',
      attributes = PDict [
        (T ''title'', S ''API P50 Median Latency''),
        (T ''visState'', PStr (dumps (
          PDict [
           (T ''title'', S ''API P50 Median Latency''),
           (T ''type'', S ''metric''),
           (T ''params'', get_metric_params (T ''P50 Median Latency (ms)'') 28),
           (T ''aggs'', PList [
             PDict [
              (T ''id'', S ''1''),
              (T ''enabled'', PBool True),
              (T ''type'', S ''percentiles''),
              (T ''schema'', S ''metric''),
              (T ''params'', PDict [
                (T ''field'', S ''latency_ms''),
                (T ''percents'', PList [PInt 50]),
                (T ''customLabel'', S ''P50 Latency (ms)'')])]])]))),
        (T ''uiStateJSON'', S ''{}''),
        (T ''kibanaSavedObjectMeta'', PDict [
          (T ''searchSourceJSON'', PStr (dumps (
            PDict [
             (T ''query'', PDict [(T ''query'', PStr []), (T ''language'', S ''kuery'')]),
             (T ''filter'', PList []),
             (T ''indexRefName'', S ''kibanaSavedObjectMeta.searchSourceJSON.index'')])))])],
      obj_references = PList [
           PDict [
            (T ''name'', S ''kibanaSavedObjectMeta.searchSourceJSON.index''),
            (T ''type'', S ''index-pattern''),
            (T ''id'', S ''cdc-api-logs'')]]\<rparr>"

definition vis_p95_latency :: saved_object where
  "vis_p95_latency =
     \<lparr>obj_type = T ''visualization'', obj_id = T ''vis-p95-latency'',
      attributes = PDict [
        (T ''title'', S ''API P95 Tail Latency''),
        (T ''visState'', PStr (dumps (
          PDict [
           (T ''title'', S ''API P95 Tail Latency''),
           (T ''type'', S ''metric''),
           (T ''params'', get_metric_params (T ''P95 Tail Latency (ms)'') 28),
           (T ''aggs'', PList [
             PDict [
              (T ''id'', S ''1''),
              (T ''enabled'', PBool True),
              (T ''type'', S ''percentiles''),
              (T ''schema'', S ''metric''),
              (T ''params'', PDict [
                (T ''field'', S ''latency_ms''),
                (T ''percents'', PList [PInt 95]),
                (T ''customLabel'', S ''P95 Latency (ms)'')])]])]))),
        (T ''uiStateJSON'', S ''{}''),
        (T ''kibanaSavedObjectMeta'', PDict [
          (T ''searchSourceJSON'', PStr (dumps (
            PDict [
             (T ''query'', PDict [(T ''query'', PStr []), (T ''language'', S ''kuery'')]),
             (T ''filter'', PList []),
             (T ''indexRefName'', S ''kibanaSavedObjectMeta.searchSourceJSON.index'')])))])],
      obj_references = PList [
           PDict [
            (T ''name'', S ''kibanaSavedObjectMeta.searchSourceJSON.index''),
            (T ''type'', S ''index-pattern''),
            (T ''id'', S ''cdc-api-logs'')]]\<rparr>"

definition vis_redis_sink_latency :: saved_object where
  "vis_redis_sink_latency =
     \<lparr>obj_type = T ''visualization'', obj_id = T ''vis-redis-sink-latency'',
      attributes = PDict [
        (T ''title'', S ''Redis Hot Cache Latency''),
        (T ''visState'', PStr (dumps (
          PDict [
           (T ''title'', S ''Redis Hot Cache Latency''),
           (T ''type'', S ''metric''),
           (T ''params'', get_metric_params (T ''Redis Avg Lua Latency (ms)'') 28),
           (T ''aggs'', PList [
             PDict [
              (T ''id'', S ''1''),
              (T ''enabled'', PBool True),
              (T ''type'', S ''avg''),
              (T ''schema'', S ''metric''),
              (T ''params'',
               PDict [(T ''field'', S ''sink_latency_ms''), (T ''customLabel'', S ''Redis Lua Latency (ms)'')])]])]))),
        (T ''uiStateJSON'', S ''{}''),
        (T ''kibanaSavedObjectMeta'', PDict [
          (T ''searchSourceJSON'', PStr (dumps (
            PDict [
             (T ''query'', PDict [(T ''query'', S ''consumer.keyword: RedisUpdater''), (T ''language'', S ''kuery'')]),
             (T ''filter'', PList []),
             (T ''indexRefName'', S ''kibanaSavedObjectMeta.searchSourceJSON.index'')])))])],
      obj_references = PList [
           PDict [
            (T ''name'', S ''kibanaSavedObjectMeta.searchSourceJSON.index''),
            (T ''type'', S ''index-pattern''),
            (T ''id'', S ''cdc-consumer-logs'')]]\<rparr>"

definition vis_total_consumer_events :: saved_object where
  "vis_total_consumer_events =
     \<lparr>obj_type = T ''visualization'', obj_id = T ''vis-total-consumer-events'',
      attributes = PDict [
        (T ''title'', S ''Total Consumer Events Handled''),
        (T ''visState'', PStr (dumps (
          PDict [
           (T ''title'', S ''Total Consumer Events Handled''),
           (T ''type'', S ''metric''),
           (T ''params'', get_metric_params (T ''Consumer Events Processed'') 28),
           (T ''aggs'', PList [
             PDict [
              (T ''id'', S ''1''),
              (T ''enabled'', PBool True),
              (T ''type'', S ''count''),
              (T ''schema'', S ''metric''),
              (T ''params'', PDict [(T ''customLabel'', S ''Consumer Events Handled'')])]])]))),
        (T ''uiStateJSON'', S ''{}''),
        (T ''kibanaSavedObjectMeta'', PDict [
          (T ''searchSourceJSON'', PStr (dumps (
            PDict [
             (T ''query'', PDict [(T ''query'', PStr []), (T ''language'', S ''kuery'')]),
             (T ''filter'', PList []),
             (T ''indexRefName'', S ''kibanaSavedObjectMeta.searchSourceJSON.index'')])))])],
      obj_references = PList [
           PDict [
            (T ''name'', S ''kibanaSavedObjectMeta.searchSourceJSON.index''),
            (T ''type'', S ''index-pattern''),
            (T ''id'', S ''cdc-consumer-logs'')]]\<rparr>"

definition vis_es_sink_latency :: saved_object where
  "vis_es_sink_latency =
     \<lparr>obj_type = T ''visualization'', obj_id = T ''vis-es-sink-latency'',
      attributes = PDict [
        (T ''title'', S ''Elasticsearch Commit Latency''),
        (T ''visState'', PStr (dumps (
          PDict [
           (T ''title'', S ''Elasticsearch Commit Latency''),
           (T ''type'', S ''metric''),
           (T ''params'', get_metric_params (T ''ES Commit Latency (ms)'') 28),
           (T ''aggs'', PList [
             PDict [
              (T ''id'', S ''1''),
              (T ''enabled'', PBool True),
              (T ''type'', S ''avg''),
              (T ''schema'', S ''metric''),
              (T ''params'',
               PDict [(T ''field'', S ''sink_latency_ms''), (T ''customLabel'', S ''ES Commit Latency (ms)'')])]])]))),
        (T ''uiStateJSON'', S ''{}''),
        (T ''kibanaSavedObjectMeta'', PDict [
          (T ''searchSourceJSON'', PStr (dumps (
            PDict [
             (T ''query'', PDict [(T ''query'', S ''consumer.keyword: ESIndexer''), (T ''language'', S ''kuery'')]),
             (T ''filter'', PList []),
             (T ''indexRefName'', S ''kibanaSavedObjectMeta.searchSourceJSON.index'')])))])],
      obj_references = PList [
           PDict [
            (T ''name'', S ''kibanaSavedObjectMeta.searchSourceJSON.index''),
            (T ''type'', S ''index-pattern''),
            (T ''id'', S ''cdc-consumer-logs'')]]\<rparr>"

definition vis_idempotency_dedup :: saved_object where
  "vis_idempotency_dedup =
     \<lparr>obj_type = T ''visualization'', obj_id = T ''vis-idempotency-dedup'',
      attributes = PDict [
        (T ''title'', S ''Idempotent Replays Filtered''),
        (T ''visState'', PStr (dumps (
          PDict [
           (T ''title'', S ''Idempotent Replays Filtered''),
           (T ''type'', S ''metric''),
           (T ''params'', get_metric_params (T ''Deduplicated Replays'') 28),
           (T ''aggs'', PList [
             PDict [
              (T ''id'', S ''1''),
              (T ''enabled'', PBool True),
              (T ''type'', S ''count''),
              (T ''schema'', S ''metric''),
              (T ''params'', PDict [(T ''customLabel'', S ''Deduplicated Replays'')])]])]))),
        (T ''uiStateJSON'', S ''{}''),
        (T ''kibanaSavedObjectMeta'', PDict [
          (T ''searchSourceJSON'', PStr (dumps (
            PDict [
             (T ''query'', PDict [
               (T ''query'', S ''event.keyword: email_notification_skipped_duplicate''),
               (T ''language'', S ''kuery'')]),
             (T ''filter'', PList []),
             (T ''indexRefName'', S ''kibanaSavedObjectMeta.searchSourceJSON.index'')])))])],
      obj_references = PList [
           PDict [
            (T ''name'', S ''kibanaSavedObjectMeta.searchSourceJSON.index''),
            (T ''type'', S ''index-pattern''),
            (T ''id'', S ''cdc-system-logs'')]]\<rparr>"

definition vis_dlq_count :: saved_object where
  "vis_dlq_count =
     \<lparr>obj_type = T ''visualization'', obj_id = T ''vis-dlq-count'',
      attributes = PDict [
        (T ''title'', S ''Dead Letter Queue Faults''),
        (T ''visState'', PStr (dumps (
          PDict [
           (T ''title'', S ''Dead Letter Queue Faults''),
           (T ''type'', S ''metric''),
           (T ''params'', get_metric_params (T ''Quarantined DLQ Events'') 28),
           (T ''aggs'', PList [
             PDict [
              (T ''id'', S ''1''),
              (T ''enabled'', PBool True),
              (T ''type'', S ''count''),
              (T ''schema'', S ''metric''),
              (T ''params'', PDict [(T ''customLabel'', S ''Quarantined DLQ Events'')])]])]))),
        (T ''uiStateJSON'', S ''{}''),
        (T ''kibanaSavedObjectMeta'', PDict [
          (T ''searchSourceJSON'', PStr (dumps (
            PDict [
             (T ''query'', PDict [(T ''query'', S ''event.keyword: routed_to_dlq''), (T ''language'', S ''kuery'')]),
             (T ''filter'', PList []),
             (T ''indexRefName'', S ''kibanaSavedObjectMeta.searchSourceJSON.index'')])))])],
      obj_references = PList [
           PDict [
            (T ''name'', S ''kibanaSavedObjectMeta.searchSourceJSON.index''),
            (T ''type'', S ''index-pattern''),
            (T ''id'', S ''cdc-system-logs'')]]\<rparr>"

end
