(* ===== verification/Kibana_Figures.thy ===== *)
theory Kibana_Figures
  imports Kibana_Api
begin

text \<open>
  The four Vega-Lite figures of \<open>build_full_kibana_dashboard.py\<close>.
\<close>

definition fig1_spec :: pyval where
  "fig1_spec =
     PDict [
      (T ''$schema'', S ''https://vega.github.io/schema/vega-lite/v5.json''),
      (T ''description'', S ''Figure 1: Pipeline Ingestion Throughput Timeline''),
      (T ''width'', S ''container''),
      (T ''height'', S ''container''),
      (T ''padding'',
       PDict [(T ''top'', PInt 15), (T ''left'', PInt 15), (T ''right'', PInt 15), (T ''bottom'', PInt 15)]),
      (T ''autosize'', PDict [(T ''type'', S ''fit''), (T ''contains'', S ''padding'')]),
      (T ''data'', PDict [
        (T ''url'', PDict [
          (T ''%context%'', PBool True),
          (T ''%timefield%'', S ''@timestamp''),
          (T ''index'', S ''cdc-api-logs-*''),
          (T ''body'', PDict [
            (T ''size'', PInt 0),
            (T ''aggs'', PDict [
              (T ''timeline'', PDict [
                (T ''date_histogram'', PDict [(T ''field'', S ''@timestamp''), (T ''fixed_interval'', S ''1m'')])])])])]),
        (T ''format'', PDict [(T ''property'', S ''aggregations.timeline.buckets'')])]),
      (T ''layer'', PList [
        PDict [
         (T ''mark'', PDict [
           (T ''type'', S ''area''),
           (T ''color'', S ''#00bfb3''),
           (T ''opacity'', PFloat 2 1),
           (T ''interpolate'', S ''monotone'')]),
         (T ''encoding'', PDict [
           (T ''x'', PDict [(T ''field'', S ''key''), (T ''type'', S ''temporal'')]),
           (T ''y'', PDict [(T ''field'', S ''doc_count''), (T ''type'', S ''quantitative'')])])],
        PDict [
         (T ''mark'', PDict [
           (T ''type'', S ''line''),
           (T ''color'', S ''#00bfb3''),
           (T ''strokeWidth'', PFloat 25 1),
           (T ''point'', PDict [(T ''filled'', PBool True), (T ''fill'', S ''#00bfb3''), (T ''size'', PInt 35)]),
           (T ''interpolate'', S ''monotone'')]),
         (T ''encoding'', PDict [
           (T ''x'', PDict [
             (T ''field'', S ''key''),
             (T ''type'', S ''temporal''),
             (T ''title'', S ''Ingestion Timeline (UTC)''),
             (T ''axis'', PDict [
               (T ''grid'', PBool False),
               (T ''labelColor'', S ''#666''),
               (T ''titleColor'', S ''#444''),
               (T ''titleFontSize'', PInt 12)])]),
           (T ''y'', PDict [
             (T ''field'', S ''doc_count''),
             (T ''type'', S ''quantitative''),
             (T ''title'', S ''Throughput (Requests / min)''),
             (T ''axis'', PDict [
               (T ''grid'', PBool True),
               (T ''gridColor'', S ''#e5e5e5''),
               (T ''labelColor'', S ''#666''),
               (T ''titleColor'', S ''#444''),
               (T ''titleFontSize'', PInt 12)])]),
           (T ''tooltip'', PList [
             PDict [
              (T ''field'', S ''key_as_string''),
              (T ''type'', S ''nominal''),
              (T ''title'', S ''Time Window'')],
             PDict [
              (T ''field'', S ''doc_count''),
              (T ''type'', S ''quantitative''),
              (T ''title'', S ''Requests Ingested'')]])])]])]"

definition vis_figure1_throughput :: saved_object where
  "vis_figure1_throughput =
     \<lparr>obj_type = T ''visualization'', obj_id = T ''vis-figure1-throughput'',
      attributes = PDict [
        (T ''title'', S ''Figure 1: Pipeline Ingestion Throughput Timeline''),
        (T ''visState'', PStr (dumps (
          PDict [
           (T ''title'', S ''Figure 1: Pipeline Ingestion Throughput Timeline''),
           (T ''type'', S ''vega''),
           (T ''params'', PDict [(T ''spec'', PStr (dumps_indent 2 fig1_spec))])]))),
        (T ''uiStateJSON'', S ''{}''),
        (T ''kibanaSavedObjectMeta'', PDict [
          (T ''searchSourceJSON'', PStr (dumps (
            PDict [
             (T ''query'', PDict [(T ''query'', PStr []), (T ''language'', S ''kuery'')]),
             (T ''filter'', PList [])])))])],
      obj_references = PNone\<rparr>"

definition fig4_spec :: pyval where
  "fig4_spec =
     PDict [
      (T ''$schema'', S ''https://vega.github.io/schema/vega-lite/v5.json''),
      (T ''description'', S ''Figure 4: Consumer Fleet Event Processing Timeline''),
      (T ''width'', S ''container''),
      (T ''height'', S ''container''),
      (T ''padding'',
       PDict [(T ''top'', PInt 15), (T ''left'', PInt 15), (T ''right'', PInt 15), (T ''bottom'', PInt 15)]),
      (T ''autosize'', PDict [(T ''type'', S ''fit''), (T ''contains'', S ''padding'')]),
      (T ''data'', PDict [
        (T ''url'', PDict [
          (T ''%context%'', PBool True),
          (T ''%timefield%'', S ''@timestamp''),
          (T ''index'', S ''cdc-consumer-logs-*''),
          (T ''body'', PDict [
            (T ''size'', PInt 0),
            (T ''aggs'', PDict [
              (T ''timeline'', PDict [
                (T ''date_histogram'', PDict [(T ''field'', S ''@timestamp''), (T ''fixed_interval'', S ''1m'')])])])])]),
        (T ''format'', PDict [(T ''property'', S ''aggregations.timeline.buckets'')])]),
      (T ''layer'', PList [
        PDict [
         (T ''mark'', PDict [
           (T ''type'', S ''area''),
           (T ''color'', S ''#6f42c1''),
           (T ''opacity'', PFloat 2 1),
           (T ''interpolate'', S ''monotone'')]),
         (T ''encoding'', PDict [
           (T ''x'', PDict [(T ''field'', S ''key''), (T ''type'', S ''temporal'')]),
           (T ''y'', PDict [(T ''field'', S ''doc_count''), (T ''type'', S ''quantitative'')])])],
        PDict [
         (T ''mark'', PDict [
           (T ''type'', S ''line''),
           (T ''color'', S ''#6f42c1''),
           (T ''strokeWidth'', PFloat 25 1),
           (T ''point'', PDict [(T ''filled'', PBool True), (T ''fill'', S ''#6f42c1''), (T ''size'', PInt 35)]),
           (T ''interpolate'', S ''monotone'')]),
         (T ''encoding'', PDict [
           (T ''x'', PDict [
             (T ''field'', S ''key''),
             (T ''type'', S ''temporal''),
             (T ''title'', S ''Processing Timeline (UTC)''),
             (T ''axis'', PDict [
               (T ''grid'', PBool False),
               (T ''labelColor'', S ''#666''),
               (T ''titleColor'', S ''#444''),
               (T ''titleFontSize'', PInt 12)])]),
           (T ''y'', PDict [
             (T ''field'', S ''doc_count''),
             (T ''type'', S ''quantitative''),
             (T ''title'', S ''Consumer Events / min''),
             (T ''axis'', PDict [
               (T ''grid'', PBool True),
               (T ''gridColor'', S ''#e5e5e5''),
               (T ''labelColor'', S ''#666''),
               (T ''titleColor'', S ''#444''),
               (T ''titleFontSize'', PInt 12)])]),
           (T ''tooltip'', PList [
             PDict [
              (T ''field'', S ''key_as_string''),
              (T ''type'', S ''nominal''),
              (T ''title'', S ''Time Window'')],
             PDict [
              (T ''field'', S ''doc_count''),
              (T ''type'', S ''quantitative''),
              (T ''title'', S ''Consumer Events'')]])])]])]"

definition vis_figure4_consumer_throughput :: saved_object where
  "vis_figure4_consumer_throughput =
     \<lparr>obj_type = T ''visualization'', obj_id = T ''vis-figure4-consumer-throughput'',
      attributes = PDict [
        (T ''title'', S ''Figure 4: Consumer Fleet Processing Throughput Timeline''),
        (T ''visState'', PStr (dumps (
          PDict [
           (T ''title'', S ''Figure 4: Consumer Fleet Processing Throughput Timeline''),
           (T ''type'', S ''vega''),
           (T ''params'', PDict [(T ''spec'', PStr (dumps_indent 2 fig4_spec))])]))),
        (T ''uiStateJSON'', S ''{}''),
        (T ''kibanaSavedObjectMeta'', PDict [
          (T ''searchSourceJSON'', PStr (dumps (
            PDict [
             (T ''query'', PDict [(T ''query'', PStr []), (T ''language'', S ''kuery'')]),
             (T ''filter'', PList [])])))])],
      obj_references = PNone\<rparr>"

definition fig2_spec :: pyval where
  "fig2_spec =
     PDict [
      (T ''$schema'', S ''https://vega.github.io/schema/vega-lite/v5.json''),
      (T ''description'', S ''Figure 2: API Latency Percentile Spectrum''),
      (T ''width'', S ''container''),
      (T ''height'', S ''container''),
      (T ''padding'',
       PDict [(T ''top'', PInt 15), (T ''left'', PInt 15), (T ''right'', PInt 15), (T ''bottom'', PInt 15)]),
      (T ''autosize'', PDict [(T ''type'', S ''fit''), (T ''contains'', S ''padding'')]),
      (T ''data'', PDict [
        (T ''url'', PDict [
          (T ''%context%'', PBool True),
          (T ''%timefield%'', S ''@timestamp''),
          (T ''index'', S ''cdc-api-logs-*''),
          (T ''body'', PDict [
            (T ''size'', PInt 0),
            (T ''aggs'', PDict [
              (T ''lat_pct'', PDict [
                (T ''percentiles'', PDict [
                  (T ''field'', S ''latency_ms''),
                  (T ''percents'', PList [PInt 50, PInt 90, PInt 95, PInt 99]),
                  (T ''keyed'', PBool False)])])])])]),
        (T ''format'', PDict [(T ''property'', S ''aggregations.lat_pct.values'')])]),
      (T ''transform'', PList [
        PDict [
         (T ''calculate'', PStr (T ''datum.key == 50 ? '' @ [39] @ T ''P50 (Median)'' @ [39] @
            T '' : datum.key == 90 ? '' @ [39] @ T ''P90'' @ [39] @ T '' : datum.key == 95 ? '' @
            [39] @ T ''P95 (Tail)'' @ [39] @ T '' : '' @ [39] @ T ''P99 (Max SLA)'' @ [39])),
         (T ''as'', S ''percentile_label'')]]),
      (T ''layer'', PList [
        PDict [
         (T ''mark'', PDict [(T ''type'', S ''bar''), (T ''cornerRadiusEnd'', PInt 6), (T ''size'', PInt 45)]),
         (T ''encoding'', PDict [
           (T ''x'', PDict [
             (T ''field'', S ''percentile_label''),
             (T ''type'', S ''nominal''),
             (T ''sort'', PList [S ''P50 (Median)'', S ''P90'', S ''P95 (Tail)'', S ''P99 (Max SLA)'']),
             (T ''title'', S ''SLA Percentile Tier''),
             (T ''axis'',
              PDict [(T ''labelAngle'', PInt 0), (T ''labelFontSize'', PInt 12), (T ''titleFontSize'', PInt 12)])]),
           (T ''y'', PDict [
             (T ''field'', S ''value''),
             (T ''type'', S ''quantitative''),
             (T ''title'', S ''API Latency (ms)''),
             (T ''axis'',
              PDict [(T ''grid'', PBool True), (T ''gridColor'', S ''#e5e5e5''), (T ''titleFontSize'', PInt 12)])]),
           (T ''color'', PDict [
             (T ''field'', S ''percentile_label''),
             (T ''type'', S ''nominal''),
             (T ''scale'', PDict [
               (T ''domain'', PList [S ''P50 (Median)'', S ''P90'', S ''P95 (Tail)'', S ''P99 (Max SLA)'']),
               (T ''range'', PList [S ''#28a745'', S ''#ffc107'', S ''#fd7e14'', S ''#dc3545''])]),
             (T ''legend'', PDict [(T ''title'', S ''Percentile Tier'')])]),
           (T ''tooltip'', PList [
             PDict [(T ''field'', S ''percentile_label''), (T ''type'', S ''nominal''), (T ''title'', S ''Tier'')],
             PDict [
              (T ''field'', S ''value''),
              (T ''type'', S ''quantitative''),
              (T ''format'', S ''.2f''),
              (T ''title'', S ''Latency (ms)'')]])])],
        PDict [
         (T ''mark'', PDict [
           (T ''type'', S ''text''),
           (T ''dy'', PInt (-10)),
           (T ''fontSize'', PInt 12),
           (T ''fontWeight'', S ''bold'')]),
         (T ''encoding'', PDict [
           (T ''x'', PDict [
             (T ''field'', S ''percentile_label''),
             (T ''type'', S ''nominal''),
             (T ''sort'', PList [S ''P50 (Median)'', S ''P90'', S ''P95 (Tail)'', S ''P99 (Max SLA)''])]),
           (T ''y'', PDict [(T ''field'', S ''value''), (T ''type'', S ''quantitative'')]),
           (T ''text'',
            PDict [(T ''field'', S ''value''), (T ''type'', S ''quantitative''), (T ''format'', S ''.1f'')])])]])]"

definition vis_figure2_percentiles :: saved_object where
  "vis_figure2_percentiles =
     \<lparr>obj_type = T ''visualization'', obj_id = T ''vis-figure2-percentiles'',
      attributes = PDict [
        (T ''title'', S ''Figure 2: API Latency Percentile Spectrum''),
        (T ''visState'', PStr (dumps (
          PDict [
           (T ''title'', S ''Figure 2: API Latency Percentile Spectrum''),
           (T ''type'', S ''vega''),
           (T ''params'', PDict [(T ''spec'', PStr (dumps_indent 2 fig2_spec))])]))),
        (T ''uiStateJSON'', S ''{}''),
        (T ''kibanaSavedObjectMeta'', PDict [
          (T ''searchSourceJSON'', PStr (dumps (
            PDict [
             (T ''query'', PDict [(T ''query'', PStr []), (T ''language'', S ''kuery'')]),
             (T ''filter'', PList [])])))])],
      obj_references = PNone\<rparr>"

definition fig3_spec :: pyval where
  "fig3_spec =
     PDict [
      (T ''$schema'', S ''https://vega.github.io/schema/vega-lite/v5.json''),
      (T ''description'', S ''Figure 3: Dual-Storage Sink Latency Comparison''),
      (T ''width'', S ''container''),
      (T ''height'', S ''container''),
      (T ''padding'',
       PDict [(T ''top'', PInt 15), (T ''left'', PInt 15), (T ''right'', PInt 15), (T ''bottom'', PInt 15)]),
      (T ''autosize'', PDict [(T ''type'', S ''fit''), (T ''contains'', S ''padding'')]),
      (T ''data'', PDict [
        (T ''url'', PDict [
          (T ''%context%'', PBool True),
          (T ''%timefield%'', S ''@timestamp''),
          (T ''index'', S ''cdc-consumer-logs-*''),
          (T ''body'', PDict [
            (T ''size'', PInt 0),
            (T ''aggs'', PDict [
              (T ''by_sink'', PDict [
                (T ''terms'', PDict [
                  (T ''field'', S ''consumer.keyword''),
                  (T ''include'', PList [S ''RedisUpdater'', S ''ESIndexer''])]),
                (T ''aggs'',
                 PDict [(T ''avg_lat'', PDict [(T ''avg'', PDict [(T ''field'', S ''sink_latency_ms'')])])])])])])]),
        (T ''format'', PDict [(T ''property'', S ''aggregations.by_sink.buckets'')])]),
      (T ''transform'', PList [
        PDict [
         (T ''calculate'', PStr (T ''datum.key == '' @ [39] @ T ''RedisUpdater'' @ [39] @ T '' ? '' @ [39] @
            T ''Redis Hot Cache (Lua Upsert)'' @ [39] @ T '' : '' @ [39] @
            T ''Elasticsearch Inverted Index'' @ [39])),
         (T ''as'', S ''tier_label'')]]),
      (T ''layer'', PList [
        PDict [
         (T ''mark'', PDict [(T ''type'', S ''bar''), (T ''cornerRadiusEnd'', PInt 6), (T ''size'', PInt 60)]),
         (T ''encoding'', PDict [
           (T ''x'', PDict [
             (T ''field'', S ''tier_label''),
             (T ''type'', S ''nominal''),
             (T ''title'', S ''Storage Subsystem''),
             (T ''axis'',
              PDict [(T ''labelAngle'', PInt 0), (T ''labelFontSize'', PInt 12), (T ''titleFontSize'', PInt 12)])]),
           (T ''y'', PDict [
             (T ''field'', S ''avg_lat.value''),
             (T ''type'', S ''quantitative''),
             (T ''title'', S ''Average Sink Latency (ms)''),
             (T ''axis'',
              PDict [(T ''grid'', PBool True), (T ''gridColor'', S ''#e5e5e5''), (T ''titleFontSize'', PInt 12)])]),
           (T ''color'', PDict [
             (T ''field'', S ''tier_label''),
             (T ''type'', S ''nominal''),
             (T ''scale'', PDict [
               (T ''domain'', PList [S ''Redis Hot Cache (Lua Upsert)'', S ''Elasticsearch Inverted Index'']),
               (T ''range'', PList [S ''#00bfb3'', S ''#6f42c1''])]),
             (T ''legend'', PDict [(T ''title'', S ''Storage Tier'')])]),
           (T ''tooltip'', PList [
             PDict [(T ''field'', S ''tier_label''), (T ''type'', S ''nominal''), (T ''title'', S ''Engine'')],
             PDict [
              (T ''field'', S ''avg_lat.value''),
              (T ''type'', S ''quantitative''),
              (T ''format'', S ''.4f''),
              (T ''title'', S ''Avg Latency (ms)'')],
             PDict [
              (T ''field'', S ''doc_count''),
              (T ''type'', S ''quantitative''),
              (T ''title'', S ''Operations Count'')]])])],
        PDict [
         (T ''mark'', PDict [
           (T ''type'', S ''text''),
           (T ''dy'', PInt (-10)),
           (T ''fontSize'', PInt 13),
           (T ''fontWeight'', S ''bold'')]),
         (T ''encoding'', PDict [
           (T ''x'', PDict [(T ''field'', S ''tier_label''), (T ''type'', S ''nominal'')]),
           (T ''y'', PDict [(T ''field'', S ''avg_lat.value''), (T ''type'', S ''quantitative'')]),
           (T ''text'',
            PDict [(T ''field'', S ''avg_lat.value''), (T ''type'', S ''quantitative''), (T ''format'', S ''.3f'')])])]])]"

definition vis_figure3_dual_store :: saved_object where
  "vis_figure3_dual_store =
     \<lparr>obj_type = T ''visualization'', obj_id = T ''vis-figure3-dual-store'',
      attributes = PDict [
        (T ''title'', S ''Figure 3: Dual-Storage Write Latency Comparison''),
        (T ''visState'', PStr (dumps (
          PDict [
           (T ''title'', S ''Figure 3: Dual-Storage Write Latency Comparison''),
           (T ''type'', S ''vega''),
           (T ''params'', PDict [(T ''spec'', PStr (dumps_indent 2 fig3_spec))])]))),
        (T ''uiStateJSON'', S ''{}''),
        (T ''kibanaSavedObjectMeta'', PDict [
          (T ''searchSourceJSON'', PStr (dumps (
            PDict [
             (T ''query'', PDict [(T ''query'', PStr []), (T ''language'', S ''kuery'')]),
             (T ''filter'', PList [])])))])],
      obj_references = PNone\<rparr>"

end
