(* ===== verification/Kibana_Tables.thy ===== *)
theory Kibana_Tables
  imports Kibana_Api
begin

text \<open>
  The donut charts, the tables and the architecture panel of \<open>build_full_kibana_dashboard.py\<close>.
\<close>

definition vis_api_status_pie :: saved_object where
  "vis_api_status_pie =
     \<lparr>obj_type = T ''visualization'', obj_id = T ''vis-api-status-pie'',
      attributes = PDict [
        (T ''title'', S ''API Status Codes Distribution''),
        (T ''visState'', PStr (dumps (
          PDict [
           (T ''title'', S ''API Status Codes Distribution''),
           (T ''type'', S ''pie''),
           (T ''params'', PDict [
             (T ''type'', S ''pie''),
             (T ''addTooltip'', PBool True),
             (T ''addLegend'', PBool True),
             (T ''legendPosition'', S ''right''),
             (T ''isDonut'', PBool True)]),
           (T ''aggs'', PList [
             PDict [
              (T ''id'', S ''1''),
              (T ''enabled'', PBool True),
              (T ''type'', S ''count''),
              (T ''schema'', S ''metric'')],
             PDict [
              (T ''id'', S ''2''),
              (T ''enabled'', PBool True),
              (T ''type'', S ''terms''),
              (T ''schema'', S ''segment''),
              (T ''params'', PDict [(T ''field'', S ''status_code''), (T ''size'', PInt 5)])]])]))),
        (T ''uiStateJSON'', S ''{}''),
        (T ''kibanaSavedObjectMeta'', PDict [
          (T ''searchSourceJSON'', PStr (dumps (
            PDict [
             (T ''query'', PDict [(T ''query'', PStr []), (T ''language'', S ''kuery'')]),
             (T ''filter'', PList []),
             (T ''indexRefName'', S ''kibanaSavedObjectMeta.searchSourceJSON.index'')])))])],
      obj_references = PList [
           PDict [
            (T ''name'', S ''kibanaSavedObjectMeta.searchSourceJSON.index''),
            (T ''type'', S ''index-pattern''),
            (T ''id'', S ''cdc-api-logs'')]]\<rparr>"

definition vis_api_method_pie :: saved_object where
  "vis_api_method_pie =
     \<lparr>obj_type = T ''visualization'', obj_id = T ''vis-api-method-pie'',
      attributes = PDict [
        (T ''title'', S ''API HTTP Methods Mix''),
        (T ''visState'', PStr (dumps (
          PDict [
           (T ''title'', S ''API HTTP Methods Mix''),
           (T ''type'', S ''pie''),
           (T ''params'', PDict [
             (T ''type'', S ''pie''),
             (T ''addTooltip'', PBool True),
             (T ''addLegend'', PBool True),
             (T ''legendPosition'', S ''right''),
             (T ''isDonut'', PBool True)]),
           (T ''aggs'', PList [
             PDict [
              (T ''id'', S ''1''),
              (T ''enabled'', PBool True),
              (T ''type'', S ''count''),
              (T ''schema'', S ''metric'')],
             PDict [
              (T ''id'', S ''2''),
              (T ''enabled'', PBool True),
              (T ''type'', S ''terms''),
              (T ''schema'', S ''segment''),
              (T ''params'', PDict [(T ''field'', S ''method.keyword''), (T ''size'', PInt 5)])]])]))),
        (T ''uiStateJSON'', S ''{}''),
        (T ''kibanaSavedObjectMeta'', PDict [
          (T ''searchSourceJSON'', PStr (dumps (
            PDict [
             (T ''query'', PDict [(T ''query'', PStr []), (T ''language'', S ''kuery'')]),
             (T ''filter'', PList []),
             (T ''indexRefName'', S ''kibanaSavedObjectMeta.searchSourceJSON.index'')])))])],
      obj_references = PList [
           PDict [
            (T ''name'', S ''kibanaSavedObjectMeta.searchSourceJSON.index''),
            (T ''type'', S ''index-pattern''),
            (T ''id'', S ''cdc-api-logs'')]]\<rparr>"

definition vis_events_pie :: saved_object where
  "vis_events_pie =
     \<lparr>obj_type = T ''visualization'', obj_id = T ''vis-events-pie'',
      attributes = PDict [
        (T ''title'', S ''Consumer Events Distribution''),
        (T ''visState'', PStr (dumps (
          PDict [
           (T ''title'', S ''Consumer Events Distribution''),
           (T ''type'', S ''pie''),
           (T ''params'', PDict [
             (T ''type'', S ''pie''),
             (T ''addTooltip'', PBool True),
             (T ''addLegend'', PBool True),
             (T ''legendPosition'', S ''right''),
             (T ''isDonut'', PBool True)]),
           (T ''aggs'', PList [
             PDict [
              (T ''id'', S ''1''),
              (T ''enabled'', PBool True),
              (T ''type'', S ''count''),
              (T ''schema'', S ''metric'')],
             PDict [
              (T ''id'', S ''2''),
              (T ''enabled'', PBool True),
              (T ''type'', S ''terms''),
              (T ''schema'', S ''segment''),
              (T ''params'', PDict [(T ''field'', S ''event.keyword''), (T ''size'', PInt 5)])]])]))),
        (T ''uiStateJSON'', S ''{}''),
        (T ''kibanaSavedObjectMeta'', PDict [
          (T ''searchSourceJSON'', PStr (dumps (
            PDict [
             (T ''query'', PDict [
               (T ''query'', S ''consumer.keyword: (RedisUpdater or Notifier or ESIndexer)''),
               (T ''language'', S ''kuery'')]),
             (T ''filter'', PList []),
             (T ''indexRefName'', S ''kibanaSavedObjectMeta.searchSourceJSON.index'')])))])],
      obj_references = PList [
           PDict [
            (T ''name'', S ''kibanaSavedObjectMeta.searchSourceJSON.index''),
            (T ''type'', S ''index-pattern''),
            (T ''id'', S ''cdc-consumer-logs'')]]\<rparr>"

definition vis_system_severity_pie :: saved_object where
  "vis_system_severity_pie =
     \<lparr>obj_type = T ''visualization'', obj_id = T ''vis-system-severity-pie'',
      attributes = PDict [
        (T ''title'', S ''System Log Severity Distribution''),
        (T ''visState'', PStr (dumps (
          PDict [
           (T ''title'', S ''System Log Severity Distribution''),
           (T ''type'', S ''pie''),
           (T ''params'', PDict [
             (T ''type'', S ''pie''),
             (T ''addTooltip'', PBool True),
             (T ''addLegend'', PBool True),
             (T ''legendPosition'', S ''right''),
             (T ''isDonut'', PBool True)]),
           (T ''aggs'', PList [
             PDict [
              (T ''id'', S ''1''),
              (T ''enabled'', PBool True),
              (T ''type'', S ''count''),
              (T ''schema'', S ''metric'')],
             PDict [
              (T ''id'', S ''2''),
              (T ''enabled'', PBool True),
              (T ''type'', S ''terms''),
              (T ''schema'', S ''segment''),
              (T ''params'', PDict [(T ''field'', S ''level.keyword''), (T ''size'', PInt 5)])]])]))),
        (T ''uiStateJSON'', S ''{}''),
        (T ''kibanaSavedObjectMeta'', PDict [
          (T ''searchSourceJSON'', PStr (dumps (
            PDict [
             (T ''query'', PDict [(T ''query'', PStr []), (T ''language'', S ''kuery'')]),
             (T ''filter'', PList []),
             (T ''indexRefName'', S ''kibanaSavedObjectMeta.searchSourceJSON.index'')])))])],
      obj_references = PList [
           PDict [
            (T ''name'', S ''kibanaSavedObjectMeta.searchSourceJSON.index''),
            (T ''type'', S ''index-pattern''),
            (T ''id'', S ''cdc-system-logs'')]]\<rparr>"

definition vis_api_summary_table :: saved_object where
  "vis_api_summary_table =
     \<lparr>obj_type = T ''visualization'', obj_id = T ''vis-api-summary-table'',
      attributes = PDict [
        (T ''title'', S ''API Ingestion Performance Summary Table''),
        (T ''visState'', PStr (dumps (
          PDict [
           (T ''title'', S ''API Ingestion Performance Summary Table''),
           (T ''type'', S ''table''),
           (T ''params'', PDict [
             (T ''perPage'', PInt 10),
             (T ''showPartialRows'', PBool False),
             (T ''showMeticsAtAllLevels'', PBool False),
             (T ''sort'', PDict [(T ''columnIndex'', PNone), (T ''direction'', PNone)]),
             (T ''showTotal'', PBool True),
             (T ''totalFunc'', S ''sum'')]),
           (T ''aggs'', PList [
             PDict [
              (T ''id'', S ''1''),
              (T ''enabled'', PBool True),
              (T ''type'', S ''count''),
              (T ''schema'', S ''metric''),
              (T ''params'', PDict [(T ''customLabel'', S ''Total Requests'')])],
             PDict [
              (T ''id'', S ''2''),
              (T ''enabled'', PBool True),
              (T ''type'', S ''avg''),
              (T ''schema'', S ''metric''),
              (T ''params'', PDict [(T ''field'', S ''latency_ms''), (T ''customLabel'', S ''Avg Latency (ms)'')])],
             PDict [
              (T ''id'', S ''3''),
              (T ''enabled'', PBool True),
              (T ''type'', S ''terms''),
              (T ''schema'', S ''bucket''),
              (T ''params'', PDict [
                (T ''field'', S ''method.keyword''),
                (T ''size'', PInt 5),
                (T ''customLabel'', S ''HTTP Method'')])]])]))),
        (T ''uiStateJSON'', S ''{}''),
        (T ''kibanaSavedObjectMeta'', PDict [
          (T ''searchSourceJSON'', PStr (dumps (
            PDict [
             (T ''query'', PDict [(T ''query'', PStr []), (T ''language'', S ''kuery'')]),
             (T ''filter'', PList []),
             (T ''indexRefName'', S ''kibanaSavedObjectMeta.searchSourceJSON.index'')])))])],
      obj_references = PList [
           PDict [
            (T ''name'', S ''kibanaSavedObjectMeta.searchSourceJSON.index''),
            (T ''type'', S ''index-pattern''),
            (T ''id'', S ''cdc-api-logs'')]]\<rparr>"

definition vis_consumer_summary_table :: saved_object where
  "vis_consumer_summary_table =
     \<lparr>obj_type = T ''visualization'', obj_id = T ''vis-consumer-summary-table'',
      attributes = PDict [
        (T ''title'', S ''Consumer Sinks Latency & Throughput Table''),
        (T ''visState'', PStr (dumps (
          PDict [
           (T ''title'', S ''Consumer Sinks Latency & Throughput Table''),
           (T ''type'', S ''table''),
           (T ''params'', PDict [
             (T ''perPage'', PInt 10),
             (T ''showPartialRows'', PBool False),
             (T ''showMeticsAtAllLevels'', PBool False),
             (T ''sort'', PDict [(T ''columnIndex'', PNone), (T ''direction'', PNone)]),
             (T ''showTotal'', PBool True),
             (T ''totalFunc'', S ''sum'')]),
           (T ''aggs'', PList [
             PDict [
              (T ''id'', S ''1''),
              (T ''enabled'', PBool True),
              (T ''type'', S ''count''),
              (T ''schema'', S ''metric''),
              (T ''params'', PDict [(T ''customLabel'', S ''Processed Events'')])],
             PDict [
              (T ''id'', S ''2''),
              (T ''enabled'', PBool True),
              (T ''type'', S ''avg''),
              (T ''schema'', S ''metric''),
              (T ''params'',
               PDict [(T ''field'', S ''sink_latency_ms''), (T ''customLabel'', S ''Avg Sink Latency (ms)'')])],
             PDict [
              (T ''id'', S ''3''),
              (T ''enabled'', PBool True),
              (T ''type'', S ''terms''),
              (T ''schema'', S ''bucket''),
              (T ''params'', PDict [
                (T ''field'', S ''consumer.keyword''),
                (T ''size'', PInt 5),
                (T ''customLabel'', S ''Consumer Microservice'')])]])]))),
        (T ''uiStateJSON'', S ''{}''),
        (T ''kibanaSavedObjectMeta'', PDict [
          (T ''searchSourceJSON'', PStr (dumps (
            PDict [
             (T ''query'', PDict [
               (T ''query'', S ''consumer.keyword: (RedisUpdater or Notifier or ESIndexer)''),
               (T ''language'', S ''kuery'')]),
             (T ''filter'', PList []),
             (T ''indexRefName'', S ''kibanaSavedObjectMeta.searchSourceJSON.index'')])))])],
      obj_references = PList [
           PDict [
            (T ''name'', S ''kibanaSavedObjectMeta.searchSourceJSON.index''),
            (T ''type'', S ''index-pattern''),
            (T ''id'', S ''cdc-consumer-logs'')]]\<rparr>"

definition vis_api_detailed_table :: saved_object where
  "vis_api_detailed_table =
     \<lparr>obj_type = T ''visualization'', obj_id = T ''vis-api-detailed-table'',
      attributes = PDict [
        (T ''title'', S ''API Status & Latency Breakdown Table''),
        (T ''visState'', PStr (dumps (
          PDict [
           (T ''title'', S ''API Status & Latency Breakdown Table''),
           (T ''type'', S ''table''),
           (T ''params'', PDict [
             (T ''perPage'', PInt 10),
             (T ''showPartialRows'', PBool False),
             (T ''showMeticsAtAllLevels'', PBool False),
             (T ''sort'', PDict [(T ''columnIndex'', PNone), (T ''direction'', PNone)]),
             (T ''showTotal'', PBool True),
             (T ''totalFunc'', S ''sum'')]),
           (T ''aggs'', PList [
             PDict [
              (T ''id'', S ''1''),
              (T ''enabled'', PBool True),
              (T ''type'', S ''count''),
              (T ''schema'', S ''metric''),
              (T ''params'', PDict [(T ''customLabel'', S ''Count'')])],
             PDict [
              (T ''id'', S ''2''),
              (T ''enabled'', PBool True),
              (T ''type'', S ''avg''),
              (T ''schema'', S ''metric''),
              (T ''params'', PDict [(T ''field'', S ''latency_ms''), (T ''customLabel'', S ''Avg Latency (ms)'')])],
             PDict [
              (T ''id'', S ''3''),
              (T ''enabled'', PBool True),
              (T ''type'', S ''terms''),
              (T ''schema'', S ''bucket''),
              (T ''params'', PDict [
                (T ''field'', S ''status_code''),
                (T ''size'', PInt 10),
                (T ''customLabel'', S ''Status Code'')])],
             PDict [
              (T ''id'', S ''4''),
              (T ''enabled'', PBool True),
              (T ''type'', S ''terms''),
              (T ''schema'', S ''bucket''),
              (T ''params'',
               PDict [(T ''field'', S ''method.keyword''), (T ''size'', PInt 5), (T ''customLabel'', S ''Method'')])]])]))),
        (T ''uiStateJSON'', S ''{}''),
        (T ''kibanaSavedObjectMeta'', PDict [
          (T ''searchSourceJSON'', PStr (dumps (
            PDict [
             (T ''query'', PDict [(T ''query'', PStr []), (T ''language'', S ''kuery'')]),
             (T ''filter'', PList []),
             (T ''indexRefName'', S ''kibanaSavedObjectMeta.searchSourceJSON.index'')])))])],
      obj_references = PList [
           PDict [
            (T ''name'', S ''kibanaSavedObjectMeta.searchSourceJSON.index''),
            (T ''type'', S ''index-pattern''),
            (T ''id'', S ''cdc-api-logs'')]]\<rparr>"

definition vis_consumer_detailed_table :: saved_object where
  "vis_consumer_detailed_table =
     \<lparr>obj_type = T ''visualization'', obj_id = T ''vis-consumer-detailed-table'',
      attributes = PDict [
        (T ''title'', S ''Consumer Sinks Detailed Telemetry Table''),
        (T ''visState'', PStr (dumps (
          PDict [
           (T ''title'', S ''Consumer Sinks Detailed Telemetry Table''),
           (T ''type'', S ''table''),
           (T ''params'', PDict [
             (T ''perPage'', PInt 10),
             (T ''showPartialRows'', PBool False),
             (T ''showMeticsAtAllLevels'', PBool False),
             (T ''sort'', PDict [(T ''columnIndex'', PNone), (T ''direction'', PNone)]),
             (T ''showTotal'', PBool True),
             (T ''totalFunc'', S ''sum'')]),
           (T ''aggs'', PList [
             PDict [
              (T ''id'', S ''1''),
              (T ''enabled'', PBool True),
              (T ''type'', S ''count''),
              (T ''schema'', S ''metric''),
              (T ''params'', PDict [(T ''customLabel'', S ''Event Count'')])],
             PDict [
              (T ''id'', S ''2''),
              (T ''enabled'', PBool True),
              (T ''type'', S ''avg''),
              (T ''schema'', S ''metric''),
              (T ''params'',
               PDict [(T ''field'', S ''sink_latency_ms''), (T ''customLabel'', S ''Avg Sink Latency (ms)'')])],
             PDict [
              (T ''id'', S ''3''),
              (T ''enabled'', PBool True),
              (T ''type'', S ''terms''),
              (T ''schema'', S ''bucket''),
              (T ''params'', PDict [
                (T ''field'', S ''consumer.keyword''),
                (T ''size'', PInt 5),
                (T ''customLabel'', S ''Consumer'')])],
             PDict [
              (T ''id'', S ''4''),
              (T ''enabled'', PBool True),
              (T ''type'', S ''terms''),
              (T ''schema'', S ''bucket''),
              (T ''params'', PDict [
                (T ''field'', S ''event.keyword''),
                (T ''size'', PInt 5),
                (T ''customLabel'', S ''Event Type'')])]])]))),
        (T ''uiStateJSON'', S ''{}''),
        (T ''kibanaSavedObjectMeta'', PDict [
          (T ''searchSourceJSON'', PStr (dumps (
            PDict [
             (T ''query'', PDict [
               (T ''query'', S ''consumer.keyword: (RedisUpdater or Notifier or ESIndexer)''),
               (T ''language'', S ''kuery'')]),
             (T ''filter'', PList []),
             (T ''indexRefName'', S ''kibanaSavedObjectMeta.searchSourceJSON.index'')])))])],
      obj_references = PList [
           PDict [
            (T ''name'', S ''kibanaSavedObjectMeta.searchSourceJSON.index''),
            (T ''type'', S ''index-pattern''),
            (T ''id'', S ''cdc-consumer-logs'')]]\<rparr>"

definition arch_markdown :: pystr where
  "arch_markdown =
     T ''### '' @ [0x1f6e1, 0xfe0f] @
       T '' Distributed Systems Architecture & Reliability Verification'' @ [10] @
       T ''| Subsystem | Architectural Role | Measured Soak Test Result | SLA Verdict |'' @ [10] @
       T ''|---|---|---|:---:|'' @ [10] @
       T ''| **Client Ingestion** | Multi-threaded C++ load generator firing '' @ [96] @
       T ''POST'' @ [96] @ T '' & '' @ [96] @ T ''PATCH'' @ [96] @
       T '' orders | **1,024 req/sec peak**, 100.0% HTTP 200/201 | '' @ [0x1f7e2] @
       T '' **PASS** |'' @ [10] @ T ''| **Redis Hot Cache** | '' @ [96] @ T ''RedisUpdater'' @
       [96] @
       T '' consumer executing atomic Lua scripts with monotonic LSN guard | **Avg Latency: '' @
       T ''0.038 ms** (P99 < 1.5 ms), Lag = 0 | '' @ [0x1f7e2] @ T '' **PASS** |'' @ [10] @
       T ''| **Elasticsearch Index** | '' @ [96] @ T ''ESIndexer'' @ [96] @
       T '' consumer performing bulk indexing with exponential backoff | **Avg Latency: 26.78 '' @
       T ''ms**, 0 write dropouts | '' @ [0x1f7e2] @ T '' **PASS** |'' @ [10] @
       T ''| **Idempotency Guard** | Redis '' @ [96] @ T ''SET NX'' @ [96] @
       T '' idempotency key preventing duplicate notifications | **2,064 replays safely '' @
       T ''filtered**, zero duplicates | '' @ [0x1f7e2] @ T '' **PASS** |'' @ [10] @
       T ''| **Fault Tolerance** | Dead Letter Queue isolation routing malformed events to '' @
       [96] @ T ''dbserver1.public.orders.dlq'' @ [96] @
       T '' | **0 DLQ events**, 0.000% data loss | '' @ [0x1f7e2] @ T '' **PASS** |''"

definition vis_architecture_summary :: saved_object where
  "vis_architecture_summary =
     \<lparr>obj_type = T ''visualization'', obj_id = T ''vis-architecture-summary'',
      attributes = PDict [
        (T ''title'', S ''System Architecture & SLA Verification''),
        (T ''visState'', PStr (dumps (
          PDict [
           (T ''title'', S ''System Architecture & SLA Verification''),
           (T ''type'', S ''markdown''),
           (T ''params'', PDict [(T ''markdown'', PStr arch_markdown)])]))),
        (T ''uiStateJSON'', S ''{}''),
        (T ''kibanaSavedObjectMeta'', PDict [
          (T ''searchSourceJSON'', PStr (dumps (
            PDict [
             (T ''query'', PDict [(T ''query'', PStr []), (T ''language'', S ''kuery'')]),
             (T ''filter'', PList [])])))])],
      obj_references = PNone\<rparr>"

end
