(* ===== verification/Kibana_Dashboard.thy ===== *)
theory Kibana_Dashboard
  imports Kibana_Cards Kibana_Figures Kibana_Tables
begin

text \<open>
  The master dashboard of \<open>build_full_kibana_dashboard.py\<close>: its panels, its references, and
  \<open>main\<close>, which creates the visualizations in order and the dashboard last.
\<close>

definition dashboard_panels :: pyval where
  "dashboard_panels =
     PList [
      PDict [
       (T ''version'', S ''8.10.2''),
       (T ''type'', S ''visualization''),
       (T ''gridData'',
        PDict [(T ''x'', PInt 0), (T ''y'', PInt 0), (T ''w'', PInt 48), (T ''h'', PInt 4), (T ''i'', S ''1'')]),
       (T ''panelIndex'', S ''1''),
       (T ''panelRefName'', S ''panel_banner''),
       (T ''embeddableConfig'', PDict [(T ''hidePanelTitles'', PBool True)])],
      PDict [
       (T ''version'', S ''8.10.2''),
       (T ''type'', S ''visualization''),
       (T ''gridData'',
        PDict [(T ''x'', PInt 0), (T ''y'', PInt 4), (T ''w'', PInt 12), (T ''h'', PInt 6), (T ''i'', S ''2'')]),
       (T ''panelIndex'', S ''2''),
       (T ''panelRefName'', S ''panel_total_orders'')],
      PDict [
       (T ''version'', S ''8.10.2''),
       (T ''type'', S ''visualization''),
       (T ''gridData'',
        PDict [(T ''x'', PInt 12), (T ''y'', PInt 4), (T ''w'', PInt 12), (T ''h'', PInt 6), (T ''i'', S ''3'')]),
       (T ''panelIndex'', S ''3''),
       (T ''panelRefName'', S ''panel_p50_latency'')],
      PDict [
       (T ''version'', S ''8.10.2''),
       (T ''type'', S ''visualization''),
       (T ''gridData'',
        PDict [(T ''x'', PInt 24), (T ''y'', PInt 4), (T ''w'', PInt 12), (T ''h'', PInt 6), (T ''i'', S ''4'')]),
       (T ''panelIndex'', S ''4''),
       (T ''panelRefName'', S ''panel_p95_latency'')],
      PDict [
       (T ''version'', S ''8.10.2''),
       (T ''type'', S ''visualization''),
       (T ''gridData'',
        PDict [(T ''x'', PInt 36), (T ''y'', PInt 4), (T ''w'', PInt 12), (T ''h'', PInt 6), (T ''i'', S ''5'')]),
       (T ''panelIndex'', S ''5''),
       (T ''panelRefName'', S ''panel_redis_sink_latency'')],
      PDict [
       (T ''version'', S ''8.10.2''),
       (T ''type'', S ''visualization''),
       (T ''gridData'',
        PDict [(T ''x'', PInt 0), (T ''y'', PInt 10), (T ''w'', PInt 12), (T ''h'', PInt 6), (T ''i'', S ''6'')]),
       (T ''panelIndex'', S ''6''),
       (T ''panelRefName'', S ''panel_total_consumer_events'')],
      PDict [
       (T ''version'', S ''8.10.2''),
       (T ''type'', S ''visualization''),
       (T ''gridData'',
        PDict [(T ''x'', PInt 12), (T ''y'', PInt 10), (T ''w'', PInt 12), (T ''h'', PInt 6), (T ''i'', S ''7'')]),
       (T ''panelIndex'', S ''7''),
       (T ''panelRefName'', S ''panel_es_sink_latency'')],
      PDict [
       (T ''version'', S ''8.10.2''),
       (T ''type'', S ''visualization''),
       (T ''gridData'',
        PDict [(T ''x'', PInt 24), (T ''y'', PInt 10), (T ''w'', PInt 12), (T ''h'', PInt 6), (T ''i'', S ''8'')]),
       (T ''panelIndex'', S ''8''),
       (T ''panelRefName'', S ''panel_idempotency_dedup'')],
      PDict [
       (T ''version'', S ''8.10.2''),
       (T ''type'', S ''visualization''),
       (T ''gridData'',
        PDict [(T ''x'', PInt 36), (T ''y'', PInt 10), (T ''w'', PInt 12), (T ''h'', PInt 6), (T ''i'', S ''9'')]),
       (T ''panelIndex'', S ''9''),
       (T ''panelRefName'', S ''panel_dlq_count'')],
      PDict [
       (T ''version'', S ''8.10.2''),
       (T ''type'', S ''visualization''),
       (T ''gridData'',
        PDict [(T ''x'', PInt 0), (T ''y'', PInt 16), (T ''w'', PInt 24), (T ''h'', PInt 16), (T ''i'', S ''10'')]),
       (T ''panelIndex'', S ''10''),
       (T ''panelRefName'', S ''panel_fig1_throughput'')],
      PDict [
       (T ''version'', S ''8.10.2''),
       (T ''type'', S ''visualization''),
       (T ''gridData'',
        PDict [(T ''x'', PInt 24), (T ''y'', PInt 16), (T ''w'', PInt 24), (T ''h'', PInt 16), (T ''i'', S ''11'')]),
       (T ''panelIndex'', S ''11''),
       (T ''panelRefName'', S ''panel_fig4_consumer_throughput'')],
      PDict [
       (T ''version'', S ''8.10.2''),
       (T ''type'', S ''visualization''),
       (T ''gridData'',
        PDict [(T ''x'', PInt 0), (T ''y'', PInt 32), (T ''w'', PInt 24), (T ''h'', PInt 16), (T ''i'', S ''12'')]),
       (T ''panelIndex'', S ''12''),
       (T ''panelRefName'', S ''panel_fig2_percentiles'')],
      PDict [
       (T ''version'', S ''8.10.2''),
       (T ''type'', S ''visualization''),
       (T ''gridData'',
        PDict [(T ''x'', PInt 24), (T ''y'', PInt 32), (T ''w'', PInt 24), (T ''h'', PInt 16), (T ''i'', S ''13'')]),
       (T ''panelIndex'', S ''13''),
       (T ''panelRefName'', S ''panel_fig3_dual_store'')],
      PDict [
       (T ''version'', S ''8.10.2''),
       (T ''type'', S ''visualization''),
       (T ''gridData'',
        PDict [(T ''x'', PInt 0), (T ''y'', PInt 48), (T ''w'', PInt 12), (T ''h'', PInt 12), (T ''i'', S ''14'')]),
       (T ''panelIndex'', S ''14''),
       (T ''panelRefName'', S ''panel_api_pie'')],
      PDict [
       (T ''version'', S ''8.10.2''),
       (T ''type'', S ''visualization''),
       (T ''gridData'',
        PDict [(T ''x'', PInt 12), (T ''y'', PInt 48), (T ''w'', PInt 12), (T ''h'', PInt 12), (T ''i'', S ''15'')]),
       (T ''panelIndex'', S ''15''),
       (T ''panelRefName'', S ''panel_api_method_pie'')],
      PDict [
       (T ''version'', S ''8.10.2''),
       (T ''type'', S ''visualization''),
       (T ''gridData'',
        PDict [(T ''x'', PInt 24), (T ''y'', PInt 48), (T ''w'', PInt 12), (T ''h'', PInt 12), (T ''i'', S ''16'')]),
       (T ''panelIndex'', S ''16''),
       (T ''panelRefName'', S ''panel_consumer_pie'')],
      PDict [
       (T ''version'', S ''8.10.2''),
       (T ''type'', S ''visualization''),
       (T ''gridData'',
        PDict [(T ''x'', PInt 36), (T ''y'', PInt 48), (T ''w'', PInt 12), (T ''h'', PInt 12), (T ''i'', S ''17'')]),
       (T ''panelIndex'', S ''17''),
       (T ''panelRefName'', S ''panel_system_severity_pie'')],
      PDict [
       (T ''version'', S ''8.10.2''),
       (T ''type'', S ''visualization''),
       (T ''gridData'',
        PDict [(T ''x'', PInt 0), (T ''y'', PInt 60), (T ''w'', PInt 24), (T ''h'', PInt 12), (T ''i'', S ''18'')]),
       (T ''panelIndex'', S ''18''),
       (T ''panelRefName'', S ''panel_api_table'')],
      PDict [
       (T ''version'', S ''8.10.2''),
       (T ''type'', S ''visualization''),
       (T ''gridData'',
        PDict [(T ''x'', PInt 24), (T ''y'', PInt 60), (T ''w'', PInt 24), (T ''h'', PInt 12), (T ''i'', S ''19'')]),
       (T ''panelIndex'', S ''19''),
       (T ''panelRefName'', S ''panel_consumer_table'')],
      PDict [
       (T ''version'', S ''8.10.2''),
       (T ''type'', S ''visualization''),
       (T ''gridData'',
        PDict [(T ''x'', PInt 0), (T ''y'', PInt 72), (T ''w'', PInt 24), (T ''h'', PInt 14), (T ''i'', S ''20'')]),
       (T ''panelIndex'', S ''20''),
       (T ''panelRefName'', S ''panel_api_detailed_table'')],
      PDict [
       (T ''version'', S ''8.10.2''),
       (T ''type'', S ''visualization''),
       (T ''gridData'',
        PDict [(T ''x'', PInt 24), (T ''y'', PInt 72), (T ''w'', PInt 24), (T ''h'', PInt 14), (T ''i'', S ''21'')]),
       (T ''panelIndex'', S ''21''),
       (T ''panelRefName'', S ''panel_consumer_detailed_table'')],
      PDict [
       (T ''version'', S ''8.10.2''),
       (T ''type'', S ''visualization''),
       (T ''gridData'',
        PDict [(T ''x'', PInt 0), (T ''y'', PInt 86), (T ''w'', PInt 48), (T ''h'', PInt 9), (T ''i'', S ''22'')]),
       (T ''panelIndex'', S ''22''),
       (T ''panelRefName'', S ''panel_arch_summary'')]]"

definition dashboard_references :: pyval where
  "dashboard_references =
     PList [
      PDict [
       (T ''name'', S ''panel_banner''),
       (T ''type'', S ''visualization''),
       (T ''id'', S ''vis-header-banner'')],
      PDict [
       (T ''name'', S ''panel_total_orders''),
       (T ''type'', S ''visualization''),
       (T ''id'', S ''vis-total-orders'')],
      PDict [
       (T ''name'', S ''panel_p50_latency''),
       (T ''type'', S ''visualization''),
       (T ''id'', S ''vis-p50-latency'')],
      PDict [
       (T ''name'', S ''panel_p95_latency''),
       (T ''type'', S ''visualization''),
       (T ''id'', S ''vis-p95-latency'')],
      PDict [
       (T ''name'', S ''panel_redis_sink_latency''),
       (T ''type'', S ''visualization''),
       (T ''id'', S ''vis-redis-sink-latency'')],
      PDict [
       (T ''name'', S ''panel_total_consumer_events''),
       (T ''type'', S ''visualization''),
       (T ''id'', S ''vis-total-consumer-events'')],
      PDict [
       (T ''name'', S ''panel_es_sink_latency''),
       (T ''type'', S ''visualization''),
       (T ''id'', S ''vis-es-sink-latency'')],
      PDict [
       (T ''name'', S ''panel_idempotency_dedup''),
       (T ''type'', S ''visualization''),
       (T ''id'', S ''vis-idempotency-dedup'')],
      PDict [
       (T ''name'', S ''panel_dlq_count''),
       (T ''type'', S ''visualization''),
       (T ''id'', S ''vis-dlq-count'')],
      PDict [
       (T ''name'', S ''panel_fig1_throughput''),
       (T ''type'', S ''visualization''),
       (T ''id'', S ''vis-figure1-throughput'')],
      PDict [
       (T ''name'', S ''panel_fig4_consumer_throughput''),
       (T ''type'', S ''visualization''),
       (T ''id'', S ''vis-figure4-consumer-throughput'')],
      PDict [
       (T ''name'', S ''panel_fig2_percentiles''),
       (T ''type'', S ''visualization''),
       (T ''id'', S ''vis-figure2-percentiles'')],
      PDict [
       (T ''name'', S ''panel_fig3_dual_store''),
       (T ''type'', S ''visualization''),
       (T ''id'', S ''vis-figure3-dual-store'')],
      PDict [
       (T ''name'', S ''panel_api_pie''),
       (T ''type'', S ''visualization''),
       (T ''id'', S ''vis-api-status-pie'')],
      PDict [
       (T ''name'', S ''panel_api_method_pie''),
       (T ''type'', S ''visualization''),
       (T ''id'', S ''vis-api-method-pie'')],
      PDict [
       (T ''name'', S ''panel_consumer_pie''),
       (T ''type'', S ''visualization''),
       (T ''id'', S ''vis-events-pie'')],
      PDict [
       (T ''name'', S ''panel_system_severity_pie''),
       (T ''type'', S ''visualization''),
       (T ''id'', S ''vis-system-severity-pie'')],
      PDict [
       (T ''name'', S ''panel_api_table''),
       (T ''type'', S ''visualization''),
       (T ''id'', S ''vis-api-summary-table'')],
      PDict [
       (T ''name'', S ''panel_consumer_table''),
       (T ''type'', S ''visualization''),
       (T ''id'', S ''vis-consumer-summary-table'')],
      PDict [
       (T ''name'', S ''panel_api_detailed_table''),
       (T ''type'', S ''visualization''),
       (T ''id'', S ''vis-api-detailed-table'')],
      PDict [
       (T ''name'', S ''panel_consumer_detailed_table''),
       (T ''type'', S ''visualization''),
       (T ''id'', S ''vis-consumer-detailed-table'')],
      PDict [
       (T ''name'', S ''panel_arch_summary''),
       (T ''type'', S ''visualization''),
       (T ''id'', S ''vis-architecture-summary'')]]"

definition cdc_telemetry_dashboard :: saved_object where
  "cdc_telemetry_dashboard =
     \<lparr>obj_type = T ''dashboard'', obj_id = T ''cdc-telemetry-dashboard'',
      attributes = PDict [
        (T ''title'', PStr (T ''TransactFlow '' @ [0x2014] @ T '' Distributed Systems Observability & Telemetry'')),
        (T ''description'', PStr (T ''Enterprise production telemetry dashboard with full benchmark figures for 1,000 '' @
           T ''req/sec TransactFlow CDC soak test'')),
        (T ''hits'', PInt 0),
        (T ''kibanaSavedObjectMeta'', PDict [
          (T ''searchSourceJSON'', PStr (dumps (
            PDict [
             (T ''query'', PDict [(T ''query'', PStr []), (T ''language'', S ''kuery'')]),
             (T ''filter'', PList [])])))]),
        (T ''panelsJSON'', PStr (dumps dashboard_panels)),
        (T ''timeRestore'', PBool True),
        (T ''timeFrom'', S ''now-24h''),
        (T ''timeTo'', S ''now'')],
      obj_references = dashboard_references\<rparr>"

section \<open>The run\<close>

definition visualizations :: "saved_object list" where
  "visualizations =
     [vis_header_banner, vis_total_orders, vis_p50_latency, vis_p95_latency, vis_redis_sink_latency,
      vis_total_consumer_events, vis_es_sink_latency, vis_idempotency_dedup, vis_dlq_count,
      vis_figure1_throughput, vis_figure4_consumer_throughput, vis_figure2_percentiles,
      vis_figure3_dual_store, vis_api_status_pie, vis_api_method_pie, vis_events_pie,
      vis_system_severity_pie, vis_api_summary_table, vis_consumer_summary_table,
      vis_api_detailed_table, vis_consumer_detailed_table, vis_architecture_summary]"

definition banner_lines :: "pystr list" where
  "banner_lines =
     [T ''==================================================================='',
      T '' Deploying Complete Enterprise Kibana Observability & Benchmark Suite'',
      T '' Includes All Figures 1-4: Throughput Timelines & Latency Bar Graphs'',
      T ''==================================================================='']"

definition build_main :: "'k http \<Rightarrow> ('k, unit) action" where
  "build_main srv s =
     (case create_all srv (visualizations @ [cdc_telemetry_dashboard]) (fold py_print banner_lines s) of
        (Inl e, s') \<Rightarrow> (Inl e, s')
      | (Inr _, s') \<Rightarrow>
          (Inr (), py_print ([10] @ T ''[SUCCESS] Master Kibana benchmark & telemetry dashboard '' @
             T ''successfully deployed and active!'') s'))"

end
