(* ===== verification/Grid_Tiling.thy ===== *)
theory Grid_Tiling
  imports Main
begin

text \<open>
  Rectangles on an integer grid: rectangles that lie in a box, overlap nowhere and have together
  the box's area cover every cell of the box exactly once.
\<close>

type_synonym rect = "int \<times> int \<times> int \<times> int"

definition covers :: "rect \<Rightarrow> int \<times> int \<Rightarrow> bool" where
  "covers r c = (case (r, c) of ((x, y, w, h), (cx, cy)) \<Rightarrow> x \<le> cx \<and> cx < x + w \<and> y \<le> cy \<and> cy < y + h)"

definition cells :: "rect \<Rightarrow> (int \<times> int) set" where
  "cells r = (case r of (x, y, w, h) \<Rightarrow> {x..<x + w} \<times> {y..<y + h})"

definition inside :: "int \<Rightarrow> int \<Rightarrow> rect \<Rightarrow> bool" where
  "inside width height r =
     (case r of (x, y, w, h) \<Rightarrow> 0 \<le> x \<and> 0 \<le> y \<and> 0 \<le> w \<and> 0 \<le> h \<and> x + w \<le> width \<and> y + h \<le> height)"

definition separate :: "rect \<Rightarrow> rect \<Rightarrow> bool" where
  "separate r s = (case (r, s) of ((x, y, w, h), (x', y', w', h')) \<Rightarrow>
     x + w \<le> x' \<or> x' + w' \<le> x \<or> y + h \<le> y' \<or> y' + h' \<le> y)"

fun all_separate :: "rect list \<Rightarrow> bool" where
  "all_separate [] \<longleftrightarrow> True"
| "all_separate (r # rs) \<longleftrightarrow> list_all (separate r) rs \<and> all_separate rs"

definition area :: "rect \<Rightarrow> int" where
  "area r = (case r of (x, y, w, h) \<Rightarrow> w * h)"

definition tiles :: "int \<Rightarrow> int \<Rightarrow> rect list \<Rightarrow> bool" where
  "tiles width height rs \<longleftrightarrow>
     list_all (inside width height) rs \<and> all_separate rs \<and> sum_list (map area rs) = width * height"

lemma mem_cells: "c \<in> cells r \<longleftrightarrow> covers r c"
  by (auto simp: cells_def covers_def split: prod.splits)

lemma finite_cells [simp]: "finite (cells r)"
  by (auto simp: cells_def split: prod.splits)

lemma card_cells: "inside width height r \<Longrightarrow> int (card (cells r)) = area r"
  by (auto simp: cells_def inside_def area_def split: prod.splits)

lemma separate_cells: "separate r s \<Longrightarrow> cells r \<inter> cells s = {}"
  by (auto simp: separate_def cells_def split: prod.splits)

lemma separate_union: "all_separate (r # rs) \<Longrightarrow> cells r \<inter> \<Union> (cells ` set rs) = {}"
  using separate_cells by (fastforce simp: list_all_iff)

lemma card_union_cells:
  "list_all (inside width height) rs \<Longrightarrow> all_separate rs \<Longrightarrow>
   int (card (\<Union> (cells ` set rs))) = sum_list (map area rs)"
proof (induction rs)
  case (Cons r rs)
  have "card (cells r \<union> \<Union> (cells ` set rs)) = card (cells r) + card (\<Union> (cells ` set rs))"
    using separate_union [OF Cons.prems(2)] by (intro card_Un_disjoint) auto
  with Cons card_cells [of width height r] show ?case by simp
qed simp

lemma covers_once:
  "all_separate rs \<Longrightarrow> length (filter (\<lambda>r. covers r c) rs) \<le> 1"
proof (induction rs)
  case (Cons r rs)
  show ?case
  proof (cases "covers r c")
    case True
    then have "\<forall>s \<in> set rs. \<not> covers s c"
      using separate_union [OF Cons.prems] by (auto simp: mem_cells [symmetric])
    then show ?thesis by (simp add: filter_empty_conv)
  qed (use Cons in simp)
qed simp

theorem tiles_exactly_once:
  assumes "tiles width height rs" "0 \<le> cx" "cx < width" "0 \<le> cy" "cy < height"
  shows "length (filter (\<lambda>r. covers r (cx, cy)) rs) = 1"
proof -
  let ?box = "{0..<width} \<times> {0..<height}"
  let ?U = "\<Union> (cells ` set rs)"
  have ins: "list_all (inside width height) rs" and sep: "all_separate rs"
    and ar: "sum_list (map area rs) = width * height" using assms(1) by (auto simp: tiles_def)
  have "?U \<subseteq> ?box" using ins by (force simp: list_all_iff inside_def cells_def split: prod.splits)
  moreover have "int (card ?U) = int (card ?box)"
    using card_union_cells [OF ins sep] ar assms(2-5) by (simp add: card_cartesian_product)
  then have "card ?U = card ?box" by (rule of_nat_eq_iff [THEN iffD1])
  ultimately have "?U = ?box" by (intro card_subset_eq) auto
  then have "(cx, cy) \<in> ?U" using assms(2-5) by auto
  then have "filter (\<lambda>r. covers r (cx, cy)) rs \<noteq> []" by (auto simp: filter_empty_conv mem_cells)
  with covers_once [OF sep, of "(cx, cy)"] show ?thesis
    by (cases "filter (\<lambda>r. covers r (cx, cy)) rs") auto
qed

end
