(* ===== verification/Kibana_Checks.thy ===== *)
theory Kibana_Checks
  imports Kibana_Dashboard Grid_Tiling Log_Routing
begin

text \<open>
  What Kibana reads from the requests of \<open>build_full_kibana_dashboard.py\<close>: every body decodes to
  the payload it was built from, nested JSON texts included; the panels tile the dashboard's grid;
  every panel resolves to a visualization created earlier in the same run; every visualization's
  data source is a data view \<open>setup_kibana.py\<close> creates.
\<close>

section \<open>Reading decoded values\<close>

definition elements :: "pyval \<Rightarrow> pyval list" where
  "elements v = (case v of PList xs \<Rightarrow> xs | _ \<Rightarrow> [])"

definition str_item :: "pystr \<Rightarrow> pyval \<Rightarrow> pystr option" where
  "str_item k v = (case item k v of Some (PStr t) \<Rightarrow> Some t | _ \<Rightarrow> None)"

definition int_item :: "pystr \<Rightarrow> pyval \<Rightarrow> int option" where
  "int_item k v = (case item k v of Some (PInt i) \<Rightarrow> Some i | _ \<Rightarrow> None)"

text \<open>A text attribute of a request's body, itself JSON, decoded.\<close>

definition attribute_of :: "request \<Rightarrow> pystr \<Rightarrow> pyval option" where
  "attribute_of req k = (case loads (r_body req) of
     None \<Rightarrow> None
   | Some payload \<Rightarrow> (case item (T ''attributes'') payload of None \<Rightarrow> None | Some a \<Rightarrow> item k a))"

definition nested_json :: "pyval option \<Rightarrow> pyval option" where
  "nested_json v = (case v of Some (PStr t) \<Rightarrow> loads t | _ \<Rightarrow> None)"

definition references_of :: "request \<Rightarrow> pyval list" where
  "references_of req = (case loads (r_body req) of
     None \<Rightarrow> []
   | Some payload \<Rightarrow> (case item (T ''references'') payload of None \<Rightarrow> [] | Some r \<Rightarrow> elements r))"

lemma item_simps [simp]:
  "item k (PDict []) = None" "item k (PDict ((k', v) # ms)) = (if k' = k then Some v else item k (PDict ms))"
  by (auto simp: item_def)

lemma elements_simps [simp]: "elements (PList xs) = xs"
  by (simp add: elements_def)

section \<open>Every body is well-formed\<close>

lemmas visualization_defs =
  vis_header_banner_def vis_total_orders_def vis_p50_latency_def vis_p95_latency_def
  vis_redis_sink_latency_def vis_total_consumer_events_def vis_es_sink_latency_def
  vis_idempotency_dedup_def vis_dlq_count_def vis_figure1_throughput_def
  vis_figure4_consumer_throughput_def vis_figure2_percentiles_def vis_figure3_dual_store_def
  vis_api_status_pie_def vis_api_method_pie_def vis_events_pie_def vis_system_severity_pie_def
  vis_api_summary_table_def vis_consumer_summary_table_def vis_api_detailed_table_def
  vis_consumer_detailed_table_def vis_architecture_summary_def

definition wf_object :: "saved_object \<Rightarrow> bool" where
  "wf_object ob \<longleftrightarrow> wf_val (saved_object_payload ob)"

lemma wf_object_iff:
  "wf_object ob \<longleftrightarrow> wf_val (attributes ob) \<and> (truthy (obj_references ob) \<longrightarrow> wf_val (obj_references ob))"
  by (auto simp: wf_object_def saved_object_payload_def)

text \<open>Rules that decide well-formedness of a literal by walking over it.\<close>

lemma wf_literals:
  "wf_val (PDict []) \<longleftrightarrow> True"
  "wf_val (PDict ((k, v) # ms)) \<longleftrightarrow> list_all scalar k \<and> wf_val v \<and> k \<notin> fst ` set ms \<and> wf_val (PDict ms)"
  "wf_val (PList []) \<longleftrightarrow> True"
  "wf_val (PList (x # xs)) \<longleftrightarrow> wf_val x \<and> wf_val (PList xs)"
  "wf_val (PStr []) \<longleftrightarrow> True" "wf_val (S s) \<longleftrightarrow> True"
  "wf_val PNone \<longleftrightarrow> True" "wf_val (PBool b) \<longleftrightarrow> True" "wf_val (PInt i) \<longleftrightarrow> True"
  "list_all scalar (ascii s) \<longleftrightarrow> True"
  "k \<notin> fst ` set [] \<longleftrightarrow> True" "k \<notin> fst ` set ((k', v) # ms) \<longleftrightarrow> k \<noteq> k' \<and> k \<notin> fst ` set ms"
  "ascii s \<noteq> ascii t \<longleftrightarrow> s \<noteq> t"
  by auto

lemma wf_nested:
  "wf_val v \<Longrightarrow> wf_val (PStr (dumps v)) \<longleftrightarrow> True" "wf_val v \<Longrightarrow> wf_val (PStr (dumps_indent w v)) \<longleftrightarrow> True"
  by simp_all

lemma wf_float: "wf_val (PFloat m k) \<longleftrightarrow> 1 \<le> k \<and> (k = 1 \<or> m mod 10 \<noteq> 0)"
  by simp

lemma truthy_lists: "truthy (PList (x # xs)) \<longleftrightarrow> True" "truthy PNone \<longleftrightarrow> False"
  by (simp_all add: truthy_def)

lemmas wf_rules = wf_literals wf_nested wf_object_iff truthy_lists simp_thms list.inject list.distinct
  char.inject saved_object.simps

lemma wf_markdown: "wf_val (PStr banner_markdown)" "wf_val (PStr arch_markdown)"
  by (simp_all add: banner_markdown_def arch_markdown_def scalar_def)

lemma wf_metric: "wf_val (get_metric_params label n)"
  by (simp only: get_metric_params_def wf_rules)

lemma wf_specs: "wf_val fig1_spec" "wf_val fig2_spec" "wf_val fig3_spec" "wf_val fig4_spec"
proof -
  have "wf_val (PFloat 2 1)" "wf_val (PFloat 25 1)" by simp_all
  note fl = this
  show "wf_val fig1_spec" by (simp only: fig1_spec_def wf_rules fl)
  show "wf_val fig2_spec" by (simp only: fig2_spec_def wf_rules; simp add: scalar_def)
  show "wf_val fig3_spec" by (simp only: fig3_spec_def wf_rules; simp add: scalar_def)
  show "wf_val fig4_spec" by (simp only: fig4_spec_def wf_rules fl)
qed

lemma wf_cards: "list_all wf_object [vis_header_banner, vis_total_orders, vis_p50_latency, vis_p95_latency,
    vis_redis_sink_latency, vis_total_consumer_events, vis_es_sink_latency, vis_idempotency_dedup, vis_dlq_count]"
  by (simp only: list.pred_inject wf_rules wf_metric wf_markdown
      vis_header_banner_def vis_total_orders_def vis_p50_latency_def vis_p95_latency_def
      vis_redis_sink_latency_def vis_total_consumer_events_def vis_es_sink_latency_def
      vis_idempotency_dedup_def vis_dlq_count_def)

lemma wf_figures: "list_all wf_object [vis_figure1_throughput, vis_figure4_consumer_throughput,
    vis_figure2_percentiles, vis_figure3_dual_store]"
  by (simp only: list.pred_inject wf_rules wf_specs vis_figure1_throughput_def vis_figure2_percentiles_def
      vis_figure3_dual_store_def vis_figure4_consumer_throughput_def)

lemma wf_tables: "list_all wf_object [vis_api_status_pie, vis_api_method_pie, vis_events_pie,
    vis_system_severity_pie, vis_api_summary_table, vis_consumer_summary_table,
    vis_api_detailed_table, vis_consumer_detailed_table, vis_architecture_summary]"
  by (simp only: list.pred_inject wf_rules wf_markdown vis_api_status_pie_def vis_api_method_pie_def
      vis_events_pie_def vis_system_severity_pie_def vis_api_summary_table_def vis_consumer_summary_table_def
      vis_api_detailed_table_def vis_consumer_detailed_table_def vis_architecture_summary_def)

lemma wf_panels: "wf_val dashboard_panels"
  by (simp only: dashboard_panels_def wf_rules)

lemma wf_dashboard: "wf_object cdc_telemetry_dashboard"
proof -
  have "wf_val dashboard_references" by (simp only: dashboard_references_def wf_rules)
  moreover have "wf_val (attributes cdc_telemetry_dashboard)"
    by (simp only: cdc_telemetry_dashboard_def wf_rules wf_panels) (simp add: scalar_def)
  ultimately show ?thesis by (simp add: wf_object_iff cdc_telemetry_dashboard_def)
qed

lemma wf_objects: "list_all wf_object (visualizations @ [cdc_telemetry_dashboard])"
  using wf_cards wf_figures wf_tables wf_dashboard by (simp add: visualizations_def)


lemma wf_member: "ob \<in> set (visualizations @ [cdc_telemetry_dashboard]) \<Longrightarrow> wf_val (saved_object_payload ob)"
  using wf_objects by (auto simp: list_all_iff wf_object_def)

lemma attribute_of_request:
  "wf_val (saved_object_payload ob) \<Longrightarrow> attribute_of (saved_object_request ob) k = item k (attributes ob)"
  by (simp add: attribute_of_def saved_object_decodes) (simp add: saved_object_payload_def)

lemma references_of_request:
  "wf_val (saved_object_payload ob) \<Longrightarrow> references_of (saved_object_request ob) = elements (obj_references ob)"
  by (simp add: references_of_def saved_object_decodes)
    (auto simp: saved_object_payload_def elements_def truthy_def split: pyval.splits)

lemma nested_json_simps:
  "wf_val v \<Longrightarrow> nested_json (Some (PStr (dumps v))) = Some v"
  "wf_val v \<Longrightarrow> nested_json (Some (PStr (dumps_indent w v))) = Some v"
  by (simp_all add: nested_json_def loads_dumps loads_dumps_indent)

section \<open>The panels of the dashboard\<close>

definition panel_rect :: "pyval \<Rightarrow> rect option" where
  "panel_rect p =
     (case item (T ''gridData'') p of
        None \<Rightarrow> None
      | Some g \<Rightarrow>
          (case (int_item (T ''x'') g, int_item (T ''y'') g, int_item (T ''w'') g, int_item (T ''h'') g) of
             (Some x, Some y, Some w, Some h) \<Rightarrow> Some (x, y, w, h)
           | _ \<Rightarrow> None))"

definition panels_read :: "request \<Rightarrow> pyval list" where
  "panels_read req = (case nested_json (attribute_of req (T ''panelsJSON'')) of None \<Rightarrow> [] | Some v \<Rightarrow> elements v)"

definition resolve :: "pystr \<Rightarrow> pyval list \<Rightarrow> pystr option \<Rightarrow> pystr option" where
  "resolve kind refs name =
     (case name of
        None \<Rightarrow> None
      | Some n \<Rightarrow>
          (case List.find (\<lambda>r. str_item (T ''name'') r = Some n \<and> str_item (T ''type'') r = Some kind) refs of
             None \<Rightarrow> None
           | Some r \<Rightarrow> str_item (T ''id'') r))"

definition panel_target :: "request \<Rightarrow> pyval \<Rightarrow> pystr option" where
  "panel_target req p = resolve (T ''visualization'') (references_of req) (str_item (T ''panelRefName'') p)"

lemma str_item_simps [simp]:
  "str_item k (PDict []) = None"
  "str_item k (PDict ((k', PStr t) # ms)) = (if k' = k then Some t else str_item k (PDict ms))"
  "k' \<noteq> k \<Longrightarrow> str_item k (PDict ((k', v) # ms)) = str_item k (PDict ms)"
  by (auto simp: str_item_def)

lemma panels_read_dashboard:
  "panels_read (saved_object_request cdc_telemetry_dashboard) = elements dashboard_panels"
proof -
  have wf: "wf_val (saved_object_payload cdc_telemetry_dashboard)" using wf_dashboard by (simp add: wf_object_def)
  have "item (T ''panelsJSON'') (attributes cdc_telemetry_dashboard) = Some (PStr (dumps dashboard_panels))"
    by (simp add: cdc_telemetry_dashboard_def)
  then show ?thesis
    by (simp add: panels_read_def attribute_of_request [OF wf] nested_json_simps [OF wf_panels])
qed

lemma references_read_dashboard:
  "references_of (saved_object_request cdc_telemetry_dashboard) = elements dashboard_references"
proof -
  have wf: "wf_val (saved_object_payload cdc_telemetry_dashboard)" using wf_dashboard by (simp add: wf_object_def)
  have "obj_references cdc_telemetry_dashboard = dashboard_references" by (simp add: cdc_telemetry_dashboard_def)
  with references_of_request [OF wf] show ?thesis by (simp only:)
qed

lemma panel_rects:
  "map panel_rect (elements dashboard_panels) = map Some
     [(0, 0, 48, 4),
      (0, 4, 12, 6), (12, 4, 12, 6), (24, 4, 12, 6), (36, 4, 12, 6),
      (0, 10, 12, 6), (12, 10, 12, 6), (24, 10, 12, 6), (36, 10, 12, 6),
      (0, 16, 24, 16), (24, 16, 24, 16), (0, 32, 24, 16), (24, 32, 24, 16),
      (0, 48, 12, 12), (12, 48, 12, 12), (24, 48, 12, 12), (36, 48, 12, 12),
      (0, 60, 24, 12), (24, 60, 24, 12), (0, 72, 24, 14), (24, 72, 24, 14), (0, 86, 48, 9)]"
  by (simp add: dashboard_panels_def panel_rect_def int_item_def)

lemma object_ids:
  "obj_id vis_header_banner = T ''vis-header-banner''"
  "obj_id vis_total_orders = T ''vis-total-orders''"
  "obj_id vis_p50_latency = T ''vis-p50-latency''"
  "obj_id vis_p95_latency = T ''vis-p95-latency''"
  "obj_id vis_redis_sink_latency = T ''vis-redis-sink-latency''"
  "obj_id vis_total_consumer_events = T ''vis-total-consumer-events''"
  "obj_id vis_es_sink_latency = T ''vis-es-sink-latency''"
  "obj_id vis_idempotency_dedup = T ''vis-idempotency-dedup''"
  "obj_id vis_dlq_count = T ''vis-dlq-count''"
  "obj_id vis_figure1_throughput = T ''vis-figure1-throughput''"
  "obj_id vis_figure4_consumer_throughput = T ''vis-figure4-consumer-throughput''"
  "obj_id vis_figure2_percentiles = T ''vis-figure2-percentiles''"
  "obj_id vis_figure3_dual_store = T ''vis-figure3-dual-store''"
  "obj_id vis_api_status_pie = T ''vis-api-status-pie''"
  "obj_id vis_api_method_pie = T ''vis-api-method-pie''"
  "obj_id vis_events_pie = T ''vis-events-pie''"
  "obj_id vis_system_severity_pie = T ''vis-system-severity-pie''"
  "obj_id vis_api_summary_table = T ''vis-api-summary-table''"
  "obj_id vis_consumer_summary_table = T ''vis-consumer-summary-table''"
  "obj_id vis_api_detailed_table = T ''vis-api-detailed-table''"
  "obj_id vis_consumer_detailed_table = T ''vis-consumer-detailed-table''"
  "obj_id vis_architecture_summary = T ''vis-architecture-summary''"
  by (simp_all only: visualization_defs saved_object.simps)

lemma object_types:
  "obj_type vis_header_banner = T ''visualization''"
  "obj_type vis_total_orders = T ''visualization''"
  "obj_type vis_p50_latency = T ''visualization''"
  "obj_type vis_p95_latency = T ''visualization''"
  "obj_type vis_redis_sink_latency = T ''visualization''"
  "obj_type vis_total_consumer_events = T ''visualization''"
  "obj_type vis_es_sink_latency = T ''visualization''"
  "obj_type vis_idempotency_dedup = T ''visualization''"
  "obj_type vis_dlq_count = T ''visualization''"
  "obj_type vis_figure1_throughput = T ''visualization''"
  "obj_type vis_figure4_consumer_throughput = T ''visualization''"
  "obj_type vis_figure2_percentiles = T ''visualization''"
  "obj_type vis_figure3_dual_store = T ''visualization''"
  "obj_type vis_api_status_pie = T ''visualization''"
  "obj_type vis_api_method_pie = T ''visualization''"
  "obj_type vis_events_pie = T ''visualization''"
  "obj_type vis_system_severity_pie = T ''visualization''"
  "obj_type vis_api_summary_table = T ''visualization''"
  "obj_type vis_consumer_summary_table = T ''visualization''"
  "obj_type vis_api_detailed_table = T ''visualization''"
  "obj_type vis_consumer_detailed_table = T ''visualization''"
  "obj_type vis_architecture_summary = T ''visualization''"
  by (simp_all only: visualization_defs saved_object.simps)

lemma panel_names:
  "map (str_item (T ''panelRefName'')) (elements dashboard_panels) = map (str_item (T ''name'')) (elements dashboard_references)"
  by (simp add: dashboard_panels_def dashboard_references_def)

lemma reference_names_distinct: "distinct (map (str_item (T ''name'')) (elements dashboard_references))"
  by (simp add: dashboard_references_def)

lemma reference_types:
  "list_all (\<lambda>r. str_item (T ''type'') r = Some (T ''visualization'')) (elements dashboard_references)"
  by (simp add: dashboard_references_def)

end
