(* ===== verification/Kibana_Update.thy ===== *)
theory Kibana_Update
  imports Kibana_Api
begin

text \<open>
  \<open>scripts/update_kibana_dashboard.py\<close>: a dashboard of three text panels, posted under the
  identifier of the master dashboard.
\<close>

definition header_text :: pystr where
  "header_text =
     T ''# TransactFlow '' @ [0x2014] @ T '' Distributed Real-Time CDC & Telemetry Dashboard'' @
       [10, 10] @ T ''**Real-Time Distributed System Telemetry** | PostgreSQL WAL '' @ [0x2794] @
       T '' Debezium (Avro) '' @ [0x2794] @ T '' Apache Kafka '' @ [0x2794] @
       T '' Modern C++ Consumers '' @ [0x2794] @ T '' Dual Storage (Redis + Elasticsearch)'' @
       [10, 10] @ T ''---'' @ [10, 10] @ T ''### '' @ [0x1f4ca] @
       T '' Live System Benchmark Summary (1,000 req/sec Soak Test)'' @ [10, 10] @
       T ''| Metric | Measured Value | SLA Target | Status |'' @ [10] @ T ''|---|---|---|---|'' @
       [10] @ T ''| **API Ingestion Peak Throughput** | **1,024 req/sec** | '' @ [0x2265] @
       T '' 1,000 req/sec | '' @ [0x1f7e2] @ T '' PASS |'' @ [10] @
       T ''| **API P50 Median Latency** | **36.8 ms** | < 50 ms | '' @ [0x1f7e2] @ T '' PASS |'' @
       [10] @ T ''| **API P95 Latency** | **93.7 ms** | < 150 ms | '' @ [0x1f7e2] @ T '' PASS |'' @
       [10] @ T ''| **API P99 Tail Latency** | **132.5 ms** | < 250 ms | '' @ [0x1f7e2] @
       T '' PASS |'' @ [10] @ T ''| **Redis Lua Atomic Sink (P99)** | **< 1.5 ms** | < 5 ms | '' @
       [0x1f7e2] @ T '' PASS |'' @ [10] @
       T ''| **RedisUpdater Consumer Lag** | **0 messages** (Real-Time) | < 100 msgs | '' @
       [0x1f7e2] @ T '' PASS |'' @ [10] @
       T ''| **Notifier Alert Consumer Lag** | **0 messages** (Real-Time) | < 100 msgs | '' @
       [0x1f7e2] @ T '' PASS |'' @ [10] @
       T ''| **Dead Letter Queue (DLQ) Loss** | **0.000%** (Zero Loss) | 0.000% | '' @ [0x1f7e2] @
       T '' PASS |'' @ [10] @
       T ''| **HTTP Success Rate (201 / 200)** | **100.0%** (0 Server Errors) | '' @ [0x2265] @
       T '' 99.9% | '' @ [0x1f7e2] @ T '' PASS |'' @ [10]"

definition architecture_panel :: pystr where
  "architecture_panel =
     T ''### '' @ [0x1f3d7, 0xfe0f] @ T '' Architecture & Dual-Storage Topology'' @ [10, 10] @
       T ''* **Write Path**: Client '' @ [0x2794] @ T '' C++ REST API ('' @ [96] @
       T ''POST /api/v1/orders'' @ [96] @ T '') '' @ [0x2794] @
       T '' PostgreSQL 15 ACID Transaction.'' @ [10] @
       T ''* **CDC Extraction**: PostgreSQL WAL '' @ [0x2794] @
       T '' Debezium 2.4 Logical Decoding '' @ [0x2794] @
       T '' Schema Registry (Avro Serialization) '' @ [0x2794] @ T '' Kafka '' @ [96] @
       T ''dbserver1.public.orders'' @ [96] @ T ''.'' @ [10] @ T ''* **Consumer Group 1 ('' @
       [96] @ T ''redis-updater-group'' @ [96] @ T '')**: Modern C++ (librdkafka) '' @ [0x2794] @
       T '' Monotonic LSN Guard (Lua EVAL) '' @ [0x2794] @
       T '' Redis In-Memory KV (Sub-millisecond reads).'' @ [10] @ T ''* **Consumer Group 2 ('' @
       [96] @ T ''es-indexer-group'' @ [96] @ T '')**: Modern C++ '' @ [0x2794] @
       T '' Exponential Backoff Retry '' @ [0x2794] @ T '' Elasticsearch '' @ [96] @ T ''orders'' @
       [96] @ T '' document index (Full-text search).'' @ [10] @ T ''* **Consumer Group 3 ('' @
       [96] @ T ''notifier-group'' @ [96] @ T '')**: Modern C++ '' @ [0x2794] @ T '' Redis '' @
       [96] @ T ''SET NX'' @ [96] @ T '' 24h idempotency key '' @ [0x2794] @
       T '' Simulated email dispatcher.'' @ [10] @
       T ''* **Fault Isolation**: Malformed / poisonous payloads are quarantined into '' @ [96] @
       T ''dbserver1.public.orders.dlq'' @ [96] @ T '' without head-of-line blocking.'' @ [10]"

definition links_panel :: pystr where
  "links_panel =
     T ''### '' @ [0x1f50d] @ T '' Deep Dive: Interactive Kibana Explorers'' @ [10, 10] @
       T ''Click below to explore live event streams directly inside Kibana Discover:'' @
       [10, 10] @ T ''* ['' @ [0x1f50e] @ T '' **Explore API Logs ('' @ [96] @
       T ''cdc-api-logs-*'' @ [96] @ T '')**](/app/discover#/?_a=(index:'' @ [39] @
       T ''cdc-api-logs'' @ [39] @ T '',query:(language:kuery,query:'' @ [39] @
       T ''log_type:api'' @ [39] @ T '')))'' @ [10] @ T ''  * View client methods ('' @ [96] @
       T ''POST'' @ [96] @ T '', '' @ [96] @ T ''PATCH'' @ [96] @
       T ''), HTTP status codes, and per-request millisecond execution latency.'' @ [10] @
       T ''* ['' @ [0x26a1] @ T '' **Explore Consumer Sinks ('' @ [96] @
       T ''cdc-consumer-logs-*'' @ [96] @ T '')**](/app/discover#/?_a=(index:'' @ [39] @
       T ''cdc-consumer-logs'' @ [39] @ T '',query:(language:kuery,query:'' @ [39] @
       T ''log_type:consumer'' @ [39] @ T '')))'' @ [10] @ T ''  * Inspect '' @ [96] @
       T ''redis_updated'' @ [96] @ T '' (atomic LSNs), '' @ [96] @ T ''es_indexed'' @ [96] @
       T '' (status 201), and '' @ [96] @ T ''email_notification_sent'' @ [96] @ T ''.'' @ [10] @
       T ''* ['' @ [0x1f6e1, 0xfe0f] @ T '' **Verify Dead Letter Queue ('' @ [96] @
       T ''cdc-system-logs-*'' @ [96] @ T '')**](/app/discover#/?_a=(index:'' @ [39] @
       T ''cdc-system-logs'' @ [39] @ T '',query:(language:kuery,query:'' @ [39] @
       T ''event:routed_to_dlq%20or%20event:record_processing_failed'' @ [39] @ T '')))'' @ [10] @
       T ''  * Observe quarantined payloads, retry loops, and exponential backoff telemetry.'' @
       [10]"

definition update_panels :: pyval where
  "update_panels =
     PList [
      PDict [
       (T ''version'', S ''8.10.2''),
       (T ''type'', S ''text''),
       (T ''gridData'',
        PDict [(T ''x'', PInt 0), (T ''y'', PInt 0), (T ''w'', PInt 48), (T ''h'', PInt 15), (T ''i'', S ''1'')]),
       (T ''panelIndex'', S ''1''),
       (T ''embeddableConfig'', PDict [(T ''attributes'', PDict [(T ''body'', PStr header_text)])])],
      PDict [
       (T ''version'', S ''8.10.2''),
       (T ''type'', S ''text''),
       (T ''gridData'',
        PDict [(T ''x'', PInt 0), (T ''y'', PInt 15), (T ''w'', PInt 24), (T ''h'', PInt 14), (T ''i'', S ''2'')]),
       (T ''panelIndex'', S ''2''),
       (T ''embeddableConfig'', PDict [(T ''attributes'', PDict [(T ''body'', PStr architecture_panel)])])],
      PDict [
       (T ''version'', S ''8.10.2''),
       (T ''type'', S ''text''),
       (T ''gridData'',
        PDict [(T ''x'', PInt 24), (T ''y'', PInt 15), (T ''w'', PInt 24), (T ''h'', PInt 14), (T ''i'', S ''3'')]),
       (T ''panelIndex'', S ''3''),
       (T ''embeddableConfig'', PDict [(T ''attributes'', PDict [(T ''body'', PStr links_panel)])])]]"

definition update_payload :: pyval where
  "update_payload =
     PDict [
      (T ''attributes'', PDict [
        (T ''title'', PStr (T ''TransactFlow '' @ [0x2014] @ T '' Distributed Systems Observability & Telemetry'')),
        (T ''description'',
         PStr (T ''Production observability dashboard for TransactFlow CDC soak test at 1,000 req/sec'')),
        (T ''hits'', PInt 0),
        (T ''kibanaSavedObjectMeta'', PDict [
          (T ''searchSourceJSON'', PStr (dumps (
            PDict [
             (T ''query'', PDict [(T ''query'', PStr []), (T ''language'', S ''kuery'')]),
             (T ''filter'', PList [])])))]),
        (T ''panelsJSON'', PStr (dumps update_panels)),
        (T ''timeRestore'', PBool True),
        (T ''timeFrom'', S ''now-30m''),
        (T ''timeTo'', S ''now'')])]"

definition update_request :: request where
  "update_request =
     \<lparr>r_method = T ''POST'',
      r_url = kibana_url @ T ''/api/saved_objects/dashboard/'' @ T ''cdc-telemetry-dashboard'' @ T ''?overwrite=true'',
      r_headers = json_headers, r_body = encode_utf8 (dumps update_payload)\<rparr>"

definition update_dashboard :: "'k http \<Rightarrow> ('k, unit) action" where
  "update_dashboard srv s =
     (case urlopen srv update_request s of
        (Answer st _, s') \<Rightarrow>
          (Inr (), py_print (T ''[SUCCESS] Kibana Dashboard updated successfully: HTTP '' @ ascii (show_nat st)) s')
      | (r, s') \<Rightarrow> (Inl (outcome_error r), s'))"

end
