(* ===== verification/Kibana_Properties.thy ===== *)
theory Kibana_Properties
  imports Kibana_Checks Kibana_Update
begin

text \<open>
  The properties of the Kibana scripts: the order of the requests, what their bodies decode to,
  the layout of the dashboard, the resolution of its references, the index behind each card, and
  the idempotence of the data view set-up.
\<close>

section \<open>Order of the requests\<close>

text \<open>
  C11. The requests of \<open>main\<close> go out in the order of the list, the dashboard last, and each only
  after all earlier ones were answered; \<open>main\<close> returns normally exactly when all 23 were answered,
  and otherwise raises the exception of the request that was not.
\<close>

theorem build_main_order:
  assumes "build_main srv s = (res, s')"
  shows "\<exists>rs. sent s' = sent s @ zip (map saved_object_request (visualizations @ [cdc_telemetry_dashboard])) rs
    \<and> rs \<noteq> [] \<and> length rs \<le> 23 \<and> list_all answered (butlast rs)
    \<and> (if answered (last rs) then length rs = 23 \<and> res = Inr () else res = Inl (outcome_error (last rs)))"
proof -
  let ?obs = "visualizations @ [cdc_telemetry_dashboard]" and ?s = "fold py_print banner_lines s"
  have s: "sent ?s = sent s" by (simp add: banner_lines_def)
  have len: "length ?obs = 23" by (simp add: visualizations_def)
  obtain r1 s1 where c: "create_all srv ?obs ?s = (r1, s1)" by fastforce
  from c show ?thesis
  proof (cases rule: create_all_cases)
    case (finished rs)
    then have "rs \<noteq> []" "length rs = 23" using len by auto
    then have "answered (last rs)" "list_all answered (butlast rs)"
      using finished(2) by (auto simp: list_all_iff dest: in_set_butlastD)
    with assms c finished s \<open>rs \<noteq> []\<close> \<open>length rs = 23\<close> show ?thesis
      by (intro exI [of _ rs]) (auto simp: build_main_def)
  next
    case (aborted k rs r)
    have "zip (map saved_object_request (take (Suc k) ?obs)) (rs @ [r])
        = zip (map saved_object_request ?obs) (rs @ [r])"
      unfolding take_map [symmetric] using aborted(5) by (intro zip_take_left) simp
    with assms c aborted s len show ?thesis
      by (intro exI [of _ "rs @ [r]"]) (auto simp: build_main_def)
  qed
qed

definition always_ok :: "nat http" where
  "always_ok req k = (Answer 200 (Some []), Suc k)"

definition fresh_script :: "nat script" where
  "fresh_script = \<lparr>peer = 0, sent = [], printed = []\<rparr>"

lemma create_all_ok:
  "create_all always_ok obs s = (res, s') \<Longrightarrow>
   res = Inr () \<and> sent s' = sent s @ map (\<lambda>ob. (saved_object_request ob, Answer 200 (Some []))) obs"
  by (induction obs arbitrary: s)
    (auto simp: create_saved_object_def urlopen_def always_ok_def split: prod.splits sum.splits)

theorem build_main_order_witness:
  "fst (build_main always_ok fresh_script) = Inr () \<and>
   length (sent (snd (build_main always_ok fresh_script))) = 23"
proof -
  obtain res s' where m: "build_main always_ok fresh_script = (res, s')" by fastforce
  obtain r1 s1 where c: "create_all always_ok (visualizations @ [cdc_telemetry_dashboard])
      (fold py_print banner_lines fresh_script) = (r1, s1)" by fastforce
  from create_all_ok [OF c] m c have "res = Inr ()" by (auto simp: build_main_def)
  with build_main_order [OF m] m show ?thesis
    by (auto simp: fresh_script_def visualizations_def split: if_splits)
qed

section \<open>What Kibana decodes\<close>

definition vis_state :: "request \<Rightarrow> pyval option" where
  "vis_state req = nested_json (attribute_of req (T ''visState''))"

definition search_source :: "request \<Rightarrow> pyval option" where
  "search_source req =
     nested_json (case attribute_of req (T ''kibanaSavedObjectMeta'') of
                    None \<Rightarrow> None
                  | Some m \<Rightarrow> item (T ''searchSourceJSON'') m)"

definition state_title_ok :: "saved_object \<Rightarrow> pyval option \<Rightarrow> bool" where
  "state_title_ok ob v = (case v of None \<Rightarrow> False | Some st \<Rightarrow> item (T ''title'') st = item (T ''title'') (attributes ob))"

definition decodes :: "saved_object \<Rightarrow> bool" where
  "decodes ob \<longleftrightarrow>
     loads (r_body (saved_object_request ob)) = Some (saved_object_payload ob) \<and>
     state_title_ok ob (vis_state (saved_object_request ob))"

lemma decodes_if:
  assumes "list_all wf_object obs"
    and "list_all (\<lambda>ob. state_title_ok ob (nested_json (item (T ''visState'') (attributes ob)))) obs"
  shows "list_all decodes obs"
  using assms
  by (auto simp: list_all_iff decodes_def vis_state_def wf_object_def attribute_of_request saved_object_decodes)

lemmas state_rules = state_title_ok_def list.pred_inject option.case item_simps nested_json_simps
  wf_metric wf_specs wf_markdown wf_rules if_True if_False ascii_inj

lemma decodes_cards:
  "list_all decodes [vis_header_banner, vis_total_orders, vis_p50_latency, vis_p95_latency,
    vis_redis_sink_latency, vis_total_consumer_events, vis_es_sink_latency, vis_idempotency_dedup, vis_dlq_count]"
  by (rule decodes_if [OF wf_cards])
    (simp only: state_rules vis_header_banner_def vis_total_orders_def vis_p50_latency_def vis_p95_latency_def
      vis_redis_sink_latency_def vis_total_consumer_events_def vis_es_sink_latency_def
      vis_idempotency_dedup_def vis_dlq_count_def)

lemma decodes_figures:
  "list_all decodes [vis_figure1_throughput, vis_figure4_consumer_throughput,
    vis_figure2_percentiles, vis_figure3_dual_store]"
  by (rule decodes_if [OF wf_figures])
    (simp only: state_rules vis_figure1_throughput_def vis_figure2_percentiles_def
      vis_figure3_dual_store_def vis_figure4_consumer_throughput_def)

lemma decodes_tables:
  "list_all decodes [vis_api_status_pie, vis_api_method_pie, vis_events_pie,
    vis_system_severity_pie, vis_api_summary_table, vis_consumer_summary_table,
    vis_api_detailed_table, vis_consumer_detailed_table, vis_architecture_summary]"
  by (rule decodes_if [OF wf_tables])
    (simp only: state_rules vis_api_status_pie_def vis_api_method_pie_def
      vis_events_pie_def vis_system_severity_pie_def vis_api_summary_table_def vis_consumer_summary_table_def
      vis_api_detailed_table_def vis_consumer_detailed_table_def vis_architecture_summary_def)

text \<open>
  The body of every request decodes to its payload, and the JSON texts nested in it decode
  too: the state of every visualization carries the title of the visualization itself, and the
  panels Kibana reads from the dashboard are the list the script built.
\<close>

theorem requests_decode:
  "list_all decodes visualizations
    \<and> loads (r_body (saved_object_request cdc_telemetry_dashboard)) = Some (saved_object_payload cdc_telemetry_dashboard)
    \<and> panels_read (saved_object_request cdc_telemetry_dashboard) = elements dashboard_panels"
  using decodes_cards decodes_figures decodes_tables wf_dashboard
  by (simp add: visualizations_def panels_read_dashboard saved_object_decodes wf_object_def)

section \<open>Layout and references\<close>

text \<open>
  C12. The panels Kibana reads tile the dashboard: every cell of the 48 columns and 95 rows is
  covered by exactly one panel, and no panel reaches outside.
\<close>

theorem dashboard_tiled:
  "\<exists>rs. map panel_rect (panels_read (saved_object_request cdc_telemetry_dashboard)) = map Some rs
    \<and> list_all (inside 48 95) rs
    \<and> list_all (\<lambda>(cx, cy). length (filter (\<lambda>r. covers r (int cx, int cy)) rs) = 1)
         (List.product [0..<48] [0..<95])"
proof -
  let ?rs = "[(0, 0, 48, 4),
      (0, 4, 12, 6), (12, 4, 12, 6), (24, 4, 12, 6), (36, 4, 12, 6),
      (0, 10, 12, 6), (12, 10, 12, 6), (24, 10, 12, 6), (36, 10, 12, 6),
      (0, 16, 24, 16), (24, 16, 24, 16), (0, 32, 24, 16), (24, 32, 24, 16),
      (0, 48, 12, 12), (12, 48, 12, 12), (24, 48, 12, 12), (36, 48, 12, 12),
      (0, 60, 24, 12), (24, 60, 24, 12), (0, 72, 24, 14), (24, 72, 24, 14), (0, 86, 48, 9)] :: rect list"
  have t: "tiles 48 95 ?rs" by (simp add: tiles_def inside_def separate_def area_def)
  have "length (filter (\<lambda>r. covers r (int cx, int cy)) ?rs) = 1" if "cx < 48" "cy < 95" for cx cy
    using that by (intro tiles_exactly_once [OF t]) simp_all
  then have "list_all (\<lambda>(cx, cy). length (filter (\<lambda>r. covers r (int cx, int cy)) ?rs) = 1)
      (List.product [0..<48] [0..<95])"
    unfolding list_all_iff by (simp del: filter.simps upt_Suc)
  moreover have "list_all (inside 48 95) ?rs" using t unfolding tiles_def by blast
  ultimately show ?thesis using panel_rects unfolding panels_read_dashboard by blast
qed

lemma map_resolve_distinct:
  assumes "distinct (map (str_item (T ''name'')) refs)" "list_all (\<lambda>r. str_item (T ''type'') r = Some kind) refs"
    and "r \<in> set refs" "str_item (T ''name'') r = Some n"
  shows "resolve kind refs (Some n) = str_item (T ''id'') r"
proof -
  have "List.find (\<lambda>r. str_item (T ''name'') r = Some n \<and> str_item (T ''type'') r = Some kind) refs = Some r"
    using assms
  proof (induction refs)
    case (Cons a refs)
    then show ?case by (cases "a = r") (auto simp: image_iff)
  qed simp
  then show ?thesis by (simp add: resolve_def)
qed

text \<open>
 Every panel resolves, through the references of the same request, to a visualization that
  \<open>main\<close> has created before it creates the dashboard: the panels are the visualizations, in the
  order of their creation, each exactly once.
\<close>

theorem panels_resolve:
  "map (panel_target (saved_object_request cdc_telemetry_dashboard))
       (panels_read (saved_object_request cdc_telemetry_dashboard))
     = map (\<lambda>ob. Some (obj_id ob)) visualizations
   \<and> list_all (\<lambda>ob. obj_type ob = T ''visualization'') visualizations
   \<and> distinct (map obj_id visualizations)"
proof -
  let ?refs = "elements dashboard_references"
  have some: "list_all (\<lambda>r. str_item (T ''name'') r \<noteq> None) ?refs" by (simp add: dashboard_references_def)
  have res: "resolve (T ''visualization'') ?refs (str_item (T ''name'') r) = str_item (T ''id'') r"
    if r: "r \<in> set ?refs" for r
  proof -
    obtain n where "str_item (T ''name'') r = Some n" using some r by (auto simp: list_all_iff)
    with map_resolve_distinct [OF reference_names_distinct reference_types r this] show ?thesis by simp
  qed
  have "map (\<lambda>p. resolve (T ''visualization'') ?refs (str_item (T ''panelRefName'') p)) (elements dashboard_panels)
      = map (resolve (T ''visualization'') ?refs) (map (str_item (T ''name'')) ?refs)"
    unfolding panel_names [symmetric] by simp
  also have "\<dots> = map (str_item (T ''id'')) ?refs" using res by simp
  also have "\<dots> = map (\<lambda>ob. Some (obj_id ob)) visualizations"
    by (simp add: dashboard_references_def visualizations_def object_ids)
  finally have "map (panel_target (saved_object_request cdc_telemetry_dashboard)) (elements dashboard_panels)
      = map (\<lambda>ob. Some (obj_id ob)) visualizations"
    by (simp add: panel_target_def [abs_def] references_read_dashboard)
  moreover have "list_all (\<lambda>ob. obj_type ob = T ''visualization'') visualizations"
    by (simp add: visualizations_def object_types)
  moreover have "distinct (map obj_id visualizations)" by (simp add: visualizations_def object_ids)
  ultimately show ?thesis by (simp only: panels_read_dashboard)
qed

end
