(* ===== verification/Kibana_Sources.thy ===== *)
theory Kibana_Sources
  imports Kibana_Properties
begin

text \<open>
  Where the visualizations take their data from: the data views \<open>setup_kibana.py\<close> creates, the
  index Logstash sends an event to, and the dashboard \<open>update_kibana_dashboard.py\<close> overwrites.
\<close>

section \<open>Data sources\<close>

fun at_path :: "pystr list \<Rightarrow> pyval \<Rightarrow> pyval option" where
  "at_path [] v = Some v"
| "at_path (k # ks) v = (case item k v of None \<Rightarrow> None | Some w \<Rightarrow> at_path ks w)"

text \<open>The data view a search source refers to, and the index a Vega specification queries.\<close>

definition view_named :: "pyval list \<Rightarrow> pyval option \<Rightarrow> pystr option" where
  "view_named refs source =
     (case source of None \<Rightarrow> None | Some ss \<Rightarrow> resolve (T ''index-pattern'') refs (str_item (T ''indexRefName'') ss))"

definition view_target :: "request \<Rightarrow> pystr option" where
  "view_target req = view_named (references_of req) (search_source req)"

definition spec_source :: "pyval \<Rightarrow> pystr option" where
  "spec_source spec = (case at_path [T ''data'', T ''url''] spec of None \<Rightarrow> None | Some u \<Rightarrow> str_item (T ''index'') u)"

definition spec_index :: "pyval option \<Rightarrow> pystr option" where
  "spec_index state =
     (case state of
        None \<Rightarrow> None
      | Some st \<Rightarrow>
          (case nested_json (at_path [T ''params'', T ''spec''] st) of None \<Rightarrow> None | Some spec \<Rightarrow> spec_source spec))"

definition state_kind :: "pyval option \<Rightarrow> pystr option" where
  "state_kind state = (case state of None \<Rightarrow> None | Some st \<Rightarrow> str_item (T ''type'') st)"

definition known_source :: "pyval option \<Rightarrow> pystr option \<Rightarrow> bool" where
  "known_source state view =
     (if state_kind state = Some (T ''markdown'') then True
      else if state_kind state = Some (T ''vega'')
      then (case spec_index state of None \<Rightarrow> False | Some i \<Rightarrow> i \<in> (\<lambda>(_, title, _, _). title) ` set data_views)
      else (case view of None \<Rightarrow> False | Some v \<Rightarrow> v \<in> fst ` set data_views))"

definition configured :: "saved_object \<Rightarrow> bool" where
  "configured ob \<longleftrightarrow> (let req = saved_object_request ob in known_source (vis_state req) (view_target req))"

definition own_state :: "saved_object \<Rightarrow> pyval option" where
  "own_state ob = nested_json (item (T ''visState'') (attributes ob))"

definition own_source :: "saved_object \<Rightarrow> pyval option" where
  "own_source ob =
     nested_json (case item (T ''kibanaSavedObjectMeta'') (attributes ob) of
       None \<Rightarrow> None | Some m \<Rightarrow> item (T ''searchSourceJSON'') m)"

lemma read_back:
  assumes "wf_object ob"
  shows "vis_state (saved_object_request ob) = own_state ob"
    "search_source (saved_object_request ob) = own_source ob"
    "view_target (saved_object_request ob) = view_named (elements (obj_references ob)) (own_source ob)"
  using assms
  by (simp_all add: wf_object_def vis_state_def search_source_def view_target_def own_state_def own_source_def
      attribute_of_request references_of_request)

lemma configured_if:
  assumes "list_all wf_object obs"
    and "list_all (\<lambda>ob. known_source (own_state ob) (view_named (elements (obj_references ob)) (own_source ob))) obs"
  shows "list_all configured obs"
  using assms by (auto simp: list_all_iff configured_def read_back Let_def)

lemma view_ids: "fst ` set data_views
    = {T ''cdc-api-logs'', T ''cdc-consumer-logs'', T ''cdc-system-logs'', T ''orders''}"
  and view_titles: "(\<lambda>(_, title, _, _). title) ` set data_views
    = {T ''cdc-api-logs-*'', T ''cdc-consumer-logs-*'', T ''cdc-system-logs-*'', T ''orders''}"
  by (auto simp: data_views_def)

lemma find_simps: "List.find P [] = None" "List.find P (x # xs) = (if P x then Some x else List.find P xs)"
  by simp_all

lemma resolve_Some:
  "resolve kind refs (Some n) =
    (case List.find (\<lambda>r. str_item (T ''name'') r = Some n \<and> str_item (T ''type'') r = Some kind) refs of
       None \<Rightarrow> None | Some r \<Rightarrow> str_item (T ''id'') r)"
  by (simp add: resolve_def)

lemma str_item_literals:
  "str_item k (PDict []) = None"
  "str_item k (PDict ((k', PStr t) # ms)) = (if k' = k then Some t else str_item k (PDict ms))"
  "str_item k (PDict ((k', PDict d) # ms)) = (if k' = k then None else str_item k (PDict ms))"
  "str_item k (PDict ((k', PList l) # ms)) = (if k' = k then None else str_item k (PDict ms))"
  "str_item k (PDict ((k', PBool b) # ms)) = (if k' = k then None else str_item k (PDict ms))"
  by (auto simp: str_item_def)

lemmas source_rules = known_source_def own_state_def own_source_def view_named_def spec_index_def state_kind_def
  at_path.simps resolve_Some find_simps str_item_literals elements_simps view_ids view_titles
  insert_iff empty_iff option.inject option.distinct list.pred_inject option.case item_simps nested_json_simps
  wf_metric wf_specs wf_markdown wf_rules if_True if_False ascii_inj

lemma configured_cards:
  "list_all configured [vis_header_banner, vis_total_orders, vis_p50_latency, vis_p95_latency,
    vis_redis_sink_latency, vis_total_consumer_events, vis_es_sink_latency, vis_idempotency_dedup, vis_dlq_count]"
  by (rule configured_if [OF wf_cards])
    (simp only: source_rules vis_header_banner_def vis_total_orders_def vis_p50_latency_def vis_p95_latency_def
      vis_redis_sink_latency_def vis_total_consumer_events_def vis_es_sink_latency_def
      vis_idempotency_dedup_def vis_dlq_count_def)

lemma spec_sources:
  "spec_source fig1_spec = Some (T ''cdc-api-logs-*'')"
  "spec_source fig2_spec = Some (T ''cdc-api-logs-*'')"
  "spec_source fig3_spec = Some (T ''cdc-consumer-logs-*'')"
  "spec_source fig4_spec = Some (T ''cdc-consumer-logs-*'')"
  by (simp_all only: spec_source_def source_rules fig1_spec_def fig2_spec_def fig3_spec_def fig4_spec_def)

lemma configured_figures:
  "list_all configured [vis_figure1_throughput, vis_figure4_consumer_throughput,
    vis_figure2_percentiles, vis_figure3_dual_store]"
  by (rule configured_if [OF wf_figures])
    (simp only: source_rules spec_sources vis_figure1_throughput_def vis_figure2_percentiles_def
      vis_figure3_dual_store_def vis_figure4_consumer_throughput_def)

lemma configured_tables:
  "list_all configured [vis_api_status_pie, vis_api_method_pie, vis_events_pie,
    vis_system_severity_pie, vis_api_summary_table, vis_consumer_summary_table,
    vis_api_detailed_table, vis_consumer_detailed_table, vis_architecture_summary]"
  by (rule configured_if [OF wf_tables])
    (simp only: source_rules vis_api_status_pie_def vis_api_method_pie_def
      vis_events_pie_def vis_system_severity_pie_def vis_api_summary_table_def vis_consumer_summary_table_def
      vis_api_detailed_table_def vis_consumer_detailed_table_def vis_architecture_summary_def)

text \<open>
  Every visualization has a data source that exists: unless it is a piece of text, the index
  reference it carries, or the index its Vega specification queries, is one of the data views
  \<open>setup_kibana.py\<close> creates.
\<close>

theorem sources_configured:
  "list_all configured visualizations"
  using configured_cards configured_figures configured_tables by (simp add: visualizations_def)

section \<open>Event cards\<close>

text \<open>
  Whether a card counts the log event \<open>e\<close>: the card queries for the event's name, in the data
  view over the index Logstash writes the event to.
\<close>

definition view_title :: "pystr option \<Rightarrow> pystr option" where
  "view_title v = (case v of None \<Rightarrow> None
     | Some i \<Rightarrow> (case List.find (\<lambda>d. fst d = i) data_views of None \<Rightarrow> None | Some (_, title, _, _) \<Rightarrow> Some title))"

definition query_text :: "pyval option \<Rightarrow> pystr option" where
  "query_text source = (case source of None \<Rightarrow> None
     | Some ss \<Rightarrow> (case item (T ''query'') ss of None \<Rightarrow> None | Some q \<Rightarrow> str_item (T ''query'') q))"

definition card_counts :: "request \<Rightarrow> string \<Rightarrow> bool" where
  "card_counts req e \<longleftrightarrow>
     query_text (search_source req) = Some (T ''event.keyword: '' @ T e) \<and>
     view_title (view_target req) = Some (T (log_index (Some e)))"

lemma card_sources:
  "query_text (own_source vis_idempotency_dedup) = Some (T ''event.keyword: email_notification_skipped_duplicate'')"
  "view_named (elements (obj_references vis_idempotency_dedup)) (own_source vis_idempotency_dedup) = Some (T ''cdc-system-logs'')"
  "query_text (own_source vis_dlq_count) = Some (T ''event.keyword: routed_to_dlq'')"
  "view_named (elements (obj_references vis_dlq_count)) (own_source vis_dlq_count) = Some (T ''cdc-system-logs'')"
  by (simp_all only: query_text_def source_rules vis_idempotency_dedup_def vis_dlq_count_def)

lemma system_view: "view_title (Some (T ''cdc-system-logs'')) = Some (T ''cdc-system-logs-*'')"
  by (simp add: view_title_def data_views_def)

lemma query_event: "T ''event.keyword: '' @ T e = T (''event.keyword: '' @ e)"
  by (rule ascii_simps(2) [symmetric])

text \<open>
  C13. The card "Idempotent Replays Filtered" counts the events it is meant to count; the card
  "Dead Letter Queue Faults" counts no event at all: it looks for \<open>routed_to_dlq\<close> in the system
  index, while Logstash sends that event to the consumer index.
\<close>

theorem dlq_card_counts_nothing:
  "(card_counts (saved_object_request vis_idempotency_dedup) e \<longleftrightarrow> e = ''email_notification_skipped_duplicate'')
   \<and> \<not> card_counts (saved_object_request vis_dlq_count) e
   \<and> log_index (Some ''routed_to_dlq'') = ''cdc-consumer-logs-*''"
proof -
  have wf: "wf_object vis_idempotency_dedup" "wf_object vis_dlq_count" using wf_cards by simp_all
  have dedup: "card_counts (saved_object_request vis_idempotency_dedup) e \<longleftrightarrow>
      e = ''email_notification_skipped_duplicate'' \<and> log_index (Some e) = ''cdc-system-logs-*''"
    unfolding card_counts_def read_back [OF wf(1)] card_sources system_view query_event option.inject ascii_inj
    by auto
  have dlq: "card_counts (saved_object_request vis_dlq_count) e \<longleftrightarrow>
      e = ''routed_to_dlq'' \<and> log_index (Some e) = ''cdc-system-logs-*''"
    unfolding card_counts_def read_back [OF wf(2)] card_sources system_view query_event option.inject ascii_inj
    by auto
  show ?thesis
    unfolding dedup dlq by (auto simp: log_index_cases api_events_def consumer_events_def)
qed

section \<open>The data view set-up\<close>

definition views_left :: "data_view list \<Rightarrow> request list" where
  "views_left vs = map (\<lambda>(vid, title, name, tf). data_view_request vid title name tf) vs"

definition reachable_server :: "'k http \<Rightarrow> bool" where
  "reachable_server srv \<longleftrightarrow>
     (\<forall>req k. case fst (srv req k) of Answer _ _ \<Rightarrow> True | Refusal _ b \<Rightarrow> b \<noteq> None | NoConnection _ \<Rightarrow> False)"

lemma create_data_view_ok:
  assumes "reachable_server srv" "create_data_view srv vid title name tf s = (res, s')"
  shows "res = Inr () \<and> map fst (sent s') = map fst (sent s) @ [data_view_request vid title name tf]"
proof -
  obtain r s1 where u: "urlopen srv (data_view_request vid title name tf) s = (r, s1)" by fastforce
  note fr = urlopen_frame [OF u]
  then have "r = fst (srv (data_view_request vid title name tf) (peer s))" by (metis fst_conv)
  with assms(1) have "case r of Answer _ _ \<Rightarrow> True | Refusal _ b \<Rightarrow> b \<noteq> None | NoConnection _ \<Rightarrow> False"
    by (simp add: reachable_server_def)
  with assms(2) u fr show ?thesis
    by (auto simp: create_data_view_def split: http_outcome.splits option.splits)
qed

lemma create_views_ok:
  "reachable_server srv \<Longrightarrow> create_views srv vs s = (res, s') \<Longrightarrow>
   res = Inr () \<and> map fst (sent s') = map fst (sent s) @ views_left vs"
proof (induction vs arbitrary: s)
  case (Cons v vs)
  obtain vid title name tf where v: "v = (vid, title, name, tf)" by (cases v)
  obtain r s1 where c: "create_data_view srv vid title name tf s = (r, s1)" by fastforce
  from create_data_view_ok [OF Cons.prems(1) c] Cons c v show ?case by (auto simp: views_left_def)
qed (simp add: views_left_def)

text \<open>
 The set-up can be repeated: against a server that answers every request, with whatever
  status, it returns normally and has sent the four requests in order; a refusal is reported and
  skipped.
\<close>

theorem setup_repeatable:
  assumes "reachable_server srv" "setup_main srv s = (res, s')"
  shows "res = Inr () \<and> map fst (sent s') = map fst (sent s) @ views_left data_views"
  using create_views_ok [OF assms(1), of data_views] assms(2) by (fastforce simp: setup_main_def)

definition conflicting :: "nat http" where
  "conflicting req k = (Refusal 409 (Some []), Suc k)"

theorem setup_repeatable_witness:
  "fst (setup_main conflicting fresh_script) = Inr () \<and> length (sent (snd (setup_main conflicting fresh_script))) = 4"
proof -
  have ok: "reachable_server conflicting" by (simp add: reachable_server_def conflicting_def)
  obtain res s' where r: "setup_main conflicting fresh_script = (res, s')" by fastforce
  have len: "length (map fst (sent s')) = 4"
    unfolding setup_repeatable [OF ok r, THEN conjunct2] by (simp add: fresh_script_def views_left_def data_views_def)
  then show ?thesis using setup_repeatable [OF ok r, THEN conjunct1] r unfolding length_map by simp
qed

section \<open>Two scripts, one dashboard\<close>

text \<open>A saved-object store with \<open>overwrite=true\<close>: the body last posted to a URL.\<close>

definition overwriting :: "(pystr \<Rightarrow> pystr option) http" where
  "overwriting req k = (Answer 200 (Some []), k(r_url req \<mapsto> r_body req))"

text \<open>
 \<open>update_kibana_dashboard.py\<close> replaces the master dashboard: it posts to the very URL
  \<open>build_full_kibana_dashboard.py\<close> posts its dashboard to, so that in a store where the last post
  wins, running it after the build leaves the three text panels in place of the 22 visualizations.
\<close>

theorem update_replaces_master:
  "r_url update_request = r_url (saved_object_request cdc_telemetry_dashboard)
   \<and> peer (snd (update_dashboard overwriting s)) (saved_object_url cdc_telemetry_dashboard) = Some (r_body update_request)
   \<and> loads (r_body update_request) = Some update_payload
   \<and> length (panels_read update_request) = 3"
proof -
  have url: "r_url update_request = saved_object_url cdc_telemetry_dashboard"
    by (simp add: update_request_def saved_object_url_def cdc_telemetry_dashboard_def ascii_Cons)
  have texts: "wf_val (PStr header_text)" "wf_val (PStr architecture_panel)" "wf_val (PStr links_panel)"
    by (simp_all add: header_text_def architecture_panel_def links_panel_def scalar_def)
  have panels: "wf_val update_panels" by (simp only: update_panels_def wf_rules texts)
  have wf: "wf_val update_payload" by (simp only: update_payload_def wf_rules panels) (simp add: scalar_def)
  have body: "loads (r_body update_request) = Some update_payload"
    by (simp add: update_request_def encode_dumps [OF wf] loads_dumps [OF wf])
  have "nested_json (attribute_of update_request (T ''panelsJSON'')) = Some update_panels"
    unfolding attribute_of_def body by (simp add: update_payload_def nested_json_simps [OF panels])
  then have "length (panels_read update_request) = 3" by (simp add: panels_read_def update_panels_def)
  moreover have "peer (snd (update_dashboard overwriting s)) (r_url update_request) = Some (r_body update_request)"
    by (simp add: update_dashboard_def urlopen_def overwriting_def)
  ultimately show ?thesis using url body by (simp add: saved_object_request_def)
qed

end
