(* ===== verification/Load_Generator.thy ===== *)
theory Load_Generator
  imports Cpp_Json
begin

text \<open>
  The load generator (\<open>api/src/load_generator.cpp\<close>): the share of the rate each worker takes, and
  the turns of a worker with its memory of recently created orders. The numbers its generators draw,
  the answers of the API and the clock are inputs of a turn.
\<close>

section \<open>Pacing\<close>

text \<open>C++ division of two ints truncates towards zero; \<open>RunWorker\<close> runs only when there is a thread.\<close>

definition thread_rps :: "int \<Rightarrow> int \<Rightarrow> int" where
  "thread_rps req_per_sec num_threads = max 1 (sgn req_per_sec * (\<bar>req_per_sec\<bar> div num_threads))"

definition sleep_micros :: "int \<Rightarrow> int \<Rightarrow> int" where
  "sleep_micros req_per_sec num_threads = 1000000 div thread_rps req_per_sec num_threads"

text \<open>\<open>if (elapsed < sleep_duration) sleep_for(sleep_duration - elapsed)\<close>\<close>

definition pause :: "int \<Rightarrow> int \<Rightarrow> int" where
  "pause duration elapsed = (if elapsed < duration then duration - elapsed else 0)"

section \<open>Turns\<close>

definition status_cycle :: "string list" where
  "status_cycle = [''PROCESSING'', ''SHIPPED'', ''DELIVERED'']"

text \<open>
  What a turn meets: whether the patch die shows 0, the raw numbers it draws to pick an order, a
  status, a product and a quantity, the identifier and amount it makes up, and the answer (none, or
  status and body).
\<close>

record turn =
  patch_die :: nat
  pick :: nat
  status_pick :: nat
  product_pick :: nat
  qty_pick :: nat
  user_pick :: string
  amount_pick :: rat
  answer :: "(nat \<times> string) option"

datatype api_call = PatchStatus string json | PostOrder json

record worker =
  created_ids :: "string list"
  calls :: "(api_call \<times> (nat \<times> string) option) list"
  worker_log :: "(string \<times> string \<times> nat) list"

definition ring_size :: nat where "ring_size = 512"

definition remember :: "string \<Rightarrow> string list \<Rightarrow> string list" where
  "remember i ids = (if ring_size \<le> length ids then tl ids else ids) @ [i]"

text \<open>The identifier a 201 answer carries; a body that does not parse is passed over.\<close>

definition answered_id :: "(string \<Rightarrow> json option) \<Rightarrow> (nat \<times> string) option \<Rightarrow> string option" where
  "answered_id parse ans =
     (case ans of
        None \<Rightarrow> None
      | Some (st, body) \<Rightarrow>
          if st = 201 then
            (case parse body of
               None \<Rightarrow> None
             | Some j \<Rightarrow> (case member_of j ''id'' of Some (JStr i) \<Rightarrow> Some i | _ \<Rightarrow> None))
          else None)"

definition status_code :: "(nat \<times> string) option \<Rightarrow> nat" where
  "status_code ans = (case ans of None \<Rightarrow> 0 | Some (st, _) \<Rightarrow> st)"

definition order_payload :: "turn \<Rightarrow> json" where
  "order_payload t =
     JObj [(''items'', JArr [JObj [(''product_id'', JStr (''prod_'' @ show_nat (product_pick t mod 20 + 1))),
                                  (''qty'', JInt (int (qty_pick t mod 5 + 1)))]]),
           (''total_amount'', JDouble (amount_pick t)), (''user_id'', JStr (user_pick t))]"

definition patch_turn :: "turn \<Rightarrow> worker \<Rightarrow> worker" where
  "patch_turn t w =
     (let i = created_ids w ! (pick t mod length (created_ids w));
          st = status_cycle ! (status_pick t mod length status_cycle);
          ok = status_code (answer t) \<in> {200, 204} in
      w\<lparr>calls := calls w @ [(PatchStatus (''/api/v1/orders/'' @ i @ ''/status'') (JObj [(''status'', JStr st)]), answer t)],
        worker_log := worker_log w @ [(if ok then ''request_sent'' else ''request_failed'', ''PATCH'', status_code (answer t))]\<rparr>)"

definition post_turn :: "(string \<Rightarrow> json option) \<Rightarrow> turn \<Rightarrow> worker \<Rightarrow> worker" where
  "post_turn parse t w =
     (let ok = status_code (answer t) = 201 in
      w\<lparr>created_ids := (case answered_id parse (answer t) of None \<Rightarrow> created_ids w | Some i \<Rightarrow> remember i (created_ids w)),
        calls := calls w @ [(PostOrder (order_payload t), answer t)],
        worker_log := worker_log w @ [(if ok then ''request_sent'' else ''request_failed'', ''POST'', status_code (answer t))]\<rparr>)"

definition take_turn :: "(string \<Rightarrow> json option) \<Rightarrow> turn \<Rightarrow> worker \<Rightarrow> worker" where
  "take_turn parse t w =
     (if created_ids w \<noteq> [] \<and> patch_die t = 0 then patch_turn t w else post_turn parse t w)"

definition run_worker :: "(string \<Rightarrow> json option) \<Rightarrow> turn list \<Rightarrow> worker" where
  "run_worker parse ts =
     fold (take_turn parse) ts \<lparr>created_ids = [], calls = [], worker_log = []\<rparr>"

section \<open>What a worker remembers\<close>

text \<open>The identifiers of the answers to its posts, oldest first.\<close>

fun received :: "(string \<Rightarrow> json option) \<Rightarrow> (api_call \<times> (nat \<times> string) option) list \<Rightarrow> string list" where
  "received parse [] = []"
| "received parse ((PostOrder _, ans) # cs) =
     (case answered_id parse ans of None \<Rightarrow> [] | Some i \<Rightarrow> [i]) @ received parse cs"
| "received parse ((PatchStatus _ _, ans) # cs) = received parse cs"

definition last_n :: "nat \<Rightarrow> 'a list \<Rightarrow> 'a list" where
  "last_n n xs = drop (length xs - n) xs"

definition patches_known :: "(string \<Rightarrow> json option) \<Rightarrow> (api_call \<times> (nat \<times> string) option) list \<Rightarrow> bool" where
  "patches_known parse cs \<longleftrightarrow>
     (\<forall>k < length cs. case fst (cs ! k) of
        PostOrder _ \<Rightarrow> True
      | PatchStatus path _ \<Rightarrow>
          \<exists>i \<in> set (received parse (take k cs)). path = ''/api/v1/orders/'' @ i @ ''/status'')"

lemma received_append: "received parse (cs @ ds) = received parse cs @ received parse ds"
  by (induction parse cs rule: received.induct) auto

lemma remember_last:
  "remember i (last_n ring_size xs) = last_n ring_size (xs @ [i])"
proof (cases "ring_size \<le> length xs")
  case True
  then have "tl (drop (length xs - ring_size) xs) = drop (Suc (length xs) - ring_size) xs"
    by (metis Suc_diff_le drop_Suc tl_drop)
  with True show ?thesis by (simp add: remember_def last_n_def ring_size_def)
next
  case False
  then show ?thesis by (simp add: remember_def last_n_def)
qed

lemma patches_known_snoc:
  assumes "patches_known parse cs"
    and "case c of PostOrder _ \<Rightarrow> True
      | PatchStatus path _ \<Rightarrow> \<exists>i \<in> set (received parse cs). path = ''/api/v1/orders/'' @ i @ ''/status''"
  shows "patches_known parse (cs @ [(c, ans)])"
  using assms by (auto simp: patches_known_def nth_append less_Suc_eq split: api_call.splits)

lemma take_turn_keeps:
  assumes "created_ids w = last_n ring_size (received parse (calls w))" "patches_known parse (calls w)"
  shows "created_ids (take_turn parse t w) = last_n ring_size (received parse (calls (take_turn parse t w)))
    \<and> patches_known parse (calls (take_turn parse t w))"
proof (cases "created_ids w \<noteq> [] \<and> patch_die t = 0")
  case True
  let ?i = "created_ids w ! (pick t mod length (created_ids w))"
  have "?i \<in> set (created_ids w)" using True by simp
  then have "?i \<in> set (received parse (calls w))" unfolding assms(1) last_n_def by (rule in_set_dropD)
  with True assms show ?thesis
    by (auto simp: take_turn_def patch_turn_def Let_def received_append intro!: patches_known_snoc)
next
  case False
  with assms show ?thesis
    by (auto simp: take_turn_def post_turn_def Let_def received_append remember_last
        intro!: patches_known_snoc split: option.splits)
qed

text \<open>
  A worker remembers exactly the last 512 identifiers the API gave it, whatever it meets, and it
  patches only orders it was given before; together the workers offer at most the configured rate, and
  less than one request per thread and second below it, unless there are more threads than requests per
  second: then every thread sends one, more than configured.
\<close>

theorem worker_memory:
  "created_ids (run_worker parse ts) = last_n ring_size (received parse (calls (run_worker parse ts)))
   \<and> length (created_ids (run_worker parse ts)) \<le> 512
   \<and> patches_known parse (calls (run_worker parse ts))
   \<and> (\<forall>rps threads. let offered = threads * thread_rps rps threads in
        0 < threads \<longrightarrow> (if threads \<le> rps then rps - threads < offered \<and> offered \<le> rps else offered = threads))"
proof -
  have mem: "created_ids w = last_n ring_size (received parse (calls w)) \<and> patches_known parse (calls w) \<Longrightarrow>
      created_ids (fold (take_turn parse) ts w) = last_n ring_size (received parse (calls (fold (take_turn parse) ts w)))
      \<and> patches_known parse (calls (fold (take_turn parse) ts w))" for w
    by (induction ts arbitrary: w) (auto dest: take_turn_keeps)
  have "created_ids (run_worker parse ts) = last_n ring_size (received parse (calls (run_worker parse ts)))
      \<and> patches_known parse (calls (run_worker parse ts))"
    unfolding run_worker_def by (rule mem) (simp add: last_n_def patches_known_def)
  moreover have "if threads \<le> rps then rps - threads < threads * thread_rps rps threads \<and> threads * thread_rps rps threads \<le> rps
      else threads * thread_rps rps threads = threads" if "0 < threads" for rps threads
  proof (cases "threads \<le> rps")
    case True
    with that have "1 \<le> rps div threads" by (simp add: pos_imp_zdiv_pos_iff [symmetric] zdiv_mono1 [of threads rps, simplified] int_one_le_iff_zero_less)
    with True that have "thread_rps rps threads = rps div threads" by (simp add: thread_rps_def)
    moreover have "threads * (rps div threads) = rps - rps mod threads" by (simp add: minus_mod_eq_mult_div [symmetric])
    ultimately show ?thesis using True that pos_mod_bound [of threads rps] pos_mod_sign [of threads rps] by simp
  next
    case False
    have "sgn rps * (\<bar>rps\<bar> div threads) \<le> 1"
    proof (cases "0 \<le> rps")
      case True
      with False show ?thesis by (simp add: div_pos_pos_trivial)
    next
      case neg: False
      then have "0 \<le> \<bar>rps\<bar> div threads" using that by (simp add: pos_imp_zdiv_nonneg_iff)
      with neg show ?thesis by (simp add: sgn_if)
    qed
    then have "thread_rps rps threads = 1" by (simp add: thread_rps_def)
    with False show ?thesis by simp
  qed
  ultimately show ?thesis by (auto simp: Let_def last_n_def ring_size_def)
qed

theorem worker_memory_witness:
  "created_ids (run_worker (\<lambda>b. Some (JObj [(''id'', JStr b)]))
     [\<lparr>patch_die = 1, pick = 0, status_pick = 0, product_pick = 0, qty_pick = 0, user_pick = ''u'', amount_pick = 10,
       answer = Some (201, ''a'')\<rparr>]) = [''a'']
   \<and> 10 * thread_rps 105 10 \<le> 105"
proof -
  let ?t = "\<lparr>patch_die = 1, pick = 0, status_pick = 0, product_pick = 0, qty_pick = 0, user_pick = ''u'', amount_pick = 10,
       answer = Some (201, ''a'')\<rparr> :: turn"
  let ?p = "\<lambda>b. Some (JObj [(''id'', JStr b)])"
  have run: "calls (run_worker ?p [?t]) = [(PostOrder (order_payload ?t), Some (201, ''a''))]"
    by (simp add: run_worker_def take_turn_def post_turn_def Let_def)
  have "received ?p (calls (run_worker ?p [?t])) = [''a'']" unfolding run by (simp add: answered_id_def)
  then show ?thesis using worker_memory [of ?p "[?t]"] by (auto simp: Let_def last_n_def ring_size_def)
qed

end
