(* ===== verification/Traffic_Counts.thy ===== *)
theory Traffic_Counts
  imports Kibana_Sources Load_Generator Cache_Aside
begin

text \<open>
  What the first card of the dashboard counts: "Total Orders Ingested" counts the documents of the index
  Logstash sends the events of the API and of the load generator to. How many documents one request leaves
  there.
\<close>

text \<open>How many of the events go to the index of the API's logs.\<close>

definition api_documents :: "string list \<Rightarrow> nat" where
  "api_documents es = length (filter (\<lambda>e. log_index (Some e) = ''cdc-api-logs-*'') es)"

abbreviation handler_documents :: "('d, 'r) api_state \<Rightarrow> nat" where
  "handler_documents s \<equiv> api_documents (map fst (api_log s))"

abbreviation worker_documents :: "worker \<Rightarrow> nat" where
  "worker_documents w \<equiv> api_documents (map fst (worker_log w))"

lemma api_documents_append [simp]:
  "api_documents (es @ [e]) = api_documents es + (if e \<in> set api_events then 1 else 0)"
  by (simp add: api_documents_def log_index_cases)

lemma handler_documents_event [simp]:
  "handler_documents (api_event e s) = handler_documents s + (if fst e \<in> set api_events then 1 else 0)"
  by (simp add: api_event_def)

lemma create_order_documents:
  "create_order env pg u a items s = (res, s') \<Longrightarrow> handler_documents s' = handler_documents s"
  by (auto simp: create_order_def Let_def api_events_def split: sum.splits prod.splits)

lemma post_order_documents:
  assumes "post_order env pg body s = (r, s')" "reply_status r = 201"
  shows "handler_documents s' = handler_documents s + 1"
proof (cases "order_fields env body")
  case (Inl e)
  with assms show ?thesis by (auto simp: post_order_def caught_def bad_request_def server_error_def split: api_error.splits)
next
  case (Inr f)
  obtain u a items where f: "f = (u, a, items)" by (cases f) auto
  obtain res s1 where c: "create_order env pg u a items s = (res, s1)" by fastforce
  from create_order_documents [OF c] assms Inr f c show ?thesis
    by (auto simp: post_order_def caught_def bad_request_def server_error_def Let_def api_events_def
        split: api_error.splits sum.splits)
qed

lemma patch_status_documents:
  assumes "patch_status env pg i body s = (r, s')" "reply_status r = 200"
  shows "handler_documents s' = handler_documents s + 1"
  using assms
  by (auto simp: patch_status_def update_order_status_def caught_def bad_request_def server_error_def not_found_def api_events_def
      split: sum.splits prod.splits api_error.splits bool.splits if_splits)

lemma from_postgres_documents:
  "from_postgres env pg i s = (r, s') \<Longrightarrow> handler_documents s' = handler_documents s"
  by (auto simp: from_postgres_def get_order_by_id_def Let_def api_events_def
      split: sum.splits prod.splits option.splits list.splits)

lemma get_order_documents:
  assumes "get_order env pg api i s = (r, s')" "connected s" "get_plan s = []"
  shows "handler_documents s' = handler_documents s + 1"
proof -
  note served = cache_get_served [OF assms(2,3), of api "order_key i"]
  show ?thesis
  proof (cases "redis_get api (c_string (order_key i)) (kv s)")
    case None
    with assms(1) served from_postgres_documents show ?thesis by (fastforce simp: get_order_def Let_def api_events_def)
  next
    case (Some t)
    with assms(1) served from_postgres_documents show ?thesis
      by (fastforce simp: get_order_def Let_def api_events_def split: sum.splits)
  qed
qed

lemma take_turn_documents: "worker_documents (take_turn parse t w) = worker_documents w + 1"
  by (simp add: take_turn_def patch_turn_def post_turn_def Let_def api_events_def)



end
