(* ===== verification/Double_Division.thy ===== *)
theory Double_Division
  imports Double_Rounding Decimal_Text Complex_Main
begin

text \<open>
  Division and fixed-point printing of IEEE binary64 numbers, as Python's \<open>/\<close> and format
  specification \<open>.1f\<close> compute them: the nearest double of a positive rational, ties to even, the
  exponent unbounded. The main fact: a count divided by ten and printed with one digit is exact.
\<close>

definition pow2 :: "int \<Rightarrow> rat" where
  "pow2 e = (if 0 \<le> e then 2 ^ nat e else 1 / 2 ^ nat (- e))"

definition half_even_rat :: "rat \<Rightarrow> int" where
  "half_even_rat x =
     (let f = \<lfloor>x\<rfloor>; d = x - of_int f in
      if d < 1 / 2 then f else if 1 / 2 < d then f + 1 else if even f then f else f + 1)"

text \<open>The exponent of the leading bit of a positive rational.\<close>

definition binade :: "rat \<Rightarrow> int" where
  "binade q =
     (let (a, b) = quotient_of q;
          k = int (bit_length (nat a)) - int (bit_length (nat b)) in
      if pow2 k \<le> q then k else k - 1)"

definition double_of_rat :: "rat \<Rightarrow> rat" where
  "double_of_rat q =
     (if q = 0 then 0
      else (let u = pow2 (binade \<bar>q\<bar> - 52); r = of_int (half_even_rat (\<bar>q\<bar> / u)) * u in
            if q < 0 then - r else r))"

text \<open>\<open>format(x, ".<d>f")\<close>\<close>

definition format_fixed :: "nat \<Rightarrow> rat \<Rightarrow> string" where
  "format_fixed d x =
     (let n = nat (half_even_rat (\<bar>x\<bar> * 10 ^ d)) in
      (if x < 0 then ''-'' else []) @ show_nat (n div 10 ^ d) @
      (if d = 0 then [] else
        ''.'' @ replicate (d - length (show_nat (n mod 10 ^ d))) (CHR ''0'') @ show_nat (n mod 10 ^ d)))"

lemma half_even_rat_near: "\<bar>of_int (half_even_rat x) - x\<bar> \<le> 1 / 2"
proof -
  have "of_int \<lfloor>x\<rfloor> \<le> x" "x < of_int \<lfloor>x\<rfloor> + 1" by linarith+
  then show ?thesis by (auto simp: half_even_rat_def Let_def abs_le_iff)
qed

lemma half_even_rat_eq: "\<bar>x - of_int n\<bar> < 1 / 2 \<Longrightarrow> half_even_rat x = n"
proof -
  assume near: "\<bar>x - of_int n\<bar> < 1 / 2"
  have "\<bar>of_int (half_even_rat x) - of_int n\<bar> < (1 :: rat)"
    using near half_even_rat_near [of x] by linarith
  then have "\<bar>of_int (half_even_rat x - n)\<bar> < (1 :: rat)" by simp
  then show ?thesis by linarith
qed

lemma pow2_pos [simp]: "0 < pow2 e"
  by (simp add: pow2_def)

lemma pow2_abs [simp]: "\<bar>pow2 e\<bar> = pow2 e"
  by (rule abs_of_pos) (rule pow2_pos)

lemma pow2_nonzero [simp]: "pow2 e \<noteq> 0"
  by (rule not_sym) (rule less_imp_neq, rule pow2_pos)

lemma pow2_nat_diff: "pow2 (int m - int n) = 2 ^ m / 2 ^ n"
proof (cases "n \<le> m")
  case True
  then have "nat (int m - int n) = m - n" by simp
  with True show ?thesis by (simp add: pow2_def power_diff)
next
  case False
  then have "nat (- (int m - int n)) = n - m" "\<not> 0 \<le> int m - int n" by simp_all
  with False show ?thesis by (simp add: pow2_def power_diff)
qed

lemma pow2_minus: "pow2 (e - int n) = pow2 e / 2 ^ n"
proof (cases "0 \<le> e")
  case True
  then obtain m where "e = int m" using zero_le_imp_eq_int by blast
  then show ?thesis using pow2_nat_diff [of m n] pow2_nat_diff [of m 0] by simp
next
  case False
  then obtain m where "e = - int m" by (metis minus_minus neg_0_le_iff_le nat_0_le linear)
  then show ?thesis
    using pow2_nat_diff [of 0 "m + n"] pow2_nat_diff [of 0 m] by (simp add: power_add algebra_simps)
qed

lemma binade_lower:
  assumes "0 < q"
  shows "pow2 (binade q) \<le> q"
proof -
  obtain a b where ab: "quotient_of q = (a, b)" by (cases "quotient_of q")
  have b: "0 < b" using quotient_of_denom_pos [OF ab] .
  have q: "q = of_int a / of_int b" using quotient_of_div [OF ab] .
  have a: "0 < a" using assms b by (simp add: q zero_less_divide_iff)
  let ?k = "int (bit_length (nat a)) - int (bit_length (nat b))"
  have "pow2 (?k - 1) \<le> q"
  proof -
    let ?m = "bit_length (nat a)" and ?n = "bit_length (nat b)"
    have m: "0 < ?m" using a by (subst bit_length.simps) simp
    have "(2 :: nat) ^ (?m - 1) \<le> nat a" using a by (intro bit_length_lower) simp
    then have lo: "(2 :: rat) ^ (?m - 1) \<le> of_int a"
      using a by (metis of_int_of_nat_eq of_nat_le_iff of_nat_numeral of_nat_power int_nat_eq less_imp_le)
    have "nat b < 2 ^ ?n" by (rule bit_length_upper)
    then have up: "of_int b \<le> (2 :: rat) ^ ?n"
      using b by (metis int_nat_eq less_imp_le of_int_of_nat_eq of_nat_le_iff of_nat_numeral of_nat_power)
    have "pow2 (?k - 1) = 2 ^ (?m - 1) / 2 ^ ?n"
      using pow2_nat_diff [of "?m - 1" ?n] m by (simp add: of_nat_diff algebra_simps)
    also have "\<dots> \<le> of_int a / of_int b"
      using lo up a b by (intro frac_le) simp_all
    finally show ?thesis by (simp add: q)
  qed
  then show ?thesis by (simp add: binade_def ab Let_def)
qed

lemma double_of_rat_error:
  assumes "0 < q"
  shows "\<bar>double_of_rat q - q\<bar> \<le> q / 2 ^ 53"
proof -
  let ?u = "pow2 (binade q - 52)"
  have u: "0 < ?u" by simp
  have "\<bar>of_int (half_even_rat (q / ?u)) - q / ?u\<bar> * ?u \<le> 1 / 2 * ?u"
    using half_even_rat_near [of "q / ?u"] less_imp_le [OF u] by (rule mult_right_mono)
  moreover have "\<bar>of_int (half_even_rat (q / ?u)) - q / ?u\<bar> * ?u = \<bar>of_int (half_even_rat (q / ?u)) * ?u - q\<bar>"
  proof -
    have "\<bar>of_int (half_even_rat (q / ?u)) - q / ?u\<bar> * ?u = \<bar>(of_int (half_even_rat (q / ?u)) - q / ?u) * ?u\<bar>"
      by (simp add: abs_mult)
    also have "\<dots> = \<bar>of_int (half_even_rat (q / ?u)) * ?u - q\<bar>" using u by (simp add: left_diff_distrib)
    finally show ?thesis .
  qed
  moreover have "?u * 2 ^ 52 \<le> q" using binade_lower [OF assms] pow2_minus [of "binade q" 52] by simp
  ultimately have "\<bar>of_int (half_even_rat (q / ?u)) * ?u - q\<bar> \<le> q / 2 ^ 53" by simp
  with assms show ?thesis by (simp add: double_of_rat_def Let_def)
qed

text \<open>\<open>f"{count / 10.0:.1f}"\<close>\<close>

definition tenth :: "int \<Rightarrow> rat" where
  "tenth n = double_of_rat (of_int (double_of_int n) / 10)"

lemma format_tenth:
  assumes "n < 2 ^ 52"
  shows "format_fixed 1 (tenth (int n)) = show_nat (n div 10) @ ''.'' @ show_nat (n mod 10)"
proof (cases "n = 0")
  case True
  then show ?thesis by (simp add: format_fixed_def tenth_def double_of_int_exact double_of_rat_def half_even_rat_def show_nat.simps)
next
  case False
  let ?q = "of_nat n / 10 :: rat"
  have q: "0 < ?q" using False by simp
  have "int n < 2 ^ 52" using assms by (metis of_nat_less_iff of_nat_numeral of_nat_power)
  then have t: "tenth (int n) = double_of_rat ?q" by (simp add: tenth_def double_of_int_exact)
  have small: "?q / 2 ^ 53 * 10 < 1 / 2"
  proof -
    have "(of_nat n :: rat) < 2 ^ 52" using assms by (metis of_nat_less_iff of_nat_numeral of_nat_power)
    then show ?thesis by simp
  qed
  have err: "\<bar>double_of_rat ?q - ?q\<bar> \<le> ?q / 2 ^ 53" using q by (rule double_of_rat_error)
  have "?q / 2 ^ 53 \<le> ?q" using q by simp
  with err have pos: "0 \<le> double_of_rat ?q" by linarith
  have "\<bar>double_of_rat ?q * 10 - of_int (int n)\<bar> = \<bar>(double_of_rat ?q - ?q) * 10\<bar>" by simp
  also have "\<dots> = \<bar>double_of_rat ?q - ?q\<bar> * 10" by (simp only: abs_mult abs_numeral)
  also have "\<dots> \<le> ?q / 2 ^ 53 * 10" using err by (rule mult_right_mono) simp
  also have "\<dots> < 1 / 2" by (rule small)
  finally have "half_even_rat (double_of_rat ?q * 10) = int n" by (rule half_even_rat_eq)
  with pos show ?thesis
    by (simp add: format_fixed_def t) (simp add: show_nat.simps [of "n mod 10"])
qed

end
