(* ===== verification/Es_Query.thy ===== *)
theory Es_Query
  imports Py_Http Double_Division
begin

text \<open>
  What the two scripts that read Elasticsearch share (\<open>scripts/check_soak_status.py\<close> and
  \<open>scripts/generate_benchmark_charts.py\<close>): the operations on the values \<open>json.loads\<close> returns, with
  the exceptions Python raises on them, floats, and \<open>query_es\<close>.
\<close>

section \<open>Results of Python code\<close>

type_synonym 'a py = "py_error + 'a"

fun and_then :: "'a py \<Rightarrow> ('a \<Rightarrow> 'b py) \<Rightarrow> 'b py" where
  "and_then (Inl e) f = Inl e"
| "and_then (Inr a) f = f a"

fun traverse :: "('a \<Rightarrow> 'b py) \<Rightarrow> 'a list \<Rightarrow> 'b list py" where
  "traverse f [] = Inr []"
| "traverse f (x # xs) = and_then (f x) (\<lambda>y. and_then (traverse f xs) (\<lambda>ys. Inr (y # ys)))"

lemma and_then_Inr: "and_then r f = Inr b \<longleftrightarrow> (\<exists>a. r = Inr a \<and> f a = Inr b)"
  by (cases r) auto

lemma traverse_Inr: "traverse f xs = Inr ys \<longleftrightarrow> list_all2 (\<lambda>x y. f x = Inr y) xs ys"
proof (induction xs arbitrary: ys)
  case (Cons x xs)
  then show ?case by (cases ys) (auto simp: and_then_Inr)
qed auto

lemma traverse_map: "(\<And>x. x \<in> set xs \<Longrightarrow> f x = Inr (g x)) \<Longrightarrow> traverse f xs = Inr (map g xs)"
  by (induction xs) auto

section \<open>Subscripts, length and iteration\<close>

text \<open>\<open>v[k]\<close> with a string \<open>k\<close>: \<open>KeyError\<close> on a dict without the key, \<open>TypeError\<close> on anything else.\<close>

definition subscript :: "pystr \<Rightarrow> pyval \<Rightarrow> pyval py" where
  "subscript k v =
     (case v of
        PDict ms \<Rightarrow> (case map_of ms k of None \<Rightarrow> Inl LookupFailed | Some w \<Rightarrow> Inr w)
      | _ \<Rightarrow> Inl TypeFailed)"

fun subscripts :: "pystr list \<Rightarrow> pyval \<Rightarrow> pyval py" where
  "subscripts [] v = Inr v"
| "subscripts (k # ks) v = and_then (subscript k v) (subscripts ks)"

definition py_len :: "pyval \<Rightarrow> nat py" where
  "py_len v =
     (case v of PList xs \<Rightarrow> Inr (length xs) | PStr t \<Rightarrow> Inr (length t) | PDict ms \<Rightarrow> Inr (length ms)
      | _ \<Rightarrow> Inl TypeFailed)"

text \<open>What a \<open>for\<close> loop runs over: the elements, the characters, the keys.\<close>

definition py_iter :: "pyval \<Rightarrow> pyval list py" where
  "py_iter v =
     (case v of
        PList xs \<Rightarrow> Inr xs
      | PStr t \<Rightarrow> Inr (map (\<lambda>c. PStr [c]) t)
      | PDict ms \<Rightarrow> Inr (map (\<lambda>p. PStr (fst p)) ms)
      | _ \<Rightarrow> Inl TypeFailed)"

text \<open>\<open>v[-n:]\<close>; a dict does not take a slice.\<close>

definition last_items :: "nat \<Rightarrow> pyval \<Rightarrow> pyval py" where
  "last_items n v =
     (case v of
        PList xs \<Rightarrow> Inr (PList (drop (length xs - n) xs))
      | PStr t \<Rightarrow> Inr (PStr (drop (length t - n) t))
      | _ \<Rightarrow> Inl TypeFailed)"

lemma subscript_PDict [simp]: "map_of ms k = Some w \<Longrightarrow> subscript k (PDict ms) = Inr w"
  by (simp add: subscript_def)

lemma py_containers [simp]:
  "py_len (PList xs) = Inr (length xs)" "py_iter (PList xs) = Inr xs"
  "last_items n (PList xs) = Inr (PList (drop (length xs - n) xs))"
  by (simp_all add: py_len_def py_iter_def last_items_def)

section \<open>Floats\<close>

datatype py_float = Finite rat | PosInf | NegInf | NotANumber

text \<open>
  A number read as a double; an integer beyond the range of the doubles raises \<open>OverflowError\<close>, a
  decimal beyond it has been read as an infinity.
\<close>

definition ranged :: "rat \<Rightarrow> py_float" where
  "ranged q = (if 2 ^ 1024 \<le> q then PosInf else if q \<le> - (2 ^ 1024) then NegInf else Finite q)"

definition to_float :: "pyval \<Rightarrow> py_float py" where
  "to_float v =
     (case v of
        PInt i \<Rightarrow> if 2 ^ 1024 \<le> \<bar>double_of_int i\<bar> then Inl OverflowFailed else Inr (Finite (of_int (double_of_int i)))
      | PBool b \<Rightarrow> Inr (Finite (if b then 1 else 0))
      | PFloat m k \<Rightarrow> Inr (ranged (double_of_rat (of_int m / 10 ^ k)))
      | PSpecial c \<Rightarrow> Inr (if c = ''Infinity'' then PosInf else if c = ''-Infinity'' then NegInf else NotANumber)
      | _ \<Rightarrow> Inl TypeFailed)"

text \<open>\<open>v / 10.0\<close>\<close>

definition over_ten :: "pyval \<Rightarrow> py_float py" where
  "over_ten v =
     and_then (to_float v) (\<lambda>x. Inr (case x of Finite q \<Rightarrow> Finite (double_of_rat (q / 10)) | _ \<Rightarrow> x))"

text \<open>\<open>format(x, ".<d>f")\<close>\<close>

definition float_text :: "nat \<Rightarrow> py_float \<Rightarrow> string" where
  "float_text d x =
     (case x of Finite q \<Rightarrow> format_fixed d q | PosInf \<Rightarrow> ''inf'' | NegInf \<Rightarrow> ''-inf'' | NotANumber \<Rightarrow> ''nan'')"

lemma over_ten_count:
  assumes "n < 2 ^ 52"
  shows "over_ten (PInt (int n)) = Inr (Finite (tenth (int n)))"
proof -
  have n: "int n < 2 ^ 52" using assms by (metis of_nat_less_iff of_nat_numeral of_nat_power)
  then have "double_of_int (int n) = int n" by (simp add: double_of_int_exact)
  moreover have "\<not> (2 :: int) ^ 1024 \<le> int n"
    using n power_strict_increasing [of 52 1024 "2 :: int"] by linarith
  ultimately show ?thesis by (simp add: over_ten_def to_float_def tenth_def)
qed

section \<open>\<open>query_es\<close>\<close>

definition search_request :: "pystr \<Rightarrow> pyval \<Rightarrow> request" where
  "search_request index query =
     \<lparr>r_method = T ''POST'', r_url = T ''http://localhost:9200/'' @ index @ T ''/_search'',
      r_headers = [(T ''Content-Type'', T ''application/json'')], r_body = encode_utf8 (dumps query)\<rparr>"

definition answer_value :: "http_outcome \<Rightarrow> pyval py" where
  "answer_value r =
     (case r of
        Answer _ None \<Rightarrow> Inl UnicodeDecodeError
      | Answer _ (Some body) \<Rightarrow> (case loads body of None \<Rightarrow> Inl JSONDecodeError | Some v \<Rightarrow> Inr v)
      | _ \<Rightarrow> Inl (outcome_error r))"

definition query_es :: "'k http \<Rightarrow> pystr \<Rightarrow> pyval \<Rightarrow> ('k, pyval) action" where
  "query_es srv index query s =
     (case urlopen srv (search_request index query) s of (r, s') \<Rightarrow> (answer_value r, s'))"

text \<open>The aggregation both scripts ask for: a count for every ten seconds.\<close>

definition rate_aggregation :: "(pystr \<times> pyval) list" where
  "rate_aggregation =
     [(T ''aggs'', PDict [
        (T ''rate_per_10s'', PDict [
          (T ''date_histogram'', PDict [(T ''field'', S ''@timestamp''), (T ''fixed_interval'', S ''10s'')])])])]"

definition bucket_path :: "pystr list" where
  "bucket_path = [T ''aggregations'', T ''rate_per_10s'', T ''buckets'']"

lemma query_es_frame:
  "query_es srv index query s = (res, s') \<Longrightarrow>
     printed s' = printed s \<and> (\<exists>r. sent s' = sent s @ [(search_request index query, r)] \<and> res = answer_value r)"
  by (auto simp: query_es_def dest!: urlopen_frame split: prod.splits)

text \<open>
  A bucket and an answer as the scripts read them: the text of the interval and the count of each bucket,
  under any members beside them (Elasticsearch sends \<open>key\<close>, \<open>took\<close>, \<open>hits\<close> and others).
\<close>

definition is_bucket :: "pyval \<Rightarrow> pystr \<times> nat \<Rightarrow> bool" where
  "is_bucket b p \<longleftrightarrow>
     subscript (T ''key_as_string'') b = Inr (PStr (fst p)) \<and> subscript (T ''doc_count'') b = Inr (PInt (int (snd p)))"

definition is_histogram :: "pyval \<Rightarrow> (pystr \<times> nat) list \<Rightarrow> bool" where
  "is_histogram v ps \<longleftrightarrow>
     (case subscripts bucket_path v of Inr (PList bs) \<Rightarrow> list_all2 is_bucket bs ps | _ \<Rightarrow> False)"

lemma is_bucketD:
  assumes "is_bucket b p"
  shows "subscript (T ''key_as_string'') b = Inr (PStr (fst p))" "subscript (T ''doc_count'') b = Inr (PInt (int (snd p)))"
  using assms by (simp_all add: is_bucket_def)

lemma is_histogramE:
  assumes "is_histogram v ps"
  obtains bs where "subscripts bucket_path v = Inr (PList bs)" "list_all2 is_bucket bs ps"
  using assms by (auto simp: is_histogram_def split: sum.splits pyval.splits)

text \<open>A function whose value on a bucket is given by its interval and count.\<close>

lemma traverse_buckets:
  assumes "list_all2 is_bucket bs ps" "\<And>b p. is_bucket b p \<Longrightarrow> p \<in> set ps \<Longrightarrow> f b = Inr (g p)"
  shows "traverse f bs = Inr (map g ps)"
  using assms by (induction bs ps rule: list_all2_induct) auto

text \<open>An answer of Elasticsearch 8 to the search of the scripts, for the witnesses.\<close>

definition bucket :: "pystr \<times> nat \<Rightarrow> pyval" where
  "bucket p = PDict
     [(T ''key_as_string'', PStr (fst p)), (T ''key'', PInt 1767261600000), (T ''doc_count'', PInt (int (snd p)))]"

definition histogram :: "(pystr \<times> nat) list \<Rightarrow> pyval" where
  "histogram ps = PDict
     [(T ''took'', PInt 7), (T ''timed_out'', PBool False),
      (T ''_shards'', PDict [(T ''total'', PInt 1), (T ''successful'', PInt 1), (T ''skipped'', PInt 0), (T ''failed'', PInt 0)]),
      (T ''hits'', PDict
        [(T ''total'', PDict [(T ''value'', PInt 10000), (T ''relation'', S ''gte'')]), (T ''max_score'', PNone), (T ''hits'', PList [])]),
      (T ''aggregations'', PDict [(T ''rate_per_10s'', PDict [(T ''buckets'', PList (map bucket ps))])])]"

lemma is_histogram_sample [simp]: "is_histogram (histogram ps) ps"
proof -
  have "is_bucket (bucket p) p" for p by (simp add: is_bucket_def subscript_def bucket_def ascii_Cons)
  then show ?thesis
    by (simp add: is_histogram_def histogram_def bucket_path_def subscript_def ascii_Cons list_all2_map1 list.rel_refl)
qed

lemma wf_histogram: "\<forall>p \<in> set ps. list_all scalar (fst p) \<Longrightarrow> wf_val (histogram ps)"
  by (auto simp: histogram_def bucket_def)

end
