(* ===== verification/Soak_Status.thy ===== *)
theory Soak_Status
  imports Es_Query
begin

text \<open>
  \<open>scripts/check_soak_status.py\<close>: the request rate of the last eight ten-second intervals of a
  soak test, as it prints it.
\<close>

definition soak_query :: pyval where
  "soak_query = PDict ((T ''size'', PInt 0) # rate_aggregation)"

text \<open>
  The line of one bucket, its exceptions in the order of the code: the count, the division, then the
  key. \<open>str\<close> is how Python prints a value that is no text (\<open>str(v)\<close>).
\<close>

definition str_of :: "(pyval \<Rightarrow> pystr) \<Rightarrow> pyval \<Rightarrow> pystr" where
  "str_of str v = (case v of PStr t \<Rightarrow> t | PInt i \<Rightarrow> ascii (show_int i) | _ \<Rightarrow> str v)"

definition soak_line :: "(pyval \<Rightarrow> pystr) \<Rightarrow> pyval \<Rightarrow> pystr py" where
  "soak_line str b =
     and_then (subscript (T ''doc_count'') b) (\<lambda>count.
     and_then (over_ten count) (\<lambda>rps.
     and_then (subscript (T ''key_as_string'') b) (\<lambda>key.
       Inr (T ''  '' @ str_of str key @ T '': '' @ str_of str count @ T '' requests (''
              @ ascii (float_text 1 rps) @ T '' req/sec)''))))"

fun print_buckets :: "(pyval \<Rightarrow> pystr) \<Rightarrow> pyval list \<Rightarrow> ('k, unit) action" where
  "print_buckets str [] s = (Inr (), s)"
| "print_buckets str (b # bs) s =
     (case soak_line str b of
        Inl e \<Rightarrow> (Inl e, s)
      | Inr line \<Rightarrow> print_buckets str bs (py_print line s))"

definition soak_report :: "(pyval \<Rightarrow> pystr) \<Rightarrow> pyval \<Rightarrow> ('k, unit) action" where
  "soak_report str res s =
     (case and_then (subscripts bucket_path res) (\<lambda>bs. and_then (py_len bs) (\<lambda>n. Inr (bs, n))) of
        Inl e \<Rightarrow> (Inl e, s)
      | Inr (bs, n) \<Rightarrow>
          (let s1 = py_print (T ''Recent 10s intervals:'')
                      (py_print (T ''Total time buckets: '' @ ascii (show_nat n)) s) in
           case and_then (last_items 8 bs) py_iter of
             Inl e \<Rightarrow> (Inl e, s1)
           | Inr recent \<Rightarrow> print_buckets str recent s1))"

definition soak_main :: "(pyval \<Rightarrow> pystr) \<Rightarrow> 'k http \<Rightarrow> ('k, unit) action" where
  "soak_main str srv s =
     (case query_es srv (T ''cdc-api-logs-*'') soak_query s of
        (Inl e, s') \<Rightarrow> (Inl e, s')
      | (Inr res, s') \<Rightarrow> soak_report str res s')"

section \<open>What it prints\<close>

definition rate_line :: "pystr \<times> nat \<Rightarrow> pystr" where
  "rate_line p =
     T ''  '' @ fst p @ T '': '' @ T (show_nat (snd p)) @ T '' requests ('' @ T (show_nat (snd p div 10)) @ T ''.''
       @ T (show_nat (snd p mod 10)) @ T '' req/sec)''"

lemma show_int_nat [simp]: "show_int (int n) = show_nat n"
  by (simp add: show_int_def)

lemma tenth_text:
  assumes "n < 2 ^ 52"
  shows "T (float_text 1 (Finite (tenth (int n)))) = T (show_nat (n div 10)) @ T ''.'' @ T (show_nat (n mod 10))"
  unfolding float_text_def py_float.case format_tenth [OF assms] by (simp only: ascii_simps)

lemma soak_line_bucket:
  "is_bucket b p \<Longrightarrow> snd p < 2 ^ 52 \<Longrightarrow> soak_line str b = Inr (rate_line p)"
  by (simp add: is_bucketD soak_line_def over_ten_count str_of_def tenth_text rate_line_def del: One_nat_def)

lemma print_buckets_lines:
  "list_all2 is_bucket bs ps \<Longrightarrow> \<forall>p \<in> set ps. snd p < 2 ^ 52 \<Longrightarrow>
   print_buckets str bs s = (Inr (), s\<lparr>printed := printed s @ map rate_line ps\<rparr>)"
  by (induction bs ps arbitrary: s rule: list_all2_induct) (simp_all add: soak_line_bucket py_print_def)

text \<open>
  The status report. When Elasticsearch answers with a histogram, whatever the JSON text it
  sends and the other members in it, the script sends one search request and prints the number of intervals and, for the last
  eight intervals (all of them when there are fewer), in order, the interval, its count and the count
  divided by ten with one digit; the digit is exact for counts below \<open>2 ^ 52\<close>.
\<close>

theorem soak_report_exact:
  assumes "srv (search_request (T ''cdc-api-logs-*'') soak_query) (peer s) = (Answer st (Some body), k)"
    and "loads body = Some v" "is_histogram v ps" "\<forall>p \<in> set ps. snd p < 2 ^ 52"
  shows "soak_main str srv s =
    (Inr (), \<lparr>peer = k, sent = sent s @ [(search_request (T ''cdc-api-logs-*'') soak_query, Answer st (Some body))],
       printed = printed s
         @ [T ''Total time buckets: '' @ T (show_nat (length ps)), T ''Recent 10s intervals:'']
         @ map rate_line (drop (length ps - 8) ps)\<rparr>)"
proof -
  obtain bs where bs: "subscripts bucket_path v = Inr (PList bs)" "list_all2 is_bucket bs ps"
    using assms(3) by (rule is_histogramE)
  then have len: "length bs = length ps" by (simp add: list_all2_lengthD)
  have "list_all2 is_bucket (drop (length ps - 8) bs) (drop (length ps - 8) ps)"
    using bs(2) by (rule list_all2_dropI)
  moreover have "\<forall>p \<in> set (drop (length ps - 8) ps). snd p < 2 ^ 52"
    using assms(4) by (meson in_set_dropD)
  ultimately show ?thesis
    using assms(1,2)
    by (simp add: soak_main_def query_es_def urlopen_def answer_value_def soak_report_def bs(1) len
        py_print_def print_buckets_lines)
qed

definition sample_buckets :: "(pystr \<times> nat) list" where
  "sample_buckets = [(T ''10:00:00'', 10005), (T ''10:00:10'', 9)]"

definition replying :: "pyval \<Rightarrow> nat http" where
  "replying v req k = (Answer 200 (Some (dumps v)), Suc k)"

theorem soak_report_exact_witness:
  "printed (snd (soak_main (\<lambda>_. []) (replying (histogram sample_buckets)) \<lparr>peer = 0, sent = [], printed = []\<rparr>))
   = [T ''Total time buckets: 2'', T ''Recent 10s intervals:'',
      T ''  10:00:00: 10005 requests (1000.5 req/sec)'', T ''  10:00:10: 9 requests (0.9 req/sec)'']"
proof -
  let ?s = "\<lparr>peer = 0, sent = [], printed = []\<rparr> :: nat script"
  have wf: "wf_val (histogram sample_buckets)"
    by (rule wf_histogram) (simp add: sample_buckets_def)
  have small: "\<forall>p \<in> set sample_buckets. snd p < 2 ^ 52" by (simp add: sample_buckets_def)
  have reply: "replying (histogram sample_buckets) (search_request (T ''cdc-api-logs-*'') soak_query) (peer ?s)
      = (Answer 200 (Some (dumps (histogram sample_buckets))), 1)"
    by (simp add: replying_def)
  show ?thesis
    using soak_report_exact [where srv = "replying (histogram sample_buckets)" and s = ?s, OF reply loads_dumps [OF wf] is_histogram_sample small, of "\<lambda>_. []"]
    by (simp add: sample_buckets_def rate_line_def show_nat.simps digit_char_def ascii_def)
qed

section \<open>What stops it\<close>

definition report_failure :: "http_outcome \<Rightarrow> py_error option" where
  "report_failure r =
     (case r of
        Answer _ None \<Rightarrow> Some UnicodeDecodeError
      | Answer _ (Some body) \<Rightarrow>
          (case loads body of
             None \<Rightarrow> Some JSONDecodeError
           | Some v \<Rightarrow> (case subscripts bucket_path v of Inl e \<Rightarrow> Some e | Inr _ \<Rightarrow> None))
      | Refusal c _ \<Rightarrow> Some (HTTPError c)
      | NoConnection e \<Rightarrow> Some (URLError e))"

text \<open>
  What stops the report before it prints: no connection, an error status, bytes that are not
  UTF-8, a text that is not JSON, an answer without the aggregation (as Elasticsearch sends it when
  no index matches the pattern): each raises its own exception, and nothing is printed.
\<close>

theorem soak_report_failure:
  assumes "srv (search_request (T ''cdc-api-logs-*'') soak_query) (peer s) = (r, k)" "report_failure r = Some e"
    and "soak_main str srv s = (res, s')"
  shows "res = Inl e \<and> printed s' = printed s"
  using assms
  by (auto simp: soak_main_def query_es_def urlopen_def answer_value_def soak_report_def report_failure_def
      outcome_error_def Let_def split: http_outcome.splits option.splits sum.splits)

theorem soak_report_failure_witness:
  "fst (soak_main (\<lambda>_. []) (replying (PDict [])) \<lparr>peer = 0, sent = [], printed = []\<rparr>) = Inl LookupFailed"
proof -
  let ?s = "\<lparr>peer = 0, sent = [], printed = []\<rparr> :: nat script"
  have reply: "replying (PDict []) (search_request (T ''cdc-api-logs-*'') soak_query) (peer ?s)
      = (Answer 200 (Some (dumps (PDict []))), 1)"
    by (simp add: replying_def)
  have "loads (dumps (PDict [])) = Some (PDict [])" by (rule loads_dumps) simp
  then have "report_failure (Answer 200 (Some (dumps (PDict [])))) = Some LookupFailed"
    by (simp add: report_failure_def bucket_path_def subscript_def)
  from soak_report_failure [where srv = "replying (PDict [])" and s = ?s, OF reply this prod.collapse [symmetric]] show ?thesis by simp
qed

end
