(* ===== verification/Metrics_Report.thy ===== *)
theory Metrics_Report
  imports Soak_Status
begin

text \<open>
  \<open>scripts/test_metrics.py\<close>: two searches over the indices of the logs, and the figures it prints from the
  answers. \<open>str\<close> is how Python prints a value that is no text and no integer.
\<close>

section \<open>Searching\<close>

text \<open>\<open>es_search\<close>: an \<open>HTTPError\<close> is printed with its body and raised again.\<close>

definition es_search :: "'k http \<Rightarrow> pystr \<Rightarrow> pyval \<Rightarrow> ('k, pyval) action" where
  "es_search srv index query s =
     (case urlopen srv (search_request index query) s of
        (Refusal c None, s') \<Rightarrow> (Inl UnicodeDecodeError, s')
      | (Refusal c (Some body), s') \<Rightarrow> (Inl (HTTPError c), py_print (T ''ES Error: '' @ body) s')
      | (r, s') \<Rightarrow> (answer_value r, s'))"

definition percentiles_of :: "string \<Rightarrow> pyval" where
  "percentiles_of field =
     PDict [(T ''percentiles'', PDict [
        (T ''field'', S field), (T ''percents'', PList [PInt 50, PInt 90, PInt 95, PInt 99])])]"

definition terms_of :: "string \<Rightarrow> (pystr \<times> pyval) list" where
  "terms_of field = [(T ''terms'', PDict [(T ''field'', S field)])]"

definition term_is :: "string \<Rightarrow> string \<Rightarrow> pyval" where
  "term_is field v = PDict [(T ''term'', PDict [(T field, S v)])]"

definition metrics_query :: "pyval list \<Rightarrow> (pystr \<times> pyval) list \<Rightarrow> pyval" where
  "metrics_query must aggs =
     PDict [(T ''size'', PInt 0), (T ''query'', PDict [(T ''bool'', PDict [(T ''must'', PList must)])]),
            (T ''aggs'', PDict aggs)]"

definition api_query :: pyval where
  "api_query =
     metrics_query [term_is ''log_type.keyword'' ''api'', term_is ''event.keyword'' ''request_sent'']
       [(T ''latency_p'', percentiles_of ''latency_ms''), (T ''status_codes'', PDict (terms_of ''status_code'')),
        (T ''methods'', PDict (terms_of ''method.keyword''))]"

definition consumer_query :: pyval where
  "consumer_query =
     metrics_query [term_is ''log_type.keyword'' ''consumer'']
       [(T ''by_consumer'', PDict (terms_of ''consumer.keyword'' @
          [(T ''aggs'', PDict [
              (T ''proc_latency_p'', percentiles_of ''processing_latency_ms''),
              (T ''sink_latency_p'', percentiles_of ''sink_latency_ms''),
              (T ''events'', PDict (terms_of ''event.keyword''))])]))]"

section \<open>Printing\<close>

text \<open>Lines are made and printed one after the other; the first that cannot be made ends the run.\<close>

fun print_lines :: "pystr py list \<Rightarrow> ('k, unit) action" where
  "print_lines [] s = (Inr (), s)"
| "print_lines (Inl e # ls) s = (Inl e, s)"
| "print_lines (Inr l # ls) s = print_lines ls (py_print l s)"

definition labelled :: "(pyval \<Rightarrow> pystr) \<Rightarrow> pystr \<Rightarrow> pyval py \<Rightarrow> pystr py" where
  "labelled str label r = and_then r (\<lambda>v. Inr (label @ str_of str v))"

text \<open>\<open>[b for b in v]\<close>\<close>

definition listed :: "pyval py \<Rightarrow> pyval py" where
  "listed r = and_then r (\<lambda>v. and_then (py_iter v) (\<lambda>bs. Inr (PList bs)))"

definition total_hits :: "pyval \<Rightarrow> pyval py" where
  "total_hits res = subscripts [T ''hits'', T ''total'', T ''value''] res"

definition api_lines :: "(pyval \<Rightarrow> pystr) \<Rightarrow> pyval \<Rightarrow> pystr py list" where
  "api_lines str res =
     [Inr (T ''=== API METRICS ===''),
      labelled str (T ''Total Requests Analyzed: '') (total_hits res),
      labelled str (T ''Latency Percentiles (ms): '') (subscripts [T ''aggregations'', T ''latency_p'', T ''values''] res),
      labelled str (T ''Status codes: '') (listed (subscripts [T ''aggregations'', T ''status_codes'', T ''buckets''] res)),
      labelled str (T ''Methods: '') (listed (subscripts [T ''aggregations'', T ''methods'', T ''buckets''] res))]"

definition consumer_bucket_lines :: "(pyval \<Rightarrow> pystr) \<Rightarrow> pyval \<Rightarrow> pystr py list" where
  "consumer_bucket_lines str b =
     [and_then (subscript (T ''key'') b) (\<lambda>key.
      and_then (subscript (T ''doc_count'') b) (\<lambda>count.
        Inr ([10] @ T ''Consumer: '' @ str_of str key @ T '' (Total Events: '' @ str_of str count @ T '')''))),
      labelled str (T ''  Events: '') (listed (subscripts [T ''events'', T ''buckets''] b)),
      labelled str (T ''  Sink Latency Percentiles (ms): '') (subscripts [T ''sink_latency_p'', T ''values''] b),
      labelled str (T ''  Proc Latency Percentiles (ms): '') (subscripts [T ''proc_latency_p'', T ''values''] b)]"

definition consumer_lines :: "(pyval \<Rightarrow> pystr) \<Rightarrow> pyval \<Rightarrow> pystr py list" where
  "consumer_lines str res =
     [Inr ([10] @ T ''=== CONSUMER METRICS ===''),
      labelled str (T ''Total Consumer Events: '') (total_hits res)]
     @ (case and_then (subscripts [T ''aggregations'', T ''by_consumer'', T ''buckets''] res) py_iter of
          Inl e \<Rightarrow> [Inl e]
        | Inr bs \<Rightarrow> concat (map (consumer_bucket_lines str) bs))"

definition metrics_main :: "(pyval \<Rightarrow> pystr) \<Rightarrow> 'k http \<Rightarrow> ('k, unit) action" where
  "metrics_main str srv s =
     (case es_search srv (T ''cdc-api-logs-*'') api_query s of
        (Inl e, s1) \<Rightarrow> (Inl e, s1)
      | (Inr api_res, s1) \<Rightarrow>
          (case print_lines (api_lines str api_res) s1 of
             (Inl e, s2) \<Rightarrow> (Inl e, s2)
           | (Inr _, s2) \<Rightarrow>
               (case es_search srv (T ''cdc-consumer-logs-*'') consumer_query s2 of
                  (Inl e, s3) \<Rightarrow> (Inl e, s3)
                | (Inr cons_res, s3) \<Rightarrow> print_lines (consumer_lines str cons_res) s3)))"

section \<open>What it prints\<close>

lemma print_lines_all: "print_lines (map Inr ls) s = (Inr (), s\<lparr>printed := printed s @ ls\<rparr>)"
  by (induction ls arbitrary: s) (simp_all add: py_print_def)

lemma print_lines_frame:
  "print_lines ls s = (res, s') \<Longrightarrow> sent s' = sent s \<and> peer s' = peer s"
  by (induction ls s rule: print_lines.induct) auto

text \<open>The answers of Elasticsearch to the two searches.\<close>

record consumer_figures =
  of_consumer :: pystr
  its_events :: nat
  event_buckets :: "pyval list"
  sink_p :: pyval
  proc_p :: pyval

definition api_answer :: "nat \<Rightarrow> pyval \<Rightarrow> pyval list \<Rightarrow> pyval list \<Rightarrow> pyval" where
  "api_answer n p codes methods =
     PDict [(T ''hits'', PDict [(T ''total'', PDict [(T ''value'', PInt (int n))])]),
            (T ''aggregations'', PDict [
               (T ''latency_p'', PDict [(T ''values'', p)]), (T ''status_codes'', PDict [(T ''buckets'', PList codes)]),
               (T ''methods'', PDict [(T ''buckets'', PList methods)])])]"

definition consumer_entry :: "consumer_figures \<Rightarrow> pyval" where
  "consumer_entry f =
     PDict [(T ''key'', PStr (of_consumer f)), (T ''doc_count'', PInt (int (its_events f))),
            (T ''events'', PDict [(T ''buckets'', PList (event_buckets f))]),
            (T ''sink_latency_p'', PDict [(T ''values'', sink_p f)]), (T ''proc_latency_p'', PDict [(T ''values'', proc_p f)])]"

definition consumer_answer :: "nat \<Rightarrow> consumer_figures list \<Rightarrow> pyval" where
  "consumer_answer n fs =
     PDict [(T ''hits'', PDict [(T ''total'', PDict [(T ''value'', PInt (int n))])]),
            (T ''aggregations'', PDict [(T ''by_consumer'', PDict [(T ''buckets'', PList (map consumer_entry fs))])])]"

definition consumer_text :: "(pyval \<Rightarrow> pystr) \<Rightarrow> consumer_figures \<Rightarrow> pystr list" where
  "consumer_text str f =
     [[10] @ T ''Consumer: '' @ of_consumer f @ T '' (Total Events: '' @ T (show_nat (its_events f)) @ T '')'',
      T ''  Events: '' @ str (PList (event_buckets f)),
      T ''  Sink Latency Percentiles (ms): '' @ str_of str (sink_p f),
      T ''  Proc Latency Percentiles (ms): '' @ str_of str (proc_p f)]"

lemma consumer_bucket_text: "consumer_bucket_lines str (consumer_entry f) = map Inr (consumer_text str f)"
  by (simp add: consumer_bucket_lines_def consumer_entry_def consumer_text_def labelled_def listed_def subscript_def str_of_def
      py_iter_def)

text \<open>
  The report. When Elasticsearch answers the two searches, the script prints every figure of the
  answers in order.
\<close>

theorem metrics_report:
  assumes "srv (search_request (T ''cdc-api-logs-*'') api_query) (peer s) = (Answer st (Some body), k)"
    and "loads body = Some (api_answer n p codes methods)"
    and "srv (search_request (T ''cdc-consumer-logs-*'') consumer_query) k = (Answer st' (Some body'), k')"
    and "loads body' = Some (consumer_answer m fs)"
  shows "fst (metrics_main str srv s) = Inr ()
    \<and> printed (snd (metrics_main str srv s)) = printed s
        @ [T ''=== API METRICS ==='', T ''Total Requests Analyzed: '' @ T (show_nat n),
           T ''Latency Percentiles (ms): '' @ str_of str p, T ''Status codes: '' @ str (PList codes), T ''Methods: '' @ str (PList methods),
           [10] @ T ''=== CONSUMER METRICS ==='', T ''Total Consumer Events: '' @ T (show_nat m)]
        @ concat (map (consumer_text str) fs)"
proof -
  have api: "api_lines str (api_answer n p codes methods) =
      map Inr [T ''=== API METRICS ==='', T ''Total Requests Analyzed: '' @ T (show_nat n),
        T ''Latency Percentiles (ms): '' @ str_of str p, T ''Status codes: '' @ str (PList codes), T ''Methods: '' @ str (PList methods)]"
    by (simp add: api_lines_def labelled_def listed_def total_hits_def api_answer_def subscript_def str_of_def py_iter_def)
  have "concat (map (consumer_bucket_lines str) (map consumer_entry fs)) = map Inr (concat (map (consumer_text str) fs))"
    by (simp add: consumer_bucket_text map_concat comp_def)
  then have cons: "consumer_lines str (consumer_answer m fs) =
      map Inr ([[10] @ T ''=== CONSUMER METRICS ==='', T ''Total Consumer Events: '' @ T (show_nat m)] @ concat (map (consumer_text str) fs))"
    by (simp add: consumer_lines_def labelled_def total_hits_def consumer_answer_def subscript_def str_of_def py_iter_def)
  show ?thesis
    unfolding metrics_main_def es_search_def urlopen_def
    by (simp add: assms answer_value_def api cons print_lines_all del: list.map)
qed

text \<open>When it refuses the first, the script prints the refusal and ends with the \<open>HTTPError\<close>.\<close>

lemma metrics_refused:
  assumes "srv (search_request (T ''cdc-api-logs-*'') api_query) (peer s) = (Refusal c (Some body), k)"
  shows "metrics_main str srv s =
    (Inl (HTTPError c), \<lparr>peer = k, sent = sent s @ [(search_request (T ''cdc-api-logs-*'') api_query, Refusal c (Some body))],
       printed = printed s @ [T ''ES Error: '' @ body]\<rparr>)"
  by (simp add: metrics_main_def es_search_def urlopen_def assms py_print_def)

end
