(* ===== verification/Generator_Api.thy ===== *)
theory Generator_Api
  imports Load_Generator System_Sample
begin

text \<open>
  The load generator at work on the API it lives in (\<open>api/src/main.cpp\<close> starts both in one process): the routes
  of \<open>ApiServer\<close>, the requests of the workers answered by its handlers, with answers that get lost, and
  requests of other clients in between.
\<close>

section \<open>Routes\<close>

datatype route = Create_Order | Patch_Status string | Read_Order string

text \<open>What the three patterns of \<open>SetupRoutes\<close> match; \<open>[^/]+\<close> is the identifier.\<close>

definition orders_path :: string where
  "orders_path = ''/api/v1/orders''"

definition below_orders :: "string \<Rightarrow> string option" where
  "below_orders path =
     (if take 15 path = orders_path @ ''/'' then Some (drop 15 path) else None)"

definition routed :: "string \<Rightarrow> string \<Rightarrow> route option" where
  "routed verb path =
     (if verb = ''POST'' then (if path = orders_path then Some Create_Order else None)
      else
        (case below_orders path of
           None \<Rightarrow> None
         | Some rest \<Rightarrow>
             (let i = takeWhile (\<lambda>c. c \<noteq> CHR ''/'') rest; tail = drop (length i) rest in
              if i = [] then None
              else if verb = ''PATCH'' \<and> tail = ''/status'' then Some (Patch_Status i)
              else if verb = ''GET'' \<and> tail = [] then Some (Read_Order i)
              else None)))"

text \<open>cpp-httplib answers 404 where no pattern of a method it knows matches.\<close>

definition serve ::
    "api_env \<Rightarrow> 'd pg_api \<Rightarrow> 'r redis_api \<Rightarrow> string \<Rightarrow> string \<Rightarrow> string \<Rightarrow> ('d, 'r) api_state \<Rightarrow> http_reply \<times> ('d, 'r) api_state" where
  "serve env pg rapi verb path body s =
     (case routed verb path of
        None \<Rightarrow> (reply_text 404 [], s)
      | Some Create_Order \<Rightarrow> post_order env pg body s
      | Some (Patch_Status i) \<Rightarrow> patch_status env pg i body s
      | Some (Read_Order i) \<Rightarrow> get_order env pg rapi i s)"

lemma routed_orders [simp]: "routed ''POST'' orders_path = Some Create_Order"
  by (simp add: routed_def)

lemma routed_status:
  assumes "i \<noteq> []" "CHR ''/'' \<notin> set i"
  shows "routed ''PATCH'' (orders_path @ ''/'' @ i @ ''/status'') = Some (Patch_Status i)"
proof -
  have "takeWhile (\<lambda>c. c \<noteq> CHR ''/'') (i @ ''/status'') = i"
    using assms(2) by (simp add: takeWhile_append takeWhile_eq_all_conv)
  with assms(1) show ?thesis by (simp add: routed_def below_orders_def orders_path_def Let_def)
qed

section \<open>The workers' requests\<close>

text \<open>A document that \<open>dump\<close> prints and \<open>parse\<close> reads back, as both programs of the process do with one library.\<close>

definition speaks :: "api_env \<Rightarrow> json \<Rightarrow> bool" where
  "speaks env j \<longleftrightarrow> (\<exists>t. dump (json_env env) j = Inr t \<and> parse_json env t = Inr j)"

definition body_text :: "api_env \<Rightarrow> json \<Rightarrow> string" where
  "body_text env j = (case dump (json_env env) j of Inl e \<Rightarrow> [] | Inr t \<Rightarrow> t)"

definition parse_of :: "api_env \<Rightarrow> string \<Rightarrow> json option" where
  "parse_of env t = (case parse_json env t of Inl e \<Rightarrow> None | Inr j \<Rightarrow> Some j)"

lemma speaks_body: "speaks env j \<Longrightarrow> dump (json_env env) j = Inr (body_text env j) \<and> parse_json env (body_text env j) = Inr j"
  by (auto simp: speaks_def body_text_def)

definition next_call :: "turn \<Rightarrow> worker \<Rightarrow> api_call" where
  "next_call t w =
     (if created_ids w \<noteq> [] \<and> patch_die t = 0 then
        PatchStatus (''/api/v1/orders/'' @ created_ids w ! (pick t mod length (created_ids w)) @ ''/status'')
          (JObj [(''status'', JStr (status_cycle ! (status_pick t mod length status_cycle)))])
      else PostOrder (order_payload t))"

lemma take_turn_calls: "calls (take_turn parse t w) = calls w @ [(next_call t w, answer t)]"
  by (simp add: take_turn_def next_call_def patch_turn_def post_turn_def Let_def)

lemma next_call_answer [simp]: "next_call (t\<lparr>answer := a\<rparr>) w = next_call t w"
  by (simp add: next_call_def order_payload_def)

definition call_served ::
    "api_env \<Rightarrow> 'd pg_api \<Rightarrow> 'r redis_api \<Rightarrow> api_call \<Rightarrow> ('d, 'r) api_state \<Rightarrow> http_reply \<times> ('d, 'r) api_state" where
  "call_served env pg rapi call =
     (case call of
        PostOrder j \<Rightarrow> serve env pg rapi ''POST'' orders_path (body_text env j)
      | PatchStatus path j \<Rightarrow> serve env pg rapi ''PATCH'' path (body_text env j))"

section \<open>Workers and API together\<close>

text \<open>
  What becomes of a request: answered; served, but the answer is lost (a timeout); or never served.
  \<open>Client\<close> is a request of somebody else.
\<close>

datatype fate = Answered | Answer_Lost | Not_Served

datatype move = Turn nat turn fate | Client string string string

record ('d, 'r) closed =
  fleet :: "worker list"
  backend :: "('d, 'r) api_state"

definition closed_turn ::
    "api_env \<Rightarrow> 'd pg_api \<Rightarrow> 'r redis_api \<Rightarrow> nat \<Rightarrow> turn \<Rightarrow> fate \<Rightarrow> ('d, 'r) closed \<Rightarrow> ('d, 'r) closed" where
  "closed_turn env pg rapi k t f c =
     (let w = fleet c ! k;
          (r, s) = call_served env pg rapi (next_call t w) (backend c);
          ans = (if f = Answered then Some (reply_status r, reply_body r) else None) in
      c\<lparr>fleet := (fleet c)[k := take_turn (parse_of env) (t\<lparr>answer := ans\<rparr>) w],
        backend := (if f = Not_Served then backend c else s)\<rparr>)"

fun closed_move :: "api_env \<Rightarrow> 'd pg_api \<Rightarrow> 'r redis_api \<Rightarrow> move \<Rightarrow> ('d, 'r) closed \<Rightarrow> ('d, 'r) closed" where
  "closed_move env pg rapi (Turn k t f) c = (if k < length (fleet c) then closed_turn env pg rapi k t f c else c)"
| "closed_move env pg rapi (Client verb path body) c =
     c\<lparr>backend := snd (serve env pg rapi verb path body (backend c))\<rparr>"

definition closed_run ::
    "api_env \<Rightarrow> 'd pg_api \<Rightarrow> 'r redis_api \<Rightarrow> move list \<Rightarrow> ('d, 'r) closed \<Rightarrow> ('d, 'r) closed" where
  "closed_run env pg rapi ms c = fold (closed_move env pg rapi) ms c"

definition fresh_fleet :: "nat \<Rightarrow> ('d, 'r) api_state \<Rightarrow> ('d, 'r) closed" where
  "fresh_fleet n s = \<lparr>fleet = replicate n \<lparr>created_ids = [], calls = [], worker_log = []\<rparr>, backend = s\<rparr>"

text \<open>
  The documents of the conversation are printed and read back. \<open>CreateOrder\<close> and \<open>GetOrderById\<close> put the texts they
  are given between quotation marks as they are, so a client can send a statement of its own, a \<open>DELETE\<close> for
  one. That is excluded here: the bodies of \<open>POST\<close> and the identifiers of \<open>GET\<close>, of the workers and of other clients,
  hold no quotation mark where they go into a statement. A \<open>PATCH\<close> may be anything.
\<close>

definition talks :: "api_env \<Rightarrow> bool" where
  "talks env \<longleftrightarrow>
     (\<forall>st \<in> set status_cycle. speaks env (JObj [(''status'', JStr st)]))
     \<and> (\<forall>i. uuid_v4 i \<longrightarrow> speaks env (JObj [(''id'', JStr i), (''status'', JStr ''CREATED'')]))"

fun move_ok :: "api_env \<Rightarrow> move \<Rightarrow> bool" where
  "move_ok env (Turn k t f) \<longleftrightarrow>
     speaks env (order_payload t) \<and> quote_free_order env (body_text env (order_payload t))
     \<and> (\<forall>items. member_of (order_payload t) ''items'' = Some items \<longrightarrow> \<not> isl (dump (json_env env) items))"
| "move_ok env (Client verb path body) \<longleftrightarrow>
     (case routed verb path of
        Some Create_Order \<Rightarrow> quote_free_order env body
      | Some (Read_Order i) \<Rightarrow> quote_free i
      | _ \<Rightarrow> True)"

section \<open>The table under the handlers\<close>

lemma serve_moves:
  assumes "pg_laws pg V" "table_ok V (db s)" "serve env pg rapi verb path body s = (r, s')"
    and "case routed verb path of Some Create_Order \<Rightarrow> quote_free_order env body | Some (Read_Order i) \<Rightarrow> quote_free i | _ \<Rightarrow> True"
  shows "moved V (db s) (db s')"
proof (cases "routed verb path")
  case None
  with assms(3) show ?thesis by (simp add: serve_def moved_def)
next
  case (Some rt)
  show ?thesis
  proof (cases rt)
    case Create_Order
    with Some assms(2-4) post_order_keeps [OF assms(1), of env body s r s'] show ?thesis by (simp add: serve_def)
  next
    case (Patch_Status i)
    with Some assms(2-4) patch_status_keeps [OF assms(1) _ assms(2)] show ?thesis by (auto simp: serve_def)
  next
    case (Read_Order i)
    with Some assms(2-4) get_order_keeps [OF assms(1), of i env rapi s r s'] show ?thesis by (auto simp: serve_def moved_def)
  qed
qed

lemma moved_rows: "moved V d d' \<Longrightarrow> rows_of V d i \<noteq> None \<Longrightarrow> rows_of V d' i \<noteq> None"
  by (auto simp: moved_def unchanged_def changed_def)

lemma order_fields_payload:
  assumes "speaks env (order_payload t)"
  shows "\<exists>items. member_of (order_payload t) ''items'' = Some items
    \<and> order_fields env (body_text env (order_payload t)) = Inr (user_pick t, amount_pick t, items)"
  using speaks_body [OF assms]
  by (auto simp: order_fields_def Let_def parsed_def at_checked_def is_object_def get_text_def get_double_def order_payload_def)

text \<open>The answers to a worker: an order is created and named, or the database failed.\<close>

lemma worker_post:
  assumes "pg_laws pg V" "talks env" "move_ok env (Turn k t f)"
    and "post_order env pg (body_text env (order_payload t)) s = (r, s')"
  shows "reply_status r = 500 \<or> reply_status r = 201
    \<and> parse_of env (reply_body r) = Some (JObj [(''id'', JStr (generate_uuid (draw s) (draws s))), (''status'', JStr ''CREATED'')])
    \<and> rows_of V (db s') (generate_uuid (draw s) (draws s)) \<noteq> None"
proof -
  let ?i = "generate_uuid (draw s) (draws s)" and ?body = "body_text env (order_payload t)"
  have ok: "speaks env (order_payload t)" "quote_free_order env ?body" using assms(3) by simp_all
  obtain items where f: "member_of (order_payload t) ''items'' = Some items" "order_fields env ?body = Inr (user_pick t, amount_pick t, items)"
    using order_fields_payload [OF ok(1)] by blast
  obtain printed where printed: "dump (json_env env) items = Inr printed" using assms(3) f(1) by (auto simp: isl_def) (metis sum.exhaust)
  obtain ans where ans: "dump (json_env env) (JObj [(''id'', JStr ?i), (''status'', JStr ''CREATED'')]) = Inr ans"
    "parse_json env ans = Inr (JObj [(''id'', JStr ?i), (''status'', JStr ''CREATED'')])"
    using assms(2) generated_v4 [of "draw s" "draws s"] by (auto simp: talks_def speaks_def)
  obtain res d where sql: "run_sql pg (insert_sql ?i (user_pick t) (print_double env (amount_pick t)) printed) [] (db s) = (res, d)"
    by fastforce
  show ?thesis
  proof (cases res)
    case (Inl e)
    with assms(4) f(2) printed sql show ?thesis
      by (auto simp: post_order_def create_order_def Let_def caught_def server_error_def api_event_def)
  next
    case (Inr n)
    with assms(4) f(2) printed sql ans(1) have r: "r = reply_text 201 ans"
      by (auto simp: post_order_def create_order_def Let_def caught_def api_event_def)
    with posted_row [OF assms(1) ok(2) assms(4)] ans(2) show ?thesis by (auto simp: parse_of_def)
  qed
qed

lemma worker_patch:
  assumes "pg_laws pg V" "talks env" "table_ok V (db s)" "rows_of V (db s) i \<noteq> None" "st \<in> set status_cycle"
    and "patch_status env pg i (body_text env (JObj [(''status'', JStr st)])) s = (r, s')"
  shows "reply_status r = 200 \<or> reply_status r = 500"
proof -
  have "uuid_v4 i" using table_ids [OF assms(3)] assms(4) by blast
  then have c: "canonical V i = Some i" using assms(1) by (simp add: pg_laws_def)
  have "speaks env (JObj [(''status'', JStr st)])" using assms(2,5) by (simp add: talks_def)
  note b = speaks_body [OF this]
  obtain res d where sql: "run_sql pg update_sql [st, i] (db s) = (res, d)" by fastforce
  from updated [OF assms(1) sql] c assms(4) have "(\<exists>e. res = Inl e) \<or> (\<forall>n. res = Inr n \<longrightarrow> n = 1)" by auto
  with assms(6) b sql show ?thesis
    by (cases res)
      (auto simp: patch_status_def update_order_status_def parsed_def at_checked_def is_object_def get_text_def caught_def
        server_error_def api_event_def)
qed

section \<open>What the generator relies on\<close>

text \<open>The answer each request is meant to get.\<close>

definition expected :: "api_call \<Rightarrow> nat" where
  "expected call = (case call of PostOrder j \<Rightarrow> 201 | PatchStatus path j \<Rightarrow> 200)"

definition answered_well :: "api_call \<times> (nat \<times> string) option \<Rightarrow> bool" where
  "answered_well c = (case snd c of None \<Rightarrow> True | Some (st, body) \<Rightarrow> st = expected (fst c) \<or> st = 500)"

definition worker_ok :: "('d, 'o) order_table \<Rightarrow> 'd \<Rightarrow> worker \<Rightarrow> bool" where
  "worker_ok V d w \<longleftrightarrow>
     length (created_ids w) \<le> ring_size \<and> (\<forall>i \<in> set (created_ids w). rows_of V d i \<noteq> None)
     \<and> list_all answered_well (calls w)"

definition closed_ok :: "('d, 'o) order_table \<Rightarrow> ('d, 'r) closed \<Rightarrow> bool" where
  "closed_ok V c \<longleftrightarrow> table_ok V (db (backend c)) \<and> list_all (worker_ok V (db (backend c))) (fleet c)"

lemma worker_ok_moved: "moved V d d' \<Longrightarrow> worker_ok V d w \<Longrightarrow> worker_ok V d' w"
  using moved_rows by (fastforce simp: worker_ok_def)

lemma remember_ok: "set (remember i ids) \<subseteq> insert i (set ids)" "length ids \<le> ring_size \<Longrightarrow> length (remember i ids) \<le> ring_size"
  by (cases ids; auto simp: remember_def ring_size_def)+

text \<open>A turn of a worker, its request answered by the handlers.\<close>

lemma post_turn_ok:
  assumes "pg_laws pg V" "talks env" "move_ok env (Turn k t f)" "table_ok V (db s)" "worker_ok V (db s) w"
    and "created_ids w = [] \<or> patch_die t \<noteq> 0" "call_served env pg rapi (next_call t w) s = (r, s')"
    and "ans = None \<or> ans = Some (reply_status r, reply_body r)"
  shows "moved V (db s) (db s')" "worker_ok V (db s') (take_turn (parse_of env) (t\<lparr>answer := ans\<rparr>) w)"
proof -
  let ?body = "body_text env (order_payload t)" and ?i = "generate_uuid (draw s) (draws s)"
  have call: "next_call t w = PostOrder (order_payload t)" using assms(6) by (auto simp: next_call_def)
  with assms(7) have post: "post_order env pg ?body s = (r, s')" by (simp add: call_served_def serve_def)
  show m: "moved V (db s) (db s')"
    using post_order_keeps [OF assms(1) _ post] assms(3) by simp
  have a: "reply_status r = 500 \<or> reply_status r = 201
    \<and> parse_of env (reply_body r) = Some (JObj [(''id'', JStr ?i), (''status'', JStr ''CREATED'')])
    \<and> rows_of V (db s') ?i \<noteq> None"
    by (rule worker_post [OF assms(1-3) post])
  have ids: "i = ?i \<and> rows_of V (db s') ?i \<noteq> None" if "answered_id (parse_of env) ans = Some i" for i
    using that a assms(8) by (auto simp: answered_id_def)
  have w: "worker_ok V (db s') w" by (rule worker_ok_moved [OF m assms(5)])
  have "answered_well (next_call t w, ans)" using a assms(8) by (auto simp: call answered_well_def expected_def)
  with w have "list_all answered_well (calls (take_turn (parse_of env) (t\<lparr>answer := ans\<rparr>) w))"
    by (simp add: take_turn_calls worker_ok_def)
  moreover have "created_ids (take_turn (parse_of env) (t\<lparr>answer := ans\<rparr>) w)
      = (case answered_id (parse_of env) ans of None \<Rightarrow> created_ids w | Some i \<Rightarrow> remember i (created_ids w))"
    using assms(6) by (auto simp: take_turn_def post_turn_def Let_def)
  ultimately show "worker_ok V (db s') (take_turn (parse_of env) (t\<lparr>answer := ans\<rparr>) w)"
    using w ids remember_ok by (cases "answered_id (parse_of env) ans") (fastforce simp: worker_ok_def)+
qed

lemma patch_turn_ok:
  assumes "pg_laws pg V" "talks env" "table_ok V (db s)" "worker_ok V (db s) w"
    and "created_ids w \<noteq> []" "patch_die t = 0" "call_served env pg rapi (next_call t w) s = (r, s')"
    and "ans = None \<or> ans = Some (reply_status r, reply_body r)"
  shows "moved V (db s) (db s')" "worker_ok V (db s') (take_turn (parse_of env) (t\<lparr>answer := ans\<rparr>) w)"
proof -
  define i where "i = created_ids w ! (pick t mod length (created_ids w))"
  define st where "st = status_cycle ! (status_pick t mod length status_cycle)"
  have "i \<in> set (created_ids w)" using assms(5) by (simp add: i_def)
  with assms(4) have row: "rows_of V (db s) i \<noteq> None" by (auto simp: worker_ok_def)
  then have v4: "uuid_v4 i" using table_ids [OF assms(3)] by blast
  have st: "st \<in> set status_cycle" unfolding st_def by (rule nth_mem) (simp add: status_cycle_def)
  have call: "next_call t w = PatchStatus (orders_path @ ''/'' @ i @ ''/status'') (JObj [(''status'', JStr st)])"
    using assms(5,6) by (simp add: next_call_def i_def st_def orders_path_def)
  have "routed ''PATCH'' (orders_path @ ''/'' @ i @ ''/status'') = Some (Patch_Status i)"
    using v4_facts [OF v4] by (intro routed_status)
  with assms(7) have patch: "patch_status env pg i (body_text env (JObj [(''status'', JStr st)])) s = (r, s')"
    by (simp add: call call_served_def serve_def)
  show m: "moved V (db s) (db s')" using patch_status_keeps [OF assms(1) patch assms(3)] by simp
  have w: "worker_ok V (db s') w" by (rule worker_ok_moved [OF m assms(4)])
  have "answered_well (next_call t w, ans)"
    using worker_patch [OF assms(1-3) row st patch] assms(8) by (auto simp: call answered_well_def expected_def)
  with w have "list_all answered_well (calls (take_turn (parse_of env) (t\<lparr>answer := ans\<rparr>) w))"
    by (simp add: take_turn_calls worker_ok_def)
  with w assms(5,6) show "worker_ok V (db s') (take_turn (parse_of env) (t\<lparr>answer := ans\<rparr>) w)"
    by (simp add: worker_ok_def take_turn_def patch_turn_def Let_def)
qed

text \<open>A request that was not served is one whose answer was lost, on the table as it was.\<close>

lemma unserved_turn_ok:
  assumes "worker_ok V d w"
  shows "worker_ok V d (take_turn (parse_of env) (t\<lparr>answer := None\<rparr>) w)"
proof -
  have "list_all answered_well (calls (take_turn (parse_of env) (t\<lparr>answer := None\<rparr>) w))"
    using assms by (simp add: take_turn_calls worker_ok_def answered_well_def)
  moreover have "created_ids (take_turn (parse_of env) (t\<lparr>answer := None\<rparr>) w) = created_ids w"
    by (simp add: take_turn_def patch_turn_def post_turn_def Let_def answered_id_def)
  ultimately show ?thesis using assms by (simp add: worker_ok_def)
qed

lemma closed_turn_ok:
  assumes "pg_laws pg V" "talks env" "move_ok env (Turn k t f)" "closed_ok V c" "k < length (fleet c)"
  shows "closed_ok V (closed_turn env pg rapi k t f c)"
proof -
  let ?w = "fleet c ! k" and ?s = "backend c"
  obtain r s where served: "call_served env pg rapi (next_call t ?w) ?s = (r, s)" by fastforce
  define ans where "ans = (if f = Answered then Some (reply_status r, reply_body r) else None)"
  have w: "worker_ok V (db ?s) ?w" using assms(4,5) by (simp add: closed_ok_def list_all_length)
  have tab: "table_ok V (db ?s)" using assms(4) by (simp add: closed_ok_def)
  have ans: "ans = None \<or> ans = Some (reply_status r, reply_body r)" by (simp add: ans_def)
  have step: "moved V (db ?s) (db s) \<and> worker_ok V (db s) (take_turn (parse_of env) (t\<lparr>answer := ans\<rparr>) ?w)"
    using post_turn_ok [OF assms(1-3) tab w _ served ans] patch_turn_ok [OF assms(1,2) tab w _ _ served ans] by blast
  have "closed_turn env pg rapi k t f c = c\<lparr>fleet := (fleet c)[k := take_turn (parse_of env) (t\<lparr>answer := ans\<rparr>) ?w],
      backend := (if f = Not_Served then ?s else s)\<rparr>"
    by (simp add: closed_turn_def Let_def served ans_def)
  moreover have "list_all (worker_ok V (db s)) (fleet c)"
    using assms(4) step worker_ok_moved [of V "db ?s" "db s"] by (auto simp: closed_ok_def list_all_iff)
  moreover have "ans = None" if "f = Not_Served" using that by (simp add: ans_def)
  ultimately show ?thesis
    using assms(4) step moved_keeps tab unserved_turn_ok [OF w]
    by (auto simp: closed_ok_def list_all_iff dest!: set_update_subset_insert [THEN subsetD])
qed

lemma closed_move_ok:
  assumes "pg_laws pg V" "talks env" "move_ok env m" "closed_ok V c"
  shows "closed_ok V (closed_move env pg rapi m c)"
proof (cases m)
  case (Turn k t f)
  with assms(3,4) closed_turn_ok [OF assms(1,2), of k t f c rapi] show ?thesis by simp
next
  case (Client verb path body)
  obtain r s where served: "serve env pg rapi verb path body (backend c) = (r, s)" by fastforce
  have "moved V (db (backend c)) (db s)"
    using serve_moves [OF assms(1) _ served] assms(3,4) by (simp add: Client closed_ok_def)
  with assms(4) served moved_keeps [of V "db (backend c)" "db s"] worker_ok_moved [of V "db (backend c)" "db s"] show ?thesis
    by (auto simp: Client closed_ok_def list_all_iff)
qed

text \<open>
  C4. What the load generator finds. Started beside the API, whatever its workers draw, whichever requests
  or answers are lost, and whatever requests other clients send in between, as long as no \<open>POST\<close> body and no
  identifier of a \<open>GET\<close> puts a quotation mark into a statement (with one, a client could delete orders, since
  these two statements are concatenated): every order a worker remembers exists for ever after, a worker remembers at most 512, and each answered request got what it asked for (201 for an
  order, 200 for a status) or 500 because the database failed: never that the order does not exist, or
  that the request is malformed.
\<close>

theorem generator_finds_orders:
  assumes "pg_laws pg V" "talks env" "table_ok V (db s)" "\<forall>m \<in> set ms. move_ok env m"
    and "closed_run env pg rapi ms (fresh_fleet n s) = c"
  shows "table_ok V (db (backend c)) \<and> length (fleet c) = n
    \<and> (\<forall>w \<in> set (fleet c).
         length (created_ids w) \<le> 512
         \<and> (\<forall>i \<in> set (created_ids w). rows_of V (db (backend c)) i \<noteq> None)
         \<and> (\<forall>(call, ans) \<in> set (calls w). case ans of None \<Rightarrow> True | Some (st, body) \<Rightarrow> st = expected call \<or> st = 500))"
proof -
  have run: "closed_ok V (fold (closed_move env pg rapi) ms c0) \<and> length (fleet (fold (closed_move env pg rapi) ms c0)) = length (fleet c0)"
    if "closed_ok V c0" "\<forall>m \<in> set ms. move_ok env m" for c0
    using that
  proof (induction ms arbitrary: c0)
    case (Cons m ms)
    then have "closed_ok V (closed_move env pg rapi m c0)" by (intro closed_move_ok [OF assms(1,2)]) simp_all
    moreover have "length (fleet (closed_move env pg rapi m c0)) = length (fleet c0)"
      by (cases m) (simp_all add: closed_turn_def Let_def case_prod_beta)
    ultimately show ?case using Cons.IH [of "closed_move env pg rapi m c0"] Cons.prems(2) by simp
  qed simp
  have "closed_ok V (fresh_fleet n s)"
    using assms(3) by (auto simp: closed_ok_def fresh_fleet_def worker_ok_def list_all_iff)
  with run [OF _ assms(4)] assms(5) have c: "closed_ok V c" "length (fleet c) = n"
    by (auto simp: closed_run_def fresh_fleet_def)
  have w: "worker_ok V (db (backend c)) w" if "w \<in> set (fleet c)" for w
    using c(1) that by (simp add: closed_ok_def list_all_iff)
  have "case ans of None \<Rightarrow> True | Some (st, body) \<Rightarrow> st = expected call \<or> st = 500"
    if "w \<in> set (fleet c)" "(call, ans) \<in> set (calls w)" for w call ans
  proof -
    have "answered_well (call, ans)" using w [OF that(1)] that(2) unfolding worker_ok_def list_all_iff by blast
    then show ?thesis by (simp add: answered_well_def split: option.splits prod.splits)
  qed
  then show ?thesis using c w by (fastforce simp: closed_ok_def worker_ok_def ring_size_def)
qed

text \<open>One worker that posts an order and patches it, while somebody reads.\<close>

definition talk_turn :: turn where
  "talk_turn = \<lparr>patch_die = 0, pick = 0, status_pick = 1, product_pick = 0, qty_pick = 0, user_pick = ''u'', amount_pick = 10, answer = None\<rparr>"

definition talk_dump :: "json \<Rightarrow> string" where
  "talk_dump j =
     (case j of
        JObj [(k, JStr v)] \<Rightarrow> v
      | JObj [(k, JStr i), (l, JStr v)] \<Rightarrow> i
      | JObj ms \<Rightarrow> ''order''
      | _ \<Rightarrow> ''[]'')"

definition talk_env :: api_env where
  "talk_env = sample_web\<lparr>json_env := sample_codec\<lparr>dump := (\<lambda>j. Inr (talk_dump j))\<rparr>,
     parse_json := (\<lambda>t.
       if t \<in> set status_cycle then Inr (JObj [(''status'', JStr t)])
       else if t = ''order'' then Inr (order_payload talk_turn)
       else Inr (JObj [(''id'', JStr t), (''status'', JStr ''CREATED'')]))\<rparr>"

lemma talk_env_parts [simp]:
  "dump (json_env talk_env) j = Inr (talk_dump j)" "print_double talk_env a = ''5''"
  by (simp_all add: talk_env_def sample_web_def)

lemma talk_ids:
  assumes "uuid_v4 i"
  shows "i \<notin> insert ''order'' (set status_cycle)"
proof -
  have "length i = 36" using assms by (auto simp: uuid_v4_def)
  then show ?thesis by (auto simp: status_cycle_def)
qed

lemma talk_talks: "talks talk_env"
  using talk_ids by (auto simp: talks_def speaks_def talk_dump_def) (auto simp: talk_env_def)

lemma talk_move: "move_ok talk_env (Turn k talk_turn f)"
proof -
  have d: "talk_dump (order_payload talk_turn) = ''order''" by (simp add: talk_dump_def order_payload_def)
  have p: "parse_json talk_env ''order'' = Inr (order_payload talk_turn)" by (simp add: talk_env_def status_cycle_def)
  have sp: "speaks talk_env (order_payload talk_turn)" using d p by (simp add: speaks_def)
  obtain xs where "member_of (order_payload talk_turn) ''items'' = Some (JArr xs)" by (simp add: order_payload_def)
  moreover have "user_pick talk_turn = ''u''" by (simp add: talk_turn_def)
  ultimately show ?thesis using sp order_fields_payload [OF sp] by (auto simp: quote_free_order_def talk_dump_def)
qed

lemma talk_first:
  "fleet (closed_run talk_env log_pg map_redis [Turn 0 talk_turn Answered] (fresh_fleet 1 sample_api))
   = [\<lparr>created_ids = [sample_id], calls = [(PostOrder (order_payload talk_turn), Some (201, sample_id))],
       worker_log = [(''request_sent'', ''POST'', 201)]\<rparr>]"
proof -
  have p: "\<exists>xs. order_fields talk_env ''order'' = Inr (''u'', 10, JArr xs)"
    by (simp add: order_fields_def Let_def parsed_def at_checked_def is_object_def get_text_def get_double_def order_payload_def talk_turn_def talk_env_def status_cycle_def)
  have b: "body_text talk_env (order_payload talk_turn) = ''order''" by (simp add: body_text_def talk_dump_def order_payload_def)
  have r: "parse_of talk_env sample_id = Some (JObj [(''id'', JStr sample_id), (''status'', JStr ''CREATED'')])"
    using talk_ids [OF sample_id_v4] by (simp add: parse_of_def talk_env_def)
  obtain d where post: "post_order talk_env log_pg ''order'' sample_api = (reply_text 201 sample_id, d)"
    using p by (auto simp: post_order_def create_order_def Let_def caught_def api_event_def log_pg_def sample_api_def rows_after_def talk_dump_def sample_id_def [symmetric])
  have n: "next_call talk_turn \<lparr>created_ids = [], calls = [], worker_log = []\<rparr> = PostOrder (order_payload talk_turn)"
    by (simp add: next_call_def)
  have "order_payload (talk_turn\<lparr>answer := a\<rparr>) = order_payload talk_turn" for a by (simp add: order_payload_def)
  with post r show ?thesis
    by (simp add: closed_run_def fresh_fleet_def closed_turn_def n call_served_def serve_def b
       take_turn_def post_turn_def Let_def answered_id_def Load_Generator.status_code_def remember_def ring_size_def)
qed

theorem generator_finds_orders_witness:
  "created_ids (hd (fleet (closed_run talk_env log_pg map_redis [Turn 0 talk_turn Answered] (fresh_fleet 1 sample_api)))) = [sample_id]
   \<and> rows_of log_table (db (backend
       (closed_run talk_env log_pg map_redis [Turn 0 talk_turn Answered] (fresh_fleet 1 sample_api)))) sample_id \<noteq> None
   \<and> list_all (\<lambda>w. length (created_ids w) \<le> 512) (fleet (closed_run talk_env log_pg map_redis
         [Turn 0 talk_turn Answered, Client ''GET'' ''/api/v1/orders/x'' [], Turn 0 talk_turn Answered] (fresh_fleet 1 sample_api)))"
proof -
  let ?ms = "[Turn 0 talk_turn Answered, Client ''GET'' ''/api/v1/orders/x'' [], Turn 0 talk_turn Answered]"
  have tab: "table_ok log_table (db sample_api)" by (simp add: table_ok_def sample_api_def rows_after_def)
  have "move_ok talk_env (Client ''GET'' ''/api/v1/orders/x'' [])"
    by (simp add: routed_def below_orders_def orders_path_def Let_def)
  then have ok: "\<forall>m \<in> set ?ms. move_ok talk_env m" "\<forall>m \<in> set [Turn 0 talk_turn Answered]. move_ok talk_env m"
    using talk_move by simp_all
  note found = generator_finds_orders [OF log_pg_laws talk_talks tab _ refl, of _ map_redis 1]
  show ?thesis using found [OF ok(1)] found [OF ok(2)] talk_first by (simp add: list_all_iff)
qed

end
