(* ===== verification/Api_Process.thy ===== *)
theory Api_Process
  imports Main
begin

text \<open>
  The API process when it is told to stop (\<open>api/src/main.cpp\<close>: \<open>signal_handler\<close>; \<open>api/src/load_generator.cpp\<close>:
  \<open>Start\<close>, \<open>Stop\<close>, the destructor): what the main thread does from the signal to the end of the process, beside the
  workers of the load generator and the threads that serve requests.
\<close>

section \<open>State and steps\<close>

text \<open>A worker before the test of \<open>running_\<close>, in the body of its loop, or returned.\<close>

datatype worker_point = At_Test | In_Turn | Left_Loop

datatype act =
    Say string
  | Call_Stop
  | Clear_Running
  | Join nat
  | Clear_Workers
  | Shut_Logger
  | Exit_With int
  | Leave_Process int

datatype ending = Exited int | Crashed

text \<open>
  \<open>acts\<close> is what the main thread has still to do, nothing (\<open>None\<close>) while it listens; \<open>logger_up\<close> says whether the default logger
  exists.
\<close>

record api_run =
  acts :: "act list option"
  running :: bool
  crew :: "worker_point list"
  logger_up :: bool
  said :: "string list"
  ending :: "ending option"

text \<open>\<open>LoadGenerator::Stop\<close> with its \<open>n\<close> threads, \<open>signal_handler\<close>, and \<open>std::exit\<close>, which destroys \<open>load_gen\<close>.\<close>

definition stop_acts :: "nat \<Rightarrow> act list" where
  "stop_acts n = Clear_Running # map Join [0..<n] @ [Clear_Workers, Say ''load_generator_stopped'']"

definition signal_acts :: "int \<Rightarrow> act list" where
  "signal_acts sig = [Say ''shutdown_signal_received'', Call_Stop, Shut_Logger, Exit_With sig]"

definition exit_acts :: "int \<Rightarrow> act list" where
  "exit_acts code = [Call_Stop, Leave_Process code]"

text \<open>
  \<open>spdlog::shutdown\<close> drops the default logger; \<open>late\<close> says whether a call of \<open>spdlog::info\<close> after it comes back.
\<close>

definition spd_info :: "bool \<Rightarrow> string \<Rightarrow> api_run \<Rightarrow> api_run" where
  "spd_info late e p =
     (if logger_up p then p\<lparr>said := said p @ [e]\<rparr> else if late then p else p\<lparr>ending := Some Crashed\<rparr>)"

fun act_step :: "bool \<Rightarrow> act \<Rightarrow> act list \<Rightarrow> api_run \<Rightarrow> api_run option" where
  "act_step late (Say e) rest p = Some (spd_info late e (p\<lparr>acts := Some rest\<rparr>))"
| "act_step late Call_Stop rest p = Some (p\<lparr>acts := Some (stop_acts (length (crew p)) @ rest)\<rparr>)"
| "act_step late Clear_Running rest p = Some (p\<lparr>acts := Some rest, running := False\<rparr>)"
| "act_step late (Join k) rest p = (if crew p ! k = Left_Loop then Some (p\<lparr>acts := Some rest\<rparr>) else None)"
| "act_step late Clear_Workers rest p = Some (p\<lparr>acts := Some rest, crew := []\<rparr>)"
| "act_step late Shut_Logger rest p = Some (p\<lparr>acts := Some rest, logger_up := False\<rparr>)"
| "act_step late (Exit_With c) rest p = Some (p\<lparr>acts := Some (exit_acts c)\<rparr>)"
| "act_step late (Leave_Process c) rest p = Some (p\<lparr>ending := Some (Exited c)\<rparr>)"

inductive api_step :: "bool \<Rightarrow> int \<Rightarrow> api_run \<Rightarrow> api_run \<Rightarrow> bool" for late sig where
  signal: "ending p = None \<Longrightarrow> acts p = None \<Longrightarrow> api_step late sig p (p\<lparr>acts := Some (signal_acts sig)\<rparr>)"
| main: "ending p = None \<Longrightarrow> acts p = Some (a # rest) \<Longrightarrow> act_step late a rest p = Some p' \<Longrightarrow> api_step late sig p p'"
| turn: "ending p = None \<Longrightarrow> k < length (crew p) \<Longrightarrow> crew p ! k = At_Test \<Longrightarrow> running p \<Longrightarrow>
    api_step late sig p (p\<lparr>crew := (crew p)[k := In_Turn]\<rparr>)"
| sent: "ending p = None \<Longrightarrow> k < length (crew p) \<Longrightarrow> crew p ! k = In_Turn \<Longrightarrow> e \<in> {''request_sent'', ''request_failed''} \<Longrightarrow>
    api_step late sig p (spd_info late e (p\<lparr>crew := (crew p)[k := At_Test]\<rparr>))"
| leave: "ending p = None \<Longrightarrow> k < length (crew p) \<Longrightarrow> crew p ! k = At_Test \<Longrightarrow> \<not> running p \<Longrightarrow>
    api_step late sig p (p\<lparr>crew := (crew p)[k := Left_Loop]\<rparr>)"
| serve: "ending p = None \<Longrightarrow> e \<in> {''api_order_created'', ''api_order_status_updated'', ''api_cache_hit'', ''api_cache_miss'', ''api_db_hit''} \<Longrightarrow>
    api_step late sig p (spd_info late e p)"

inductive_cases api_stepE: "api_step late sig p p'"

definition listening :: "nat \<Rightarrow> api_run" where
  "listening n = \<lparr>acts = None, running = True, crew = replicate n At_Test, logger_up = True, said = [], ending = None\<rparr>"

section \<open>Invariant\<close>

text \<open>What the main thread has left after \<open>j\<close> of its steps.\<close>

definition acts_at :: "nat \<Rightarrow> int \<Rightarrow> nat \<Rightarrow> act list" where
  "acts_at n sig j =
     (if j < 2 then drop j (signal_acts sig)
      else if j < n + 6 then drop (j - 2) (stop_acts n) @ [Shut_Logger, Exit_With sig]
      else if j = n + 6 then [Exit_With sig]
      else if j = n + 7 then exit_acts sig
      else drop (j - (n + 8)) (stop_acts 0) @ [Leave_Process sig])"

definition stopping_at :: "bool \<Rightarrow> nat \<Rightarrow> int \<Rightarrow> nat \<Rightarrow> api_run \<Rightarrow> bool" where
  "stopping_at late n sig j p \<longleftrightarrow>
     j \<le> n + 11 \<and> acts p = Some (acts_at n sig j) \<and> (running p \<longleftrightarrow> j \<le> 2) \<and> (logger_up p \<longleftrightarrow> j \<le> n + 5)
     \<and> (''load_generator_stopped'' \<in> set (said p) \<longleftrightarrow> n + 5 \<le> j)
     \<and> (if j \<le> n + 3 then length (crew p) = n \<and> (\<forall>k < j - 3. crew p ! k = Left_Loop) else crew p = [])
     \<and> (j = n + 11 \<longrightarrow> late)"

definition run_inv :: "bool \<Rightarrow> nat \<Rightarrow> int \<Rightarrow> api_run \<Rightarrow> bool" where
  "run_inv late n sig p \<longleftrightarrow>
     (case ending p of
        Some (Exited c) \<Rightarrow> c = sig \<and> late \<and> crew p = []
      | Some Crashed \<Rightarrow> \<not> late \<and> \<not> logger_up p \<and> crew p = []
      | None \<Rightarrow>
          (case acts p of
             None \<Rightarrow> running p \<and> logger_up p \<and> length (crew p) = n \<and> ''load_generator_stopped'' \<notin> set (said p)
           | Some as \<Rightarrow> \<exists>j. stopping_at late n sig j p))"

lemma drop_stop_acts:
  "k \<le> n \<Longrightarrow> drop (Suc k) (stop_acts n) = map Join [k..<n] @ [Clear_Workers, Say ''load_generator_stopped'']"
  by (simp add: stop_acts_def drop_map)

lemma acts_at_join: "k < n \<Longrightarrow> acts_at n sig (3 + k) = Join k # acts_at n sig (4 + k)"
  by (simp add: acts_at_def drop_stop_acts drop_stop_acts [of "Suc k" n, simplified] Suc_diff_le upt_conv_Cons flip: Suc_diff_Suc)

lemma acts_at_next:
  "acts_at n sig 0 = Say ''shutdown_signal_received'' # acts_at n sig (Suc 0)"
  "acts_at n sig (Suc 0) = [Call_Stop, Shut_Logger, Exit_With sig]"
  "acts_at n sig 2 = Clear_Running # acts_at n sig 3"
  "acts_at n sig (n + 3) = Clear_Workers # acts_at n sig (n + 4)"
  "acts_at n sig (n + 4) = Say ''load_generator_stopped'' # acts_at n sig (n + 5)"
  "acts_at n sig (n + 5) = Shut_Logger # acts_at n sig (n + 6)"
  "acts_at n sig (n + 6) = [Exit_With sig]"
  "acts_at n sig (n + 7) = [Call_Stop, Leave_Process sig]"
  "acts_at n sig (n + 8) = Clear_Running # acts_at n sig (n + 9)"
  "acts_at n sig (n + 9) = Clear_Workers # acts_at n sig (n + 10)"
  "acts_at n sig (n + 10) = Say ''load_generator_stopped'' # acts_at n sig (n + 11)"
  "acts_at n sig (n + 11) = [Leave_Process sig]"
  by (simp_all add: acts_at_def signal_acts_def exit_acts_def stop_acts_def drop_map numeral_eq_Suc Suc_diff_le)

lemma acts_at_stop: "stop_acts n @ [Shut_Logger, Exit_With sig] = acts_at n sig 2"
    "stop_acts 0 @ [Leave_Process sig] = acts_at n sig (n + 8)" "exit_acts sig = acts_at n sig (n + 7)"
  by (simp_all add: acts_at_def)

text \<open>The positions of the main thread.\<close>

lemma position_cases:
  fixes j n :: nat
  assumes "j \<le> n + 11"
  obtains "j = 0" | "j = 1" | "j = 2" | k where "k < n" "j = 3 + k" | l where "3 \<le> l" "l \<le> 11" "j = n + l"
proof -
  have "j \<le> 2 \<or> (3 \<le> j \<and> j < n + 3) \<or> n + 3 \<le> j" by arith
  then show ?thesis
  proof (elim disjE)
    assume "j \<le> 2"
    then have "j = 0 \<or> j = 1 \<or> j = 2" by arith
    with that show ?thesis by blast
  next
    assume "3 \<le> j \<and> j < n + 3"
    with that(4) [of "j - 3"] show ?thesis by simp
  next
    assume "n + 3 \<le> j"
    with assms that(5) [of "j - n"] show ?thesis by simp
  qed
qed

lemma small_cases: "3 \<le> l \<Longrightarrow> l \<le> 11 \<Longrightarrow> l = 3 \<or> l = 4 \<or> l = 5 \<or> l = 6 \<or> l = 7 \<or> l = 8 \<or> l = 9 \<or> l = 10 \<or> l = (11::nat)"
  by arith

lemma stopped_inv: "stopping_at late n sig j p \<Longrightarrow> ending p = None \<Longrightarrow> run_inv late n sig p"
  by (auto simp: run_inv_def stopping_at_def)

text \<open>One step of the main thread: it moves to the next position, or it is at the end.\<close>

lemma main_moves:
  assumes "stopping_at late n sig j p" "ending p = None" "acts p = Some (a # rest)" "act_step late a rest p = Some p'"
  shows "ending p' = None \<and> stopping_at late n sig (j + 1) p'
    \<or> (if late then j = n + 11 \<and> ending p' = Some (Exited sig) else j = n + 10 \<and> ending p' = Some Crashed)
      \<and> crew p' = [] \<and> \<not> logger_up p'"
proof -
  have at: "acts_at n sig j = a # rest" "j \<le> n + 11" using assms(1,3) by (simp_all add: stopping_at_def)
  show ?thesis
  proof (cases rule: position_cases [OF at(2)])
    case 1
    with assms at show ?thesis by (auto simp: stopping_at_def acts_at_next spd_info_def)
  next
    case 2
    with assms at show ?thesis by (auto simp: stopping_at_def acts_at_next acts_at_stop numeral_eq_Suc)
  next
    case 3
    with assms at show ?thesis by (auto simp: stopping_at_def acts_at_next)
  next
    case (4 k)
    with assms at show ?thesis by (auto simp: stopping_at_def acts_at_join less_Suc_eq split: if_splits)
  next
    case (5 l)
    note turned = acts_at_next(4-12) [of n sig, unfolded add.commute [of n]]
    from small_cases [OF 5(1,2)] assms at 5(3) show ?thesis
      by (elim disjE) (auto simp: stopping_at_def acts_at_next turned exit_acts_def stop_acts_def spd_info_def split: if_splits)
  qed
qed

lemma spd_info_up [simp]: "logger_up p \<Longrightarrow> spd_info late e p = p\<lparr>said := said p @ [e]\<rparr>"
  by (simp add: spd_info_def)

text \<open>A worker is in its loop only while the logger is up and not all of them are joined.\<close>

lemma worker_position:
  assumes "stopping_at late n sig j p" "k < length (crew p)" "crew p ! k \<noteq> Left_Loop"
  shows "logger_up p" "j \<le> n + 3" "j - 3 \<le> k"
proof -
  show "j \<le> n + 3" using assms(1,2) by (auto simp: stopping_at_def split: if_splits)
  with assms(1) show "logger_up p" by (simp add: stopping_at_def)
  have "k < j - 3 \<Longrightarrow> crew p ! k = Left_Loop" using assms(1) \<open>j \<le> n + 3\<close> by (simp add: stopping_at_def)
  with assms(3) show "j - 3 \<le> k" using not_less by blast
qed

lemma crew_step:
  assumes "stopping_at late n sig j p" "k < length (crew p)" "crew p ! k \<noteq> Left_Loop" "set es \<subseteq> {''request_sent'', ''request_failed''}"
  shows "stopping_at late n sig j (p\<lparr>crew := (crew p)[k := x], said := said p @ es\<rparr>)"
  using assms(1,2,4) worker_position [OF assms(1-3)] by (auto simp: stopping_at_def)

lemma run_inv_step:
  assumes "api_step late sig p p'" "run_inv late n sig p"
  shows "run_inv late n sig p'"
  using assms(1)
proof cases
  case signal
  with assms(2) have "stopping_at late n sig 0 p'" by (auto simp: run_inv_def stopping_at_def acts_at_def)
  with signal show ?thesis by (simp add: stopped_inv)
next
  case (main a rest)
  with assms(2) obtain j where "stopping_at late n sig j p" by (auto simp: run_inv_def)
  from main_moves [OF this main] show ?thesis
    by (auto simp: stopped_inv) (auto simp: run_inv_def split: if_splits)
next
  case (turn k)
  with assms(2) crew_step [of late n sig _ p k "[]" In_Turn] show ?thesis
    by (cases "acts p") (auto simp: run_inv_def)
next
  case (sent k e)
  then show ?thesis
  proof (cases "acts p")
    case None
    with sent assms(2) show ?thesis by (auto simp: run_inv_def)
  next
    case (Some as)
    with sent assms(2) obtain j where j: "stopping_at late n sig j p" by (auto simp: run_inv_def)
    have "logger_up p" using worker_position(1) [OF j sent(3)] sent(4) by simp
    with sent crew_step [OF j sent(3), of "[e]" At_Test] Some show ?thesis by (auto simp: run_inv_def)
  qed
next
  case (leave k)
  with assms(2) crew_step [of late n sig _ p k "[]" Left_Loop] show ?thesis
    by (cases "acts p") (auto simp: run_inv_def)
next
  case (serve e)
  then have e: "e \<noteq> ''load_generator_stopped''" by auto
  show ?thesis
  proof (cases "acts p")
    case None
    with serve e assms(2) show ?thesis by (auto simp: run_inv_def)
  next
    case (Some as)
    with serve assms(2) obtain j where j: "stopping_at late n sig j p" by (auto simp: run_inv_def)
    show ?thesis
    proof (cases "logger_up p \<or> late")
      case True
      with serve e j have "stopping_at late n sig j p'" by (auto simp: stopping_at_def spd_info_def)
      moreover have "ending p' = None" using True serve by (auto simp: spd_info_def)
      ultimately show ?thesis by (rule stopped_inv)
    next
      case False
      with serve j show ?thesis by (auto simp: run_inv_def spd_info_def stopping_at_def)
    qed
  qed
qed

lemma run_inv_steps:
  assumes "(api_step late sig)\<^sup>*\<^sup>* (listening n) p"
  shows "run_inv late n sig p"
  using assms
proof (induction rule: rtranclp_induct)
  case base
  show ?case by (simp add: run_inv_def listening_def)
qed (auto intro: run_inv_step)

section \<open>How the process ends\<close>

text \<open>
  C27. The API told to stop. Whatever the interleaving, once the log says that the load generator has stopped, or
  the logger is shut down, no worker runs any more; but the process never ends in order: it logs once
  more after the logger is gone, and ends with the number of the signal as its code, never 0, if such a call comes
  back, and with a crash if it does not.
\<close>

theorem api_shutdown:
  assumes "(api_step late sig)\<^sup>*\<^sup>* (listening n) p"
  shows "(case ending p of None \<Rightarrow> True | Some (Exited c) \<Rightarrow> c = sig \<and> late | Some Crashed \<Rightarrow> \<not> late)
    \<and> (''load_generator_stopped'' \<in> set (said p) \<and> ending p = None \<or> \<not> logger_up p \<or> ending p \<noteq> None \<longrightarrow> crew p = [])
    \<and> (ending p = None \<longrightarrow> \<not> logger_up p \<longrightarrow> ''load_generator_stopped'' \<in> set (said p))"
proof -
  have "run_inv late n sig p" by (rule run_inv_steps [OF assms])
  then show ?thesis
    by (auto simp: run_inv_def stopping_at_def split: option.splits ending.splits if_splits)
qed

text \<open>What is left to do: the steps of the main thread, those of \<open>Stop\<close> within, and those of the workers once \<open>running_\<close> is cleared.\<close>

definition act_weight :: "nat \<Rightarrow> act \<Rightarrow> nat" where
  "act_weight m a = (case a of Call_Stop \<Rightarrow> m + 4 | Exit_With c \<Rightarrow> m + 7 | _ \<Rightarrow> 1)"

definition point_weight :: "worker_point \<Rightarrow> nat" where
  "point_weight w = (case w of At_Test \<Rightarrow> 1 | In_Turn \<Rightarrow> 2 | Left_Loop \<Rightarrow> 0)"

definition left_over :: "api_run \<Rightarrow> nat" where
  "left_over p =
     sum_list (map (act_weight (length (crew p))) (case acts p of None \<Rightarrow> [] | Some as \<Rightarrow> as))
     + sum_list (map point_weight (crew p))"

lemma left_over_said [simp]: "left_over (p\<lparr>said := t\<rparr>) = left_over p" "left_over (p\<lparr>running := b\<rparr>) = left_over p"
    "left_over (p\<lparr>logger_up := u\<rparr>) = left_over p"
  by (simp_all add: left_over_def)

lemma left_over_acts: "left_over (p\<lparr>acts := Some as\<rparr>) = sum_list (map (act_weight (length (crew p))) as) + sum_list (map point_weight (crew p))"
  by (simp add: left_over_def)

lemma weight_mono: "sum_list (map (act_weight 0) as) \<le> sum_list (map (act_weight m) as)"
  by (rule sum_list_mono) (simp add: act_weight_def split: act.splits)

lemma stop_weight: "sum_list (map (act_weight m) (stop_acts k)) = k + 3"
  by (simp add: stop_acts_def act_weight_def comp_def sum_list_triv)

lemma main_less:
  assumes "acts p = Some (a # rest)" "act_step late a rest p = Some p'" "ending p' = None"
  shows "left_over p' < left_over p"
proof (cases a)
  case (Say e)
  with assms show ?thesis by (auto simp: spd_info_def left_over_def act_weight_def split: if_splits)
next
  case Clear_Workers
  with assms(1,2) weight_mono [of rest "length (crew p)"] show ?thesis by (auto simp: left_over_def act_weight_def)
qed (use assms in \<open>auto simp: left_over_def act_weight_def exit_acts_def stop_weight split: if_splits\<close>)

lemma crew_less:
  "k < length (crew p) \<Longrightarrow> point_weight w < point_weight (crew p ! k) \<Longrightarrow> left_over (p\<lparr>crew := (crew p)[k := w]\<rparr>) < left_over p"
  using elem_le_sum_list [of k "map point_weight (crew p)"] by (simp add: left_over_def sum_list_update map_update)

lemma step_less:
  assumes "api_step late sig p p'" "run_inv late n sig p" "\<not> running p"
  shows "left_over p' < left_over p \<or> ending p' \<noteq> None \<or> (\<exists>e. p' = spd_info late e p)"
  using assms(1)
proof cases
  case signal
  with assms(2,3) show ?thesis by (simp add: run_inv_def)
next
  case (main a rest)
  with main_less show ?thesis by blast
next
  case (sent k e)
  with crew_less [of k p At_Test] show ?thesis by (auto simp: spd_info_def point_weight_def left_over_def)
next
  case (leave k)
  with crew_less [of k p Left_Loop] show ?thesis by (auto simp: point_weight_def)
qed (use assms(3) in auto)

lemma next_act:
  assumes "stopping_at late n sig j p"
  shows "\<exists>a rest. acts p = Some (a # rest) \<and> (\<forall>k. a = Join k \<longrightarrow> k < length (crew p) \<and> \<not> running p)"
proof -
  have b: "j \<le> n + 11" using assms by (simp add: stopping_at_def)
  show ?thesis
  proof (cases rule: position_cases [OF b])
    case (4 k)
    with assms show ?thesis by (simp add: stopping_at_def acts_at_join)
  next
    case (5 l)
    from small_cases [OF 5(1,2)] assms 5(3) show ?thesis by (elim disjE) (auto simp: stopping_at_def acts_at_next)
  qed (use assms in \<open>auto simp: stopping_at_def acts_at_next\<close>)
qed

lemma can_go_on:
  assumes "run_inv late n sig p" "acts p \<noteq> None" "ending p = None"
  shows "\<exists>p'. api_step late sig p p' \<and> acts p' \<noteq> None \<and> (ending p' \<noteq> None \<or> left_over p' < left_over p)"
proof -
  obtain j where j: "stopping_at late n sig j p" using assms by (auto simp: run_inv_def)
  from next_act [OF j] obtain a rest where a: "acts p = Some (a # rest)"
    and joins: "\<forall>k. a = Join k \<longrightarrow> k < length (crew p) \<and> \<not> running p" by blast
  show ?thesis
  proof (cases "act_step late a rest p")
    case (Some p')
    then have "acts p' \<noteq> None" using a by (cases a) (auto simp: spd_info_def split: if_splits)
    with Some main [OF assms(3) a Some] main_less [OF a Some] show ?thesis by blast
  next
    case None
    then obtain k where k: "a = Join k" "crew p ! k \<noteq> Left_Loop" by (cases a) (auto split: if_splits)
    with joins have k': "k < length (crew p)" "\<not> running p" by auto
    show ?thesis
    proof (cases "crew p ! k")
      case At_Test
      with leave [OF assms(3) k'(1) _ k'(2)] crew_less [OF k'(1), of Left_Loop] assms(2)
      show ?thesis by (intro exI [of _ "p\<lparr>crew := (crew p)[k := Left_Loop]\<rparr>"]) (simp add: point_weight_def)
    next
      case In_Turn
      have up: "logger_up p" using worker_position(1) [OF j k'(1) k(2)] .
      with In_Turn sent [OF assms(3) k'(1), of "''request_sent''"] crew_less [OF k'(1), of At_Test] assms(2)
      show ?thesis
        by (intro exI [of _ "spd_info late ''request_sent'' (p\<lparr>crew := (crew p)[k := At_Test]\<rparr>)"]) (simp add: point_weight_def)
    qed (use k in simp)
  qed
qed

text \<open>
  C28. The API told to stop does stop. From every state it can reach after the signal it can get to its end, whatever its workers
  were doing; and once \<open>running_\<close> is cleared, every step brings it there, except the log lines of requests that other
  clients still send: waiting for the workers never deadlocks.
\<close>

theorem api_shutdown_ends:
  assumes "(api_step late sig)\<^sup>*\<^sup>* (listening n) p" "acts p \<noteq> None"
  shows "(\<exists>p'. (api_step late sig)\<^sup>*\<^sup>* p p' \<and> ending p' \<noteq> None)
    \<and> (\<not> running p \<longrightarrow> (\<forall>p'. api_step late sig p p' \<longrightarrow>
          left_over p' < left_over p \<or> ending p' \<noteq> None \<or> (\<exists>e. p' = spd_info late e p)))"
proof -
  have inv: "run_inv late n sig p" by (rule run_inv_steps [OF assms(1)])
  have "\<exists>p'. (api_step late sig)\<^sup>*\<^sup>* p p' \<and> ending p' \<noteq> None"
    using inv assms(2)
  proof (induction "left_over p" arbitrary: p rule: less_induct)
    case less
    show ?case
    proof (cases "ending p")
      case None
      with can_go_on [OF less.prems] obtain q where q: "api_step late sig p q" "acts q \<noteq> None" "ending q \<noteq> None \<or> left_over q < left_over p"
        by blast
      have "\<exists>p'. (api_step late sig)\<^sup>*\<^sup>* q p' \<and> ending p' \<noteq> None"
        using q(2,3) less.hyps [of q] run_inv_step [OF q(1) less.prems(1)] by blast
      with q(1) show ?thesis by (blast intro: converse_rtranclp_into_rtranclp)
    qed blast
  qed
  with step_less [OF _ inv] show ?thesis by blast
qed

text \<open>A process with one worker in a turn when the signal comes.\<close>

definition told :: api_run where
  "told = (listening 1)\<lparr>crew := [In_Turn], acts := Some (signal_acts 15)\<rparr>"

lemma told_reached: "(api_step late 15)\<^sup>*\<^sup>* (listening 1) told"
proof -
  let ?q = "(listening 1)\<lparr>crew := [In_Turn]\<rparr>"
  have "api_step late 15 (listening 1) ((listening 1)\<lparr>crew := (crew (listening 1))[0 := In_Turn]\<rparr>)"
    by (rule turn) (simp_all add: listening_def)
  then have "api_step late 15 (listening 1) ?q" by (simp add: listening_def)
  moreover have "api_step late 15 ?q (?q\<lparr>acts := Some (signal_acts 15)\<rparr>)" by (rule signal) (simp_all add: listening_def)
  ultimately show ?thesis unfolding told_def by (simp add: listening_def)
qed

text \<open>The main thread alone, \<open>m\<close> steps of it.\<close>

fun main_run :: "bool \<Rightarrow> nat \<Rightarrow> api_run \<Rightarrow> api_run" where
  "main_run late 0 p = p"
| "main_run late (Suc m) p =
     (case (ending p, acts p) of
        (None, Some (a # rest)) \<Rightarrow>
          (case act_step late a rest p of None \<Rightarrow> p | Some p' \<Rightarrow> main_run late m p')
      | _ \<Rightarrow> p)"

lemma main_run_steps: "(api_step late sig)\<^sup>*\<^sup>* p (main_run late m p)"
proof (induction late m p rule: main_run.induct)
  case (2 late m p)
  then show ?case
    by (auto split: option.splits list.splits intro: main converse_rtranclp_into_rtranclp)
qed simp

lemma alone_reached: "(api_step late 15)\<^sup>*\<^sup>* (listening 0) (main_run late m ((listening 0)\<lparr>acts := Some (signal_acts 15)\<rparr>))"
  by (rule converse_rtranclp_into_rtranclp [OF signal main_run_steps]) (simp_all add: listening_def)

theorem api_shutdown_ends_witness: "\<exists>p'. (api_step False 15)\<^sup>*\<^sup>* told p' \<and> ending p' \<noteq> None"
  using api_shutdown_ends [OF told_reached] by (simp add: told_def)

theorem api_shutdown_witness:
  "(case ending (main_run False 12 ((listening 0)\<lparr>acts := Some (signal_acts 15)\<rparr>)) of Some Crashed \<Rightarrow> True | _ \<Rightarrow> False)
   \<and> ending (main_run True 12 ((listening 0)\<lparr>acts := Some (signal_acts 15)\<rparr>)) = Some (Exited 15)
   \<and> (\<forall>late. crew (main_run late 7 ((listening 0)\<lparr>acts := Some (signal_acts 15)\<rparr>)) = [])"
proof -
  have "ending (main_run False 12 ((listening 0)\<lparr>acts := Some (signal_acts 15)\<rparr>)) \<noteq> None"
    "ending (main_run True 12 ((listening 0)\<lparr>acts := Some (signal_acts 15)\<rparr>)) = Some (Exited 15)"
    "\<not> logger_up (main_run late 7 ((listening 0)\<lparr>acts := Some (signal_acts 15)\<rparr>))" for late
    by (simp_all add: numeral_eq_Suc signal_acts_def stop_acts_def exit_acts_def listening_def spd_info_def)
  then show ?thesis
    using api_shutdown [OF alone_reached [of False 12]] api_shutdown [OF alone_reached [of _ 7]]
    by (auto split: option.splits ending.splits)
qed

end
