(* ===== verification/Push_Repo.thy ===== *)
theory Push_Repo
  imports Py_Http
begin

text \<open>
  \<open>scripts/push_repo.py\<close>: pushing the repository with a token in the URL of the remote, and
  putting the clean URL back. The shell is a parameter; git's remotes are read through a view of its
  state, with the documented effect of the four commands as laws.
\<close>

section \<open>The script\<close>

text \<open>
  A finished command: return code, output, error output. \<open>Undecodable\<close> is a command whose captured
  output is not text in the locale's encoding, for which \<open>text=True\<close> raises \<open>UnicodeDecodeError\<close>.
\<close>

datatype shell_outcome = Ran int pystr pystr | Undecodable

type_synonym 'k shell = "pystr \<Rightarrow> 'k \<Rightarrow> shell_outcome \<times> 'k"

record 'k terminal =
  host :: 'k
  commands :: "pystr list"
  shown :: "pystr list"

type_synonym ('k, 'a) shell_action = "'k terminal \<Rightarrow> (py_error + 'a) \<times> 'k terminal"

definition echo :: "pystr \<Rightarrow> 'k terminal \<Rightarrow> 'k terminal" where
  "echo line s = s\<lparr>shown := shown s @ [line]\<rparr>"

definition execute :: "'k shell \<Rightarrow> pystr \<Rightarrow> 'k terminal \<Rightarrow> shell_outcome \<times> 'k terminal" where
  "execute shell cmd s =
     (case shell cmd (host s) of (r, k) \<Rightarrow> (r, s\<lparr>host := k, commands := commands s @ [cmd]\<rparr>))"

definition run_cmd :: "'k shell \<Rightarrow> pystr \<Rightarrow> ('k, int) shell_action" where
  "run_cmd shell cmd s =
     (case execute shell cmd s of
        (Undecodable, s1) \<Rightarrow> (Inl UnicodeDecodeError, s1)
      | (Ran code out err, s1) \<Rightarrow>
          (let s2 = (if out \<noteq> [] then echo out s1 else s1);
               s3 = (if err \<noteq> [] then echo err s2 else s2) in
           (Inr code, s3)))"

definition environ_token :: "(pystr \<Rightarrow> pystr option) \<Rightarrow> pystr option" where
  "environ_token env =
     (let set_value = (\<lambda>name. case env name of None \<Rightarrow> None | Some t \<Rightarrow> if t = [] then None else Some t) in
      case set_value (T ''GITHUB_TOKEN'') of Some t \<Rightarrow> Some t | None \<Rightarrow> set_value (T ''GH_TOKEN''))"

definition quoted :: "pystr \<Rightarrow> pystr" where
  "quoted t = [34] @ t @ [34]"

definition remote_with_token :: "pystr \<Rightarrow> pystr" where
  "remote_with_token token =
     T ''https://Anshu666666:'' @ token @ T ''@github.com/Anshu666666/TransactFlow.git''"

definition clean_remote :: pystr where
  "clean_remote = T ''https://github.com/Anshu666666/TransactFlow.git''"

definition remove_cmd :: pystr where "remove_cmd = T ''git remote remove origin''"
definition add_cmd :: "pystr \<Rightarrow> pystr" where "add_cmd url = T ''git remote add origin '' @ quoted url"
definition push_cmd :: pystr where "push_cmd = T ''git push -u origin main''"
definition set_url_cmd :: "pystr \<Rightarrow> pystr" where "set_url_cmd url = T ''git remote set-url origin '' @ quoted url"

definition push_main :: "'k shell \<Rightarrow> (pystr \<Rightarrow> pystr option) \<Rightarrow> ('k, unit) shell_action" where
  "push_main shell env s =
     (case environ_token env of
        None \<Rightarrow> (Inr (), echo (T ''Error: No GITHUB_TOKEN or GH_TOKEN found.'') s)
      | Some token \<Rightarrow>
          (case run_cmd shell (add_cmd (remote_with_token token)) (snd (execute shell remove_cmd s)) of
             (Inl e, s2) \<Rightarrow> (Inl e, s2)
           | (Inr _, s2) \<Rightarrow>
               (case run_cmd shell push_cmd (echo (T ''Pushing to GitHub (main)...'') s2) of
                  (Inl e, s3) \<Rightarrow> (Inl e, s3)
                | (Inr code, s3) \<Rightarrow>
                    (case run_cmd shell (set_url_cmd clean_remote) s3 of
                       (Inl e, s4) \<Rightarrow> (Inl e, s4)
                     | (Inr _, s4) \<Rightarrow>
                         (Inr (),
                          echo (if code = 0 then T ''SUCCESS: Pushed to https://github.com/Anshu666666/TransactFlow''
                                else T ''FAILED: git push exited with code '' @ ascii (show_int code)) s4)))))"

section \<open>git\<close>

text \<open>
  The URL of \<open>origin\<close>, and what the commands do to it: a command that fails leaves it, one that
  succeeds has its effect, a push never changes it. The laws speak of URLs the shell passes on
  unchanged inside double quotes.
\<close>

definition shell_plain :: "pystr \<Rightarrow> bool" where
  "shell_plain t \<longleftrightarrow> list_all (\<lambda>c. 32 < c \<and> c < 127 \<and> c \<notin> {33, 34, 36, 92, 96}) t"

definition exit_ok :: "shell_outcome \<Rightarrow> bool" where
  "exit_ok r \<longleftrightarrow> (case r of Ran code _ _ \<Rightarrow> code = 0 | Undecodable \<Rightarrow> False)"

definition git_laws :: "('k \<Rightarrow> pystr option) \<Rightarrow> 'k shell \<Rightarrow> bool" where
  "git_laws origin shell \<longleftrightarrow>
     (\<forall>url k r k'. shell_plain url \<longrightarrow> shell (add_cmd url) k = (r, k') \<longrightarrow> exit_ok r \<longrightarrow> origin k' = Some url) \<and>
     (\<forall>url k r k'. shell_plain url \<longrightarrow> shell (set_url_cmd url) k = (r, k') \<longrightarrow> exit_ok r \<longrightarrow> origin k' = Some url) \<and>
     (\<forall>k r k'. shell push_cmd k = (r, k') \<longrightarrow> origin k' = origin k)"

lemma execute_frame:
  "execute shell cmd s = (r, s') \<Longrightarrow>
     commands s' = commands s @ [cmd] \<and> shown s' = shown s \<and> shell cmd (host s) = (r, host s')"
  by (auto simp: execute_def split: prod.splits)

lemma echo_frame [simp]:
  "host (echo l s) = host s" "commands (echo l s) = commands s" "shown (echo l s) = shown s @ [l]"
  by (simp_all add: echo_def)

lemma run_cmd_cases:
  assumes "run_cmd shell cmd s = (res, s')"
  obtains (garbled) "shell cmd (host s) = (Undecodable, host s')" "res = Inl UnicodeDecodeError"
      "commands s' = commands s @ [cmd]" "shown s' = shown s"
  | (ran) code out err where "shell cmd (host s) = (Ran code out err, host s')" "res = Inr code"
      "commands s' = commands s @ [cmd]"
proof -
  obtain r s1 where e: "execute shell cmd s = (r, s1)" by fastforce
  note fr = execute_frame [OF e]
  show thesis
  proof (cases r)
    case Undecodable
    with assms e fr show thesis by (intro garbled) (auto simp: run_cmd_def)
  next
    case (Ran code out err)
    with assms e fr show thesis by (intro ran [of code out err]) (auto simp: run_cmd_def Let_def split: if_splits)
  qed
qed

section \<open>What a run does\<close>

lemma run_cmd_outcome:
  assumes "shell cmd (host s) = (r, k)"
  obtains s' where "host s' = k" "commands s' = commands s @ [cmd]"
    "run_cmd shell cmd s = (case r of Undecodable \<Rightarrow> Inl UnicodeDecodeError | Ran code out err \<Rightarrow> Inr code, s')"
proof -
  obtain res s' where run: "run_cmd shell cmd s = (res, s')" by fastforce
  then show thesis using assms by (cases rule: run_cmd_cases) (auto simp: run intro!: that [of s'])
qed

text \<open>
  C33. The order of the commands, whatever the shell makes of them. Without a token the script runs no
  command. With one it removes the remote, adds the URL with the token, pushes, and sets the clean URL, in
  this order and each once, whatever their return codes. Only a command whose output is no text stops it, there
  and with \<open>UnicodeDecodeError\<close>; the removal cannot, since its output is not decoded. If the script gets to its end it
  returns normally, and its last line reports success exactly when the push returned 0. When the last command
  was run and returned 0, the URL that stays in the configuration is the clean one.
\<close>

theorem push_order:
  assumes "git_laws origin shell" "push_main shell env s = (res, s')"
  shows "case environ_token env of
      None \<Rightarrow> res = Inr () \<and> commands s' = commands s \<and> host s' = host s
    | Some token \<Rightarrow>
        (let k1 = snd (shell remove_cmd (host s));
             (add, k2) = shell (add_cmd (remote_with_token token)) k1;
             (push, k3) = shell push_cmd k2;
             (clean, k4) = shell (set_url_cmd clean_remote) k3 in
         if add = Undecodable
         then res = Inl UnicodeDecodeError \<and> host s' = k2 \<and>
              commands s' = commands s @ [remove_cmd, add_cmd (remote_with_token token)]
         else if push = Undecodable
         then res = Inl UnicodeDecodeError \<and> host s' = k3 \<and>
              commands s' = commands s @ [remove_cmd, add_cmd (remote_with_token token), push_cmd]
         else host s' = k4 \<and>
              commands s' = commands s @ [remove_cmd, add_cmd (remote_with_token token), push_cmd, set_url_cmd clean_remote] \<and>
              (if clean = Undecodable then res = Inl UnicodeDecodeError
               else res = Inr () \<and>
                 (last (shown s') = T ''SUCCESS: Pushed to https://github.com/Anshu666666/TransactFlow'' \<longleftrightarrow> exit_ok push)) \<and>
              (exit_ok clean \<longrightarrow> origin (host s') = Some clean_remote))"
proof (cases "environ_token env")
  case None
  with assms(2) show ?thesis by (auto simp: push_main_def)
next
  case (Some token)
  let ?s1 = "snd (execute shell remove_cmd s)" and ?add = "add_cmd (remote_with_token token)" and ?clean = "set_url_cmd clean_remote"
  have s1: "commands ?s1 = commands s @ [remove_cmd]" "host ?s1 = snd (shell remove_cmd (host s))"
    using execute_frame [of shell remove_cmd s "fst (execute shell remove_cmd s)" ?s1] by simp_all
  obtain add k2 where a: "shell ?add (snd (shell remove_cmd (host s))) = (add, k2)" by fastforce
  obtain push k3 where p: "shell push_cmd k2 = (push, k3)" by fastforce
  obtain clean k4 where c: "shell ?clean k3 = (clean, k4)" by fastforce
  obtain s2 where s2: "host s2 = k2" "commands s2 = commands ?s1 @ [?add]"
      "run_cmd shell ?add ?s1 = (case add of Undecodable \<Rightarrow> Inl UnicodeDecodeError | Ran code out err \<Rightarrow> Inr code, s2)"
    by (rule run_cmd_outcome [of shell ?add ?s1, unfolded s1(2), OF a])
  let ?s2 = "echo (T ''Pushing to GitHub (main)...'') s2"
  have p': "shell push_cmd (host ?s2) = (push, k3)" by (simp add: p s2(1))
  obtain s3 where s3: "host s3 = k3" "commands s3 = commands ?s2 @ [push_cmd]"
      "run_cmd shell push_cmd ?s2 = (case push of Undecodable \<Rightarrow> Inl UnicodeDecodeError | Ran code out err \<Rightarrow> Inr code, s3)"
    by (rule run_cmd_outcome [of shell push_cmd ?s2, OF p'])
  obtain s4 where s4: "host s4 = k4" "commands s4 = commands s3 @ [?clean]"
      "run_cmd shell ?clean s3 = (case clean of Undecodable \<Rightarrow> Inl UnicodeDecodeError | Ran code out err \<Rightarrow> Inr code, s4)"
    by (rule run_cmd_outcome [of shell ?clean s3, unfolded s3(1), OF c])
  have "shell_plain clean_remote" by (simp add: shell_plain_def clean_remote_def ascii_def)
  then have origin: "exit_ok clean \<longrightarrow> origin k4 = Some clean_remote"
    using assms(1) c by (auto simp: git_laws_def)
  note run = assms(2) [unfolded push_main_def Some option.case s2(3)] and cmds = s1(1) s2(1,2) s3(1,2) s4(1,2)
  have ?thesis if "add = Undecodable"
    unfolding Some option.case a p c Let_def prod.case using run cmds that by simp
  moreover have ?thesis if "add = Ran x out err" "push = Undecodable" for x out err
    unfolding Some option.case a p c Let_def prod.case using run cmds that by (simp add: s3(3))
  moreover have ?thesis if "add = Ran x out err" "push = Ran y out' err'" "clean = Undecodable" for x out err y out' err'
    unfolding Some option.case a p c Let_def prod.case using run cmds that by (simp add: s3(3) s4(3) exit_ok_def)
  moreover have ?thesis if "add = Ran x out err" "push = Ran y out' err'" "clean = Ran z out'' err''" for x out err y out' err' z out'' err''
  proof -
    have end_state: "res = Inr ()" "s' = echo (if y = 0 then T ''SUCCESS: Pushed to https://github.com/Anshu666666/TransactFlow''
        else T ''FAILED: git push exited with code '' @ ascii (show_int y)) s4"
      using run that by (simp_all add: s3(3) s4(3))
    have "last (shown s') = T ''SUCCESS: Pushed to https://github.com/Anshu666666/TransactFlow'' \<longleftrightarrow> exit_ok push"
      unfolding that(2) by (simp add: end_state(2) exit_ok_def ascii_Cons)
    then show ?thesis
      unfolding Some option.case a p c Let_def prod.case using origin cmds that end_state by simp
  qed
  ultimately show ?thesis by (metis shell_outcome.exhaust)
qed

text \<open>A configuration holding only the URL of \<open>origin\<close>; \<open>push\<close> is what pushing returns.\<close>

definition url_argument :: "nat \<Rightarrow> pystr \<Rightarrow> pystr" where
  "url_argument n cmd = butlast (drop (Suc n) cmd)"

definition small_git :: "shell_outcome \<Rightarrow> pystr option shell" where
  "small_git push cmd url =
     (if cmd = push_cmd then (push, url)
      else if take 22 cmd = T ''git remote add origin '' then (Ran 0 [] [], Some (url_argument 22 cmd))
      else if take 26 cmd = T ''git remote set-url origin '' then (Ran 0 [] [], Some (url_argument 26 cmd))
      else (Ran 0 [] [], None))"

lemma small_git_cmds [simp]:
  "small_git push (add_cmd u) url = (Ran 0 [] [], Some u)"
  "small_git push (set_url_cmd u) url = (Ran 0 [] [], Some u)"
  "small_git push push_cmd url = (push, url)"
  by (simp_all add: small_git_def add_cmd_def set_url_cmd_def push_cmd_def quoted_def url_argument_def ascii_Cons)

lemma small_git_laws [simp]: "git_laws id (small_git push)"
  by (auto simp: git_laws_def)

definition token_env :: "pystr \<Rightarrow> pystr option" where
  "token_env name = (if name = T ''GITHUB_TOKEN'' then Some [] else if name = T ''GH_TOKEN'' then Some (T ''s3cret'') else None)"

lemma token_env [simp]: "environ_token token_env = Some (T ''s3cret'')"
  by (simp add: environ_token_def token_env_def Let_def)

definition fresh_terminal :: "pystr option terminal" where
  "fresh_terminal = \<lparr>host = None, commands = [], shown = []\<rparr>"

theorem push_order_witness:
  "commands (snd (push_main (small_git (Ran 1 [] [])) token_env fresh_terminal))
     = [remove_cmd, add_cmd (remote_with_token (T ''s3cret'')), push_cmd, set_url_cmd clean_remote]
   \<and> host (snd (push_main (small_git (Ran 1 [] [])) token_env fresh_terminal)) = Some clean_remote"
  using push_order [OF small_git_laws prod.collapse [symmetric], of "Ran 1 [] []" token_env fresh_terminal]
  by (simp add: fresh_terminal_def exit_ok_def)

text \<open>
  When the token stays. If the output of the push is not text in the locale's encoding, the
  exception leaves the script before the clean URL is put back: the configuration keeps the URL with
  the token, against the comment that it is never stored on disk.
\<close>

theorem push_leaves_token:
  assumes "git_laws origin shell" "environ_token env = Some token" "shell_plain token"
    and "shell remove_cmd (host s) = (removed, k1)"
    and "shell (add_cmd (remote_with_token token)) k1 = (Ran 0 out err, k2)"
    and "shell push_cmd k2 = (Undecodable, k3)"
    and "push_main shell env s = (res, s')"
  shows "res = Inl UnicodeDecodeError \<and> origin (host s') = Some (remote_with_token token)
    \<and> commands s' = commands s @ [remove_cmd, add_cmd (remote_with_token token), push_cmd]"
proof -
  have "shell_plain (remote_with_token token)"
    using assms(3) by (simp add: shell_plain_def remote_with_token_def ascii_def)
  then have "origin k2 = Some (remote_with_token token)"
    using assms(1,5) by (auto simp: git_laws_def exit_ok_def)
  moreover have "origin k3 = origin k2" using assms(1,6) by (auto simp: git_laws_def)
  ultimately show ?thesis
    using assms(2,4-7) by (auto simp: push_main_def run_cmd_def execute_def Let_def echo_def split: if_splits)
qed

theorem push_leaves_token_witness:
  "host (snd (push_main (small_git Undecodable) token_env fresh_terminal)) = Some (remote_with_token (T ''s3cret''))"
proof -
  have plain: "shell_plain (T ''s3cret'')" by (simp add: shell_plain_def ascii_def)
  have removed: "small_git Undecodable remove_cmd (host fresh_terminal) = (Ran 0 [] [], None)"
    by (simp add: small_git_def remove_cmd_def push_cmd_def ascii_Cons)
  show ?thesis
    using push_leaves_token [OF small_git_laws token_env plain removed small_git_cmds(1) small_git_cmds(3)
        prod.collapse [symmetric]]
    by simp
qed

end
