(* ===== verification/Plot_Api.thy ===== *)
theory Plot_Api
  imports Es_Query
begin

text \<open>
  What \<open>scripts/generate_benchmark_charts.py\<close> does its work with: calls of matplotlib and the file
  system, and runs that print, query, draw and may raise. matplotlib is outside the repository: a
  parameter that may refuse a call and that says which bars a call of \<open>bar\<close> draws.
\<close>

section \<open>Calls\<close>

datatype plot_val =
    VInt int
  | VFloat py_float
  | VStr pystr
  | VBool bool
  | VJson pyval
  | VObject string
  | VList "plot_val list"
  | VTuple "plot_val list"
  | VDict "(string \<times> plot_val) list"

text \<open>\<open>Call target method positional keywords\<close>, and the text file the last chart writes.\<close>

datatype plot_call =
    Call string string "plot_val list" "(string \<times> plot_val) list"
  | WriteText pystr pystr

text \<open>A float literal: the double nearest to a decimal.\<close>

definition dec :: "int \<Rightarrow> nat \<Rightarrow> rat" where
  "dec m k = double_of_rat (of_int m / 10 ^ k)"

abbreviation lit :: "int \<Rightarrow> nat \<Rightarrow> plot_val" where "lit m k \<equiv> VFloat (Finite (dec m k))"

definition fl_add :: "rat \<Rightarrow> rat \<Rightarrow> rat" where "fl_add a b = double_of_rat (a + b)"
definition fl_sub :: "rat \<Rightarrow> rat \<Rightarrow> rat" where "fl_sub a b = double_of_rat (a - b)"
definition fl_mul :: "rat \<Rightarrow> rat \<Rightarrow> rat" where "fl_mul a b = double_of_rat (a * b)"
definition fl_div :: "rat \<Rightarrow> rat \<Rightarrow> rat" where "fl_div a b = double_of_rat (a / b)"

text \<open>\<open>np.arange(n)\<close>, and the array minus or plus a float.\<close>

definition arange :: "nat \<Rightarrow> plot_val" where "arange n = VList (map (\<lambda>i. VInt (int i)) [0..<n])"
definition arange_minus :: "nat \<Rightarrow> rat \<Rightarrow> plot_val" where
  "arange_minus n q = VList (map (\<lambda>i. VFloat (Finite (fl_sub (of_nat i) q))) [0..<n])"
definition arange_plus :: "nat \<Rightarrow> rat \<Rightarrow> plot_val" where
  "arange_plus n q = VList (map (\<lambda>i. VFloat (Finite (fl_add (of_nat i) q))) [0..<n])"

section \<open>Paths\<close>

text \<open>\<open>os.path.join(a, b)\<close> with a relative \<open>b\<close>, and \<open>os.path.dirname\<close>.\<close>

definition path_join :: "pystr \<Rightarrow> pystr \<Rightarrow> pystr" where
  "path_join a b = (if a = [] \<or> last a = 47 then a @ b else a @ [47] @ b)"

definition dirname :: "pystr \<Rightarrow> pystr" where
  "dirname p =
     (let head = rev (dropWhile (\<lambda>c. c \<noteq> 47) (rev p)) in
      if list_all (\<lambda>c. c = 47) head then head else rev (dropWhile (\<lambda>c. c = 47) (rev head)))"

section \<open>matplotlib\<close>

record rect =
  rect_x :: rat
  rect_width :: rat
  rect_height :: py_float

record plot_lib =
  refuses :: "plot_call list \<Rightarrow> plot_call \<Rightarrow> py_error option"
  bars :: "plot_call \<Rightarrow> rect list"

definition rect_middle :: "rect \<Rightarrow> plot_val" where
  "rect_middle r = VFloat (Finite (fl_add (rect_x r) (fl_div (rect_width r) 2)))"

definition positive :: "py_float \<Rightarrow> bool" where
  "positive x \<longleftrightarrow> (case x of Finite q \<Rightarrow> 0 < q | PosInf \<Rightarrow> True | _ \<Rightarrow> False)"

section \<open>Runs\<close>

record 'k bench =
  net :: "'k script"
  drawn :: "plot_call list"

type_synonym ('k, 'a) bench_action = "'k bench \<Rightarrow> 'a py \<times> 'k bench"

definition bindb :: "('k, 'a) bench_action \<Rightarrow> ('a \<Rightarrow> ('k, 'b) bench_action) \<Rightarrow> ('k, 'b) bench_action" where
  "bindb m f s = (case m s of (Inl e, s') \<Rightarrow> (Inl e, s') | (Inr a, s') \<Rightarrow> f a s')"

definition of_py :: "'a py \<Rightarrow> ('k, 'a) bench_action" where
  "of_py r s = (r, s)"

definition say :: "pystr \<Rightarrow> ('k, unit) bench_action" where
  "say line s = (Inr (), s\<lparr>net := py_print line (net s)\<rparr>)"

definition ask :: "'k http \<Rightarrow> pystr \<Rightarrow> pyval \<Rightarrow> ('k, pyval) bench_action" where
  "ask srv index query s = (case query_es srv index query (net s) of (r, n) \<Rightarrow> (r, s\<lparr>net := n\<rparr>))"

definition draw :: "plot_lib \<Rightarrow> plot_call \<Rightarrow> ('k, unit) bench_action" where
  "draw lib c s =
     (case refuses lib (drawn s) c of
        Some e \<Rightarrow> (Inl e, s)
      | None \<Rightarrow> (Inr (), s\<lparr>drawn := drawn s @ [c]\<rparr>))"

fun draw_all :: "plot_lib \<Rightarrow> plot_call list \<Rightarrow> ('k, unit) bench_action" where
  "draw_all lib [] s = (Inr (), s)"
| "draw_all lib (c # cs) s = bindb (draw lib c) (\<lambda>_. draw_all lib cs) s"

text \<open>A library that refuses nothing draws everything.\<close>

definition willing :: "plot_lib \<Rightarrow> bool" where
  "willing lib \<longleftrightarrow> (\<forall>cs c. refuses lib cs c = None)"

lemma draw_all_willing: "willing lib \<Longrightarrow> draw_all lib cs s = (Inr (), s\<lparr>drawn := drawn s @ cs\<rparr>)"
  by (induction cs arbitrary: s) (simp_all add: bindb_def draw_def willing_def)

text \<open>What a run that does not get an exception leaves: its calls, in order, a prefix otherwise.\<close>

lemma draw_all_prefix:
  "draw_all lib cs s = (res, s') \<Longrightarrow>
   net s' = net s \<and> (\<exists>k \<le> length cs. drawn s' = drawn s @ take k cs \<and> (res = Inr () \<longleftrightarrow> k = length cs))"
proof (induction cs arbitrary: s)
  case (Cons c cs)
  show ?case
  proof (cases "refuses lib (drawn s) c")
    case None
    with Cons.prems have "draw_all lib cs (s\<lparr>drawn := drawn s @ [c]\<rparr>) = (res, s')"
      by (simp add: bindb_def draw_def)
    from Cons.IH [OF this] obtain k where "k \<le> length cs" "drawn s' = drawn s @ c # take k cs"
        "res = Inr () \<longleftrightarrow> k = length cs" "net s' = net s"
      by auto
    then show ?thesis by (auto intro!: exI [of _ "Suc k"])
  next
    case (Some e)
    with Cons.prems show ?thesis by (auto simp: bindb_def draw_def intro!: exI [of _ 0])
  qed
qed simp

end
