(* ===== verification/Bench_Figures.thy ===== *)
theory Bench_Figures
  imports Plot_Api
begin

text \<open>
  The matplotlib calls of \<open>scripts/generate_benchmark_charts.py\<close>, chart by chart, in the order of the
  code: every literal, colour, label and position, with the series of the first two charts and the
  bars they draw as arguments.
\<close>

section \<open>Computed arguments\<close>

text \<open>\<open>np.argmax\<close>: the first NaN if there is one, otherwise the first of the greatest.\<close>

fun float_le :: "py_float \<Rightarrow> py_float \<Rightarrow> bool" where
  "float_le (Finite a) (Finite b) = (a \<le> b)"
| "float_le NegInf y = (y \<noteq> NotANumber)"
| "float_le x PosInf = (x \<noteq> NotANumber)"
| "float_le _ _ = False"

fun argmax_from :: "nat \<Rightarrow> nat \<Rightarrow> py_float \<Rightarrow> py_float list \<Rightarrow> nat" where
  "argmax_from best i m [] = best"
| "argmax_from best i m (x # xs) =
     (if m = NotANumber \<or> float_le x m then argmax_from best (Suc i) m xs else argmax_from i (Suc i) x xs)"

definition argmax :: "py_float list \<Rightarrow> nat" where
  "argmax xs = (case xs of [] \<Rightarrow> 0 | x # ys \<Rightarrow> argmax_from 0 1 x ys)"

definition plus_float :: "py_float \<Rightarrow> rat \<Rightarrow> py_float" where
  "plus_float x q = (case x of Finite a \<Rightarrow> Finite (fl_add a q) | _ \<Rightarrow> x)"

definition peak_label :: "py_float \<Rightarrow> pystr" where
  "peak_label x = T ''Peak Ingestion: '' @ T (float_text 0 x) @ T '' req/s''"

section \<open>Charts\<close>

definition dark_bg :: pystr where "dark_bg = T ''#0f172a''"

definition card_bg :: pystr where "card_bg = T ''#1e293b''"

definition text_main :: pystr where "text_main = T ''#f8fafc''"

definition text_muted :: pystr where "text_muted = T ''#94a3b8''"

definition accent_blue :: pystr where "accent_blue = T ''#38bdf8''"

definition accent_green :: pystr where "accent_green = T ''#34d399''"

definition accent_amber :: pystr where "accent_amber = T ''#fbbf24''"

definition accent_purple :: pystr where "accent_purple = T ''#a855f7''"

definition accent_rose :: pystr where "accent_rose = T ''#f43f5e''"

definition setup_calls :: "pystr \<Rightarrow> plot_call list" where
  "setup_calls dir =
     [
      Call ''matplotlib'' ''use'' [VStr (T ''Agg'')] [],
      Call ''plt.style'' ''use'' [VStr (T ''dark_background'')] [],
      Call ''plt.rcParams'' ''update''
        [VDict [(''figure.facecolor'', VStr dark_bg), (''axes.facecolor'', VStr card_bg),
                (''axes.edgecolor'', VStr (T ''#334155'')), (''axes.labelcolor'', VStr text_main),
                (''text.color'', VStr text_main), (''xtick.color'', VStr text_muted),
                (''ytick.color'', VStr text_muted), (''grid.color'', VStr (T ''#334155'')),
                (''grid.alpha'', lit 4 1), (''grid.linestyle'', VStr (T ''--'')),
                (''font.sans-serif'', VList [VStr (T ''Segoe UI''), VStr (T ''DejaVu Sans''), VStr (T ''Helvetica''),
                         VStr (T ''Arial'')]),
                (''font.family'', VStr (T ''sans-serif''))]]
        [],
      Call ''os'' ''makedirs'' [VStr dir] [(''exist_ok'', VBool True)]]"

definition throughput_calls :: "pystr \<Rightarrow> int list \<Rightarrow> py_float list \<Rightarrow> py_float list \<Rightarrow> py_float list \<Rightarrow> plot_call list" where
  "throughput_calls dir ts api redis es =
     (let peak = argmax api in [
      Call ''plt'' ''subplots'' [] [(''figsize'', VTuple [VInt 12, VInt 6]), (''dpi'', VInt 300)],
      Call ''ax'' ''plot'' [VList (map VInt ts), VList (map VFloat api)]
        [(''color'', VStr accent_blue), (''linewidth'', lit 25 1),
         (''label'', VStr (T ''API Ingestion Throughput (req/sec)'')), (''alpha'', lit 95 2)],
      Call ''ax'' ''plot'' [VList (map VInt ts), VList (map VFloat redis)]
        [(''color'', VStr accent_green), (''linewidth'', lit 22 1), (''linestyle'', VStr (T ''-'')),
         (''label'', VStr (T ''Redis In-Memory Sink (events/sec)'')), (''alpha'', lit 9 1)],
      Call ''ax'' ''plot'' [VList (map VInt ts), VList (map VFloat es)]
        [(''color'', VStr accent_purple), (''linewidth'', lit 20 1), (''linestyle'', VStr (T ''-.'')),
         (''label'', VStr (T ''Elasticsearch Index Sink (events/sec)'')), (''alpha'', lit 85 2)],
      Call ''ax'' ''fill_between'' [VList (map VInt ts), VList (map VFloat api)]
        [(''color'', VStr accent_blue), (''alpha'', lit 12 2)],
      Call ''ax'' ''annotate'' [VStr (peak_label (api ! peak))]
        [(''xy'', VTuple [VInt (ts ! peak), VFloat (api ! peak)]),
         (''xytext'', VTuple [VInt (ts ! peak - 30), VFloat (plus_float (api ! peak) 40)]),
         (''arrowprops'', VDict [(''facecolor'', VStr accent_blue), (''edgecolor'', VStr (T ''none'')), (''shrink'', lit 8 2),
                 (''width'', lit 15 1), (''headwidth'', VInt 6)]),
         (''bbox'', VDict [(''boxstyle'', VStr (T ''round,pad=0.3'')), (''fc'', VStr card_bg), (''ec'', VStr accent_blue),
                 (''lw'', lit 12 1)]),
         (''fontsize'', VInt 10), (''fontweight'', VStr (T ''bold'')), (''color'', VStr text_main)],
      Call ''ax'' ''set_title'' [VStr (T ''End-to-End Pipeline Throughput Under Soak Test'')]
        [(''fontsize'', VInt 16), (''fontweight'', VStr (T ''bold'')), (''pad'', VInt 18)],
      Call ''ax'' ''set_xlabel'' [VStr (T ''Elapsed Time (Seconds)'')]
        [(''fontsize'', VInt 12), (''labelpad'', VInt 10)],
      Call ''ax'' ''set_ylabel'' [VStr (T ''Throughput (Operations / Sec)'')]
        [(''fontsize'', VInt 12), (''labelpad'', VInt 10)],
      Call ''ax'' ''grid'' [VBool True] [],
      Call ''ax'' ''legend'' []
        [(''loc'', VStr (T ''upper right'')), (''frameon'', VBool True), (''facecolor'', VStr card_bg),
         (''edgecolor'', VStr (T ''#334155'')), (''fontsize'', VInt 10)],
      Call ''plt'' ''tight_layout'' [] [],
      Call ''fig'' ''savefig'' [VStr (path_join dir (T ''01_pipeline_throughput.png''))] [],
      Call ''fig'' ''savefig'' [VStr (path_join dir (T ''01_pipeline_throughput.svg''))] [],
      Call ''plt'' ''close'' [VObject ''fig''] []])"

definition latency_bar_api :: "pyval list \<Rightarrow> plot_call" where
  "latency_bar_api api =
     Call ''ax'' ''bar'' [arange_minus 4 (fl_mul (dec 15 1) (dec 2 1)), VList (map VJson api), lit 2 1]
        [(''label'', VStr (T ''API Request (Postgres Commit)'')), (''color'', VStr accent_blue),
         (''edgecolor'', VStr (T ''none'')), (''alpha'', lit 9 1)]"

definition latency_bar_es :: "pyval list \<Rightarrow> plot_call" where
  "latency_bar_es es =
     Call ''ax'' ''bar'' [arange_minus 4 (fl_mul (dec 5 1) (dec 2 1)), VList (map VJson es), lit 2 1]
        [(''label'', VStr (T ''Elasticsearch Index Sink'')), (''color'', VStr accent_purple),
         (''edgecolor'', VStr (T ''none'')), (''alpha'', lit 9 1)]"

definition latency_bar_engine :: "pyval list \<Rightarrow> plot_call" where
  "latency_bar_engine proc =
     Call ''ax'' ''bar'' [arange_plus 4 (fl_mul (dec 5 1) (dec 2 1)), VList (map VJson proc), lit 2 1]
        [(''label'', VStr (T ''C++ Consumer Engine Pipeline'')), (''color'', VStr accent_amber),
         (''edgecolor'', VStr (T ''none'')), (''alpha'', lit 9 1)]"

definition latency_bar_redis :: "pyval list \<Rightarrow> plot_call" where
  "latency_bar_redis redis =
     Call ''ax'' ''bar'' [arange_plus 4 (fl_mul (dec 15 1) (dec 2 1)), VList (map VJson redis), lit 2 1]
        [(''label'', VStr (T ''Redis Lua Atomic Upsert'')), (''color'', VStr accent_green),
         (''edgecolor'', VStr (T ''none'')), (''alpha'', lit 95 2)]"

definition bar_label :: "rect \<Rightarrow> plot_call" where
  "bar_label r =
     Call ''ax'' ''annotate'' [VStr (T (float_text 1 (rect_height r)) @ T ''ms'')]
        [(''xy'', VTuple [rect_middle r, VFloat (rect_height r)]), (''xytext'', VTuple [VInt 0, VInt 4]),
         (''textcoords'', VStr (T ''offset points'')), (''ha'', VStr (T ''center'')),
         (''va'', VStr (T ''bottom'')), (''fontsize'', lit 85 1), (''color'', VStr text_main)]"

definition autolabel :: "rect list \<Rightarrow> plot_call list" where
  "autolabel rects =
     map bar_label (filter (\<lambda>r. positive (rect_height r)) rects)"

definition latency_calls :: "(plot_call \<Rightarrow> rect list) \<Rightarrow> pystr \<Rightarrow> pyval list \<Rightarrow> pyval list \<Rightarrow> pyval list \<Rightarrow> pyval list \<Rightarrow> plot_call list" where
  "latency_calls rects dir api redis es proc =
     [
      Call ''plt'' ''subplots'' [] [(''figsize'', VTuple [VInt 12, lit 65 1]), (''dpi'', VInt 300)],
      latency_bar_api api,
      latency_bar_es es,
      latency_bar_engine proc,
      latency_bar_redis redis,
      Call ''ax'' ''set_title'' [VStr (T ''Latency Distribution by Pipeline Layer (SLA Breakdown)'')]
        [(''fontsize'', VInt 16), (''fontweight'', VStr (T ''bold'')), (''pad'', VInt 18)],
      Call ''ax'' ''set_xticks'' [arange 4] [],
      Call ''ax'' ''set_xticklabels''
        [VList [VStr (T ''P50 (Median)''), VStr (T ''P90''), VStr (T ''P95''), VStr (T ''P99 (Tail)'')]]
        [(''fontsize'', VInt 11), (''fontweight'', VStr (T ''600''))],
      Call ''ax'' ''set_ylabel'' [VStr (T ''Latency (Milliseconds)'')]
        [(''fontsize'', VInt 12), (''labelpad'', VInt 10)],
      Call ''ax'' ''grid'' [] [(''axis'', VStr (T ''y'')), (''alpha'', lit 4 1)],
      Call ''ax'' ''legend'' []
        [(''loc'', VStr (T ''upper left'')), (''frameon'', VBool True), (''facecolor'', VStr card_bg),
         (''edgecolor'', VStr (T ''#334155'')), (''fontsize'', VInt 10)]] @
     autolabel (rects (latency_bar_api api)) @ autolabel (rects (latency_bar_es es)) @
     autolabel (rects (latency_bar_engine proc)) @ autolabel (rects (latency_bar_redis redis)) @
     [
      Call ''plt'' ''tight_layout'' [] [],
      Call ''fig'' ''savefig'' [VStr (path_join dir (T ''02_latency_percentiles.png''))] [],
      Call ''fig'' ''savefig'' [VStr (path_join dir (T ''02_latency_percentiles.svg''))] [],
      Call ''plt'' ''close'' [VObject ''fig''] []]"

definition store_bar_p50 :: "plot_call" where
  "store_bar_p50 =
     Call ''ax1'' ''bar'' [arange_minus 2 (dec 25 2), VList [lit 1 1, lit 118 1], lit 25 2]
        [(''label'', VStr (T ''P50 (Median)'')), (''color'', VStr accent_green), (''alpha'', lit 9 1)]"

definition store_bar_p95 :: "plot_call" where
  "store_bar_p95 =
     Call ''ax1'' ''bar'' [arange 2, VList [lit 9 1, lit 211 1], lit 25 2]
        [(''label'', VStr (T ''P95'')), (''color'', VStr accent_amber), (''alpha'', lit 9 1)]"

definition store_bar_p99 :: "plot_call" where
  "store_bar_p99 =
     Call ''ax1'' ''bar'' [arange_plus 2 (dec 25 2), VList [lit 20 1, lit 302 1], lit 25 2]
        [(''label'', VStr (T ''P99 (Tail)'')), (''color'', VStr accent_rose), (''alpha'', lit 9 1)]"

definition store_label :: "rect \<Rightarrow> plot_call" where
  "store_label r =
     Call ''ax1'' ''annotate'' [VStr (T (float_text 1 (rect_height r)) @ T ''ms'')]
        [(''xy'', VTuple [rect_middle r, VFloat (rect_height r)]), (''xytext'', VTuple [VInt 0, VInt 3]),
         (''textcoords'', VStr (T ''offset points'')), (''ha'', VStr (T ''center'')),
         (''va'', VStr (T ''bottom'')), (''fontsize'', lit 85 1)]"

definition dual_store_calls :: "(plot_call \<Rightarrow> rect list) \<Rightarrow> pystr \<Rightarrow> plot_call list" where
  "dual_store_calls rects dir =
     [
      Call ''plt'' ''subplots'' [VInt 1, VInt 2]
        [(''figsize'', VTuple [VInt 13, lit 55 1]), (''dpi'', VInt 300)],
      store_bar_p50,
      store_bar_p95,
      store_bar_p99,
      Call ''ax1'' ''set_title'' [VStr (T ''Write Latency Comparison (ms)'')]
        [(''fontsize'', VInt 13), (''fontweight'', VStr (T ''bold'')), (''pad'', VInt 12)],
      Call ''ax1'' ''set_xticks'' [arange 2] [],
      Call ''ax1'' ''set_xticklabels''
        [VList [VStr (T ''Redis Cache'' @ [10] @ T ''(Atomic Lua Guard)''),
               VStr (T ''Elasticsearch'' @ [10] @ T ''(Full-Text Index)'')]]
        [(''fontsize'', VInt 11)],
      Call ''ax1'' ''set_ylabel'' [VStr (T ''Latency (ms) [Lower is Better]'')] [(''fontsize'', VInt 11)],
      Call ''ax1'' ''grid'' [] [(''axis'', VStr (T ''y'')), (''alpha'', lit 4 1)],
      Call ''ax1'' ''legend'' []
        [(''frameon'', VBool True), (''facecolor'', VStr card_bg), (''edgecolor'', VStr (T ''#334155'')),
         (''fontsize'', lit 95 1)]] @
     map store_label (rects store_bar_p50 @ rects store_bar_p95 @ rects store_bar_p99) @
     [
      Call ''ax2'' ''bar''
        [VList [VStr (T ''Processed'' @ [10] @ T ''Events''),
               VStr (T ''Dead Letter'' @ [10] @ T ''Queue (DLQ)''), VStr (T ''Data Loss'' @ [10] @ T ''Rate'')],
         VList [lit 2160 1, lit 0 1, lit 0 1]]
        [(''color'', VList [VStr accent_blue, VStr accent_green, VStr accent_green]), (''width'', lit 45 2),
         (''alpha'', lit 9 1)],
      Call ''ax2'' ''set_title'' [VStr (T ''Reliability & Zero-Loss Verification'')]
        [(''fontsize'', VInt 13), (''fontweight'', VStr (T ''bold'')), (''pad'', VInt 12)],
      Call ''ax2'' ''set_ylabel'' [VStr (T ''Count (in Thousands)'')] [(''fontsize'', VInt 11)],
      Call ''ax2'' ''grid'' [] [(''axis'', VStr (T ''y'')), (''alpha'', lit 4 1)],
      Call ''ax2'' ''annotate'' [VStr (T ''216,029 Events'' @ [10] @ T ''(100% Verified)'')]
        [(''xy'', VTuple [VInt 0, lit 2160 1]), (''xytext'', VTuple [VInt 0, VInt 8]),
         (''textcoords'', VStr (T ''offset points'')), (''ha'', VStr (T ''center'')),
         (''va'', VStr (T ''bottom'')), (''fontweight'', VStr (T ''bold'')), (''color'', VStr accent_blue)],
      Call ''ax2'' ''annotate'' [VStr (T ''0 Messages Quarantined'' @ [10] @ T ''(Under Soak Load)'')]
        [(''xy'', VTuple [VInt 1, lit 20 1]), (''xytext'', VTuple [VInt 0, VInt 15]),
         (''textcoords'', VStr (T ''offset points'')), (''ha'', VStr (T ''center'')),
         (''va'', VStr (T ''bottom'')), (''fontweight'', VStr (T ''bold'')), (''color'', VStr accent_green)],
      Call ''ax2'' ''annotate'' [VStr (T ''0.000% Loss'' @ [10] @ T ''(Monotonic LSN Verified)'')]
        [(''xy'', VTuple [VInt 2, lit 20 1]), (''xytext'', VTuple [VInt 0, VInt 15]),
         (''textcoords'', VStr (T ''offset points'')), (''ha'', VStr (T ''center'')),
         (''va'', VStr (T ''bottom'')), (''fontweight'', VStr (T ''bold'')), (''color'', VStr accent_green)],
      Call ''plt'' ''suptitle'' [VStr (T ''Dual-Storage Architecture & Fault Tolerance Analysis'')]
        [(''fontsize'', VInt 15), (''fontweight'', VStr (T ''bold'')), (''y'', lit 98 2)],
      Call ''plt'' ''tight_layout'' [] [],
      Call ''fig'' ''savefig'' [VStr (path_join dir (T ''03_dual_store_performance.png''))] [],
      Call ''fig'' ''savefig'' [VStr (path_join dir (T ''03_dual_store_performance.svg''))] [],
      Call ''plt'' ''close'' [VObject ''fig''] []]"

definition current_offsets :: "int list" where "current_offsets = [216029, 216029, 97280]"

definition log_end_offsets :: "int list" where "log_end_offsets = [216029, 216029, 216029]"

definition lags :: "int list" where "lags = [0, 0, 216029 - 97280]"

definition consumer_lag_calls :: "pystr \<Rightarrow> plot_call list" where
  "consumer_lag_calls dir =
     [
      Call ''plt'' ''subplots'' [] [(''figsize'', VTuple [VInt 10, lit 55 1]), (''dpi'', VInt 300)],
      Call ''ax'' ''barh'' [arange_minus 3 (fl_div (dec 35 2) 2), VList (map VInt current_offsets), lit 35 2]
        [(''label'', VStr (T ''Current Committed Offset'')), (''color'', VStr accent_green),
         (''alpha'', lit 9 1)],
      Call ''ax'' ''barh'' [arange_plus 3 (fl_div (dec 35 2) 2), VList (map VInt lags), lit 35 2]
        [(''label'', VStr (T ''Lag (Queued in Kafka Buffer)'')), (''color'', VStr accent_amber),
         (''alpha'', lit 85 2)],
      Call ''ax'' ''set_title'' [VStr (T ''Kafka Consumer Group Lag & Asynchronous Decoupling'')]
        [(''fontsize'', VInt 15), (''fontweight'', VStr (T ''bold'')), (''pad'', VInt 16)],
      Call ''ax'' ''set_yticks'' [arange 3] [],
      Call ''ax'' ''set_yticklabels''
        [VList [VStr (T ''RedisUpdater Group'' @ [10] @ T ''(Atomic Lua Sync)''),
               VStr (T ''Notifier Group'' @ [10] @ T ''(Idempotent Alerts)''),
               VStr (T ''ESIndexer Group'' @ [10] @ T ''(Search Analytics)'')]]
        [(''fontsize'', VInt 11), (''fontweight'', VStr (T ''600''))],
      Call ''ax'' ''set_xlabel'' [VStr (T ''Message Offset Count'')]
        [(''fontsize'', VInt 11), (''labelpad'', VInt 10)],
      Call ''ax'' ''grid'' [] [(''axis'', VStr (T ''x'')), (''alpha'', lit 4 1)],
      Call ''ax'' ''legend'' []
        [(''loc'', VStr (T ''lower right'')), (''frameon'', VBool True), (''facecolor'', VStr card_bg),
         (''edgecolor'', VStr (T ''#334155'')), (''fontsize'', VInt 10)],
      Call ''ax'' ''annotate'' [VStr (T ''LAG = 0 (Real-Time Sub-ms In-Memory Replication)'')]
        [(''xy'', VTuple [VInt 216029, VFloat (Finite (fl_sub 0 (fl_div (dec 35 2) 2)))]),
         (''xytext'', VTuple [VInt (-260), VInt 0]), (''textcoords'', VStr (T ''offset points'')),
         (''color'', VStr accent_green), (''fontweight'', VStr (T ''bold'')), (''fontsize'', lit 95 1)],
      Call ''ax'' ''annotate'' [VStr (T ''LAG = 0 (Real-Time Non-Blocking Dispatch)'')]
        [(''xy'', VTuple [VInt 216029, VFloat (Finite (fl_sub 1 (fl_div (dec 35 2) 2)))]),
         (''xytext'', VTuple [VInt (-240), VInt 0]), (''textcoords'', VStr (T ''offset points'')),
         (''color'', VStr accent_green), (''fontweight'', VStr (T ''bold'')), (''fontsize'', lit 95 1)],
      Call ''ax'' ''annotate'' [VStr (T ''Decoupled Ingestion: Kafka buffers burst without API slowdown'')]
        [(''xy'', VTuple [VInt (lags ! 2), VFloat (Finite (fl_add 2 (fl_div (dec 35 2) 2)))]),
         (''xytext'', VTuple [VInt (-20), VInt 15]), (''textcoords'', VStr (T ''offset points'')),
         (''color'', VStr accent_amber), (''fontweight'', VStr (T ''bold'')), (''fontsize'', lit 95 1)],
      Call ''plt'' ''tight_layout'' [] [],
      Call ''fig'' ''savefig'' [VStr (path_join dir (T ''04_consumer_lag_backpressure.png''))] [],
      Call ''fig'' ''savefig'' [VStr (path_join dir (T ''04_consumer_lag_backpressure.svg''))] [],
      Call ''plt'' ''close'' [VObject ''fig''] []]"

end
