(* ===== verification/Bench_Diagram.thy ===== *)
theory Bench_Diagram
  imports Py_Json
begin

text \<open>
  The SVG text \<open>scripts/generate_benchmark_charts.py\<close> writes, line by line and section by section.
\<close>

definition svg_definitions :: "pystr list" where
  \<open>svg_definitions =
     [T ''<svg xmlns="http://www.w3.org/2000/svg" viewBox="0 0 1100 560" width="100%" height="100%">'',
      T ''  <defs>'',
      T ''    <linearGradient id="blueGrad" x1="0%" y1="0%" x2="100%" y2="100%">'',
      T ''      <stop offset="0%" stop-color="#0284c7" />'',
      T ''      <stop offset="100%" stop-color="#0369a1" />'',
      T ''    </linearGradient>'',
      T ''    <linearGradient id="greenGrad" x1="0%" y1="0%" x2="100%" y2="100%">'',
      T ''      <stop offset="0%" stop-color="#059669" />'',
      T ''      <stop offset="100%" stop-color="#047857" />'',
      T ''    </linearGradient>'',
      T ''    <linearGradient id="purpleGrad" x1="0%" y1="0%" x2="100%" y2="100%">'',
      T ''      <stop offset="0%" stop-color="#7c3aed" />'',
      T ''      <stop offset="100%" stop-color="#6d28d9" />'',
      T ''    </linearGradient>'',
      T ''    <linearGradient id="cardGrad" x1="0%" y1="0%" x2="100%" y2="100%">'',
      T ''      <stop offset="0%" stop-color="#1e293b" />'',
      T ''      <stop offset="100%" stop-color="#0f172a" />'',
      T ''    </linearGradient>'',
      T ''    <filter id="shadow" x="-5%" y="-5%" width="110%" height="110%">'',
      T ''      <feDropShadow dx="0" dy="4" stdDeviation="6" flood-color="#000000" flood-opacity="0.4"/>'',
      T ''    </filter>'',
      T ''  </defs>'',
      []]\<close>

definition svg_background :: "pystr list" where
  \<open>svg_background =
     [T ''  <!-- Background -->'',
      T ''  <rect width="1100" height="560" fill="#0b0f19" rx="12" />'',
      T ''  '']\<close>

definition svg_title :: "pystr list" where
  \<open>svg_title =
     [T ''  <!-- Title Header -->'',
      T ''  <text x="550" y="42" fill="#f8fafc" font-family="'Segoe UI', sans-serif" font-size="22" '' @
         T ''font-weight="bold" text-anchor="middle">'',
      T ''    TransactFlow '' @ [8212] @ T '' High-Throughput CDC &amp; Distributed Architecture'',
      T ''  </text>'',
      T ''  <text x="550" y="66" fill="#94a3b8" font-family="'Segoe UI', sans-serif" font-size="13" '' @
         T ''text-anchor="middle">'',
      T ''    Sustained 1,000 req/sec Soak Test '' @ [8226] @ T '' Zero-Loss Ingestion '' @ [8226] @
         T '' Real-Time Dual Sinks'',
      T ''  </text>'',
      []]\<close>

definition svg_load_generator :: "pystr list" where
  \<open>svg_load_generator =
     [T ''  <!-- Stage 1: Client & Load Generator -->'',
      T ''  <g transform="translate(40, 110)" filter="url(#shadow)">'',
      T ''    <rect width="180" height="150" rx="10" fill="url(#cardGrad)" stroke="#38bdf8" '' @
         T ''stroke-width="1.5" />'',
      T ''    <text x="90" y="32" fill="#38bdf8" font-family="'Segoe UI', sans-serif" font-size="15" '' @
         T ''font-weight="bold" text-anchor="middle">Load Generator</text>'',
      T ''    <text x="90" y="52" fill="#94a3b8" font-family="'Segoe UI', sans-serif" font-size="11" '' @
         T ''text-anchor="middle">Multi-threaded (10-30 Workers)</text>'',
      T ''    <line x1="20" y1="65" x2="160" y2="65" stroke="#334155" />'',
      T ''    <text x="25" y="88" fill="#f8fafc" font-family="'Segoe UI', sans-serif" font-size="12">Target '' @
         T ''RPS: <tspan fill="#38bdf8" font-weight="bold">1,000</tspan></text>'',
      T ''    <text x="25" y="108" fill="#f8fafc" font-family="'Segoe UI', sans-serif" font-size="12">Method: '' @
         T ''<tspan fill="#fbbf24">POST / PATCH</tspan></text>'',
      T ''    <text x="25" y="128" fill="#f8fafc" font-family="'Segoe UI', sans-serif" font-size="12">HTTP '' @
         T ''201/200: <tspan fill="#34d399" font-weight="bold">100%</tspan></text>'',
      T ''  </g>'',
      []]\<close>

definition svg_arrow_client :: "pystr list" where
  \<open>svg_arrow_client =
     [T ''  <!-- Flow Arrow 1 -->'',
      T ''  <path d="M 220 185 L 265 185" stroke="#38bdf8" stroke-width="2.5" stroke-dasharray="6,4" />'',
      T ''  <polygon points="270,185 262,180 262,190" fill="#38bdf8" />'',
      T ''  <text x="245" y="172" fill="#38bdf8" font-family="'Segoe UI', sans-serif" font-size="10" '' @
         T ''font-weight="bold" text-anchor="middle">P95: 93ms</text>'',
      []]\<close>

definition svg_postgres :: "pystr list" where
  \<open>svg_postgres =
     [T ''  <!-- Stage 2: PostgreSQL WAL -->'',
      T ''  <g transform="translate(275, 110)" filter="url(#shadow)">'',
      T ''    <rect width="180" height="150" rx="10" fill="url(#cardGrad)" stroke="#0284c7" '' @
         T ''stroke-width="1.5" />'',
      T ''    <text x="90" y="32" fill="#38bdf8" font-family="'Segoe UI', sans-serif" font-size="15" '' @
         T ''font-weight="bold" text-anchor="middle">PostgreSQL 15</text>'',
      T ''    <text x="90" y="52" fill="#94a3b8" font-family="'Segoe UI', sans-serif" font-size="11" '' @
         T ''text-anchor="middle">Primary ACID Store</text>'',
      T ''    <line x1="20" y1="65" x2="160" y2="65" stroke="#334155" />'',
      T ''    <text x="25" y="88" fill="#f8fafc" font-family="'Segoe UI', sans-serif" font-size="12">WAL: '' @
         T ''<tspan fill="#34d399">logical</tspan></text>'',
      T ''    <text x="25" y="108" fill="#f8fafc" font-family="'Segoe UI', sans-serif" '' @
         T ''font-size="12">Isolation: <tspan fill="#f8fafc">Read Committed</tspan></text>'',
      T ''    <text x="25" y="128" fill="#f8fafc" font-family="'Segoe UI', sans-serif" font-size="12">Commit: '' @
         T ''<tspan fill="#38bdf8">&lt; 35ms avg</tspan></text>'',
      T ''  </g>'',
      []]\<close>

definition svg_arrow_capture :: "pystr list" where
  \<open>svg_arrow_capture =
     [T ''  <!-- Flow Arrow 2 (CDC capture) -->'',
      T ''  <path d="M 455 185 L 500 185" stroke="#fbbf24" stroke-width="2.5" />'',
      T ''  <polygon points="505,185 497,180 497,190" fill="#fbbf24" />'',
      T ''  <text x="480" y="172" fill="#fbbf24" font-family="'Segoe UI', sans-serif" font-size="10" '' @
         T ''font-weight="bold" text-anchor="middle">Debezium</text>'',
      []]\<close>

definition svg_kafka :: "pystr list" where
  \<open>svg_kafka =
     [T ''  <!-- Stage 3: Apache Kafka -->'',
      T ''  <g transform="translate(510, 95)" filter="url(#shadow)">'',
      T ''    <rect width="210" height="180" rx="10" fill="url(#cardGrad)" stroke="#fbbf24" '' @
         T ''stroke-width="1.5" />'',
      T ''    <text x="105" y="30" fill="#fbbf24" font-family="'Segoe UI', sans-serif" font-size="15" '' @
         T ''font-weight="bold" text-anchor="middle">Apache Kafka</text>'',
      T ''    <text x="105" y="48" fill="#94a3b8" font-family="'Segoe UI', sans-serif" font-size="11" '' @
         T ''text-anchor="middle">Event Streaming Spine</text>'',
      T ''    <line x1="20" y1="60" x2="190" y2="60" stroke="#334155" />'',
      T ''    <text x="25" y="82" fill="#f8fafc" font-family="'Segoe UI', sans-serif" font-size="12">Topic: '' @
         T ''<tspan fill="#fbbf24">orders.events</tspan></text>'',
      T ''    <text x="25" y="102" fill="#f8fafc" font-family="'Segoe UI', sans-serif" '' @
         T ''font-size="12">Serialization: <tspan fill="#38bdf8">Avro + Schema Reg</tspan></text>'',
      T ''    <text x="25" y="122" fill="#f8fafc" font-family="'Segoe UI', sans-serif" font-size="12">Logged '' @
         T ''Events: <tspan fill="#34d399" font-weight="bold">&gt; 216,000</tspan></text>'',
      T ''    <text x="25" y="142" fill="#f8fafc" font-family="'Segoe UI', sans-serif" font-size="12">DLQ '' @
         T ''Topic: <tspan fill="#34d399">0 unhandled</tspan></text>'',
      T ''    <text x="25" y="162" fill="#f8fafc" font-family="'Segoe UI', sans-serif" '' @
         T ''font-size="12">At-Least-Once: <tspan fill="#a855f7">Guaranteed</tspan></text>'',
      T ''  </g>'',
      []]\<close>

definition svg_branches :: "pystr list" where
  \<open>svg_branches =
     [T ''  <!-- Branches to Consumers -->'',
      T ''  <path d="M 720 150 L 800 120" stroke="#34d399" stroke-width="2.5" />'',
      T ''  <polygon points="805,118 795,115 798,125" fill="#34d399" />'',
      [],
      T ''  <path d="M 720 185 L 800 240" stroke="#a855f7" stroke-width="2.5" />'',
      T ''  <polygon points="805,243 798,235 795,245" fill="#a855f7" />'',
      [],
      T ''  <path d="M 720 220 L 800 360" stroke="#f43f5e" stroke-width="2.5" />'',
      T ''  <polygon points="805,364 797,356 795,366" fill="#f43f5e" />'',
      []]\<close>

definition svg_redis :: "pystr list" where
  \<open>svg_redis =
     [T ''  <!-- Sink 1: Redis C++ Consumer -->'',
      T ''  <g transform="translate(810, 70)" filter="url(#shadow)">'',
      T ''    <rect width="250" height="110" rx="10" fill="url(#cardGrad)" stroke="#34d399" '' @
         T ''stroke-width="1.5" />'',
      T ''    <text x="125" y="28" fill="#34d399" font-family="'Segoe UI', sans-serif" font-size="14" '' @
         T ''font-weight="bold" text-anchor="middle">RedisUpdater (C++)</text>'',
      T ''    <text x="20" y="52" fill="#f8fafc" font-family="'Segoe UI', sans-serif" font-size="12">Consumer '' @
         T ''Lag: <tspan fill="#34d399" font-weight="bold">0 msgs (Real-Time)</tspan></text>'',
      T ''    <text x="20" y="72" fill="#f8fafc" font-family="'Segoe UI', sans-serif" font-size="12">Atomic '' @
         T ''LSN Upsert: <tspan fill="#38bdf8">Lua Script (EVAL)</tspan></text>'',
      T ''    <text x="20" y="92" fill="#f8fafc" font-family="'Segoe UI', sans-serif" font-size="12">Sink '' @
         T ''Latency (P99): <tspan fill="#34d399" font-weight="bold">&lt; 1.5 ms</tspan></text>'',
      T ''  </g>'',
      []]\<close>

definition svg_elasticsearch :: "pystr list" where
  \<open>svg_elasticsearch =
     [T ''  <!-- Sink 2: Elasticsearch C++ Consumer -->'',
      T ''  <g transform="translate(810, 195)" filter="url(#shadow)">'',
      T ''    <rect width="250" height="110" rx="10" fill="url(#cardGrad)" stroke="#a855f7" '' @
         T ''stroke-width="1.5" />'',
      T ''    <text x="125" y="28" fill="#a855f7" font-family="'Segoe UI', sans-serif" font-size="14" '' @
         T ''font-weight="bold" text-anchor="middle">ESIndexer (C++)</text>'',
      T ''    <text x="20" y="52" fill="#f8fafc" font-family="'Segoe UI', sans-serif" font-size="12">Purpose: '' @
         T ''<tspan fill="#f8fafc">Full-Text Analytics Search</tspan></text>'',
      T ''    <text x="20" y="72" fill="#f8fafc" font-family="'Segoe UI', sans-serif" font-size="12">Batching '' @
         T ''&amp; Retries: <tspan fill="#a855f7">Exponential Backoff</tspan></text>'',
      T ''    <text x="20" y="92" fill="#f8fafc" font-family="'Segoe UI', sans-serif" font-size="12">Sink '' @
         T ''Latency (P50): <tspan fill="#fbbf24">11.8 ms</tspan></text>'',
      T ''  </g>'',
      []]\<close>

definition svg_notifier :: "pystr list" where
  \<open>svg_notifier =
     [T ''  <!-- Sink 3: Notifier C++ Consumer -->'',
      T ''  <g transform="translate(810, 320)" filter="url(#shadow)">'',
      T ''    <rect width="250" height="110" rx="10" fill="url(#cardGrad)" stroke="#f43f5e" '' @
         T ''stroke-width="1.5" />'',
      T ''    <text x="125" y="28" fill="#f43f5e" font-family="'Segoe UI', sans-serif" font-size="14" '' @
         T ''font-weight="bold" text-anchor="middle">Notifier Alert Engine (C++)</text>'',
      T ''    <text x="20" y="52" fill="#f8fafc" font-family="'Segoe UI', sans-serif" font-size="12">Consumer '' @
         T ''Lag: <tspan fill="#34d399" font-weight="bold">0 msgs</tspan></text>'',
      T ''    <text x="20" y="72" fill="#f8fafc" font-family="'Segoe UI', sans-serif" '' @
         T ''font-size="12">Deduplication: <tspan fill="#38bdf8">Redis SET NX (24h)</tspan></text>'',
      T ''    <text x="20" y="92" fill="#f8fafc" font-family="'Segoe UI', sans-serif" '' @
         T ''font-size="12">Processing Time: <tspan fill="#34d399">&lt; 0.5 ms</tspan></text>'',
      T ''  </g>'',
      []]\<close>

definition svg_resilience :: "pystr list" where
  \<open>svg_resilience =
     [T ''  <!-- Lower Panel: Observability & Resilience Architecture -->'',
      T ''  <g transform="translate(40, 445)" filter="url(#shadow)">'',
      T ''    <rect width="1020" height="90" rx="8" fill="#131d2e" stroke="#334155" />'',
      T ''    <text x="30" y="28" fill="#38bdf8" font-family="'Segoe UI', sans-serif" font-size="13" '' @
         T ''font-weight="bold">Observability &amp; Self-Healing Infrastructure</text>'',
      T ''    '',
      T ''    <circle cx="45" cy="55" r="5" fill="#34d399" />'',
      T ''    <text x="60" y="59" fill="#f8fafc" font-family="'Segoe UI', sans-serif" font-size="11">Logstash '' @
         T ''Ingestion: JSON TCP stream flattener &amp; index router</text>'',
      T ''    '',
      T ''    <circle cx="450" cy="55" r="5" fill="#38bdf8" />'',
      T ''    <text x="465" y="59" fill="#f8fafc" font-family="'Segoe UI', sans-serif" font-size="11">Dead '' @
         T ''Letter Queue: Non-blocking poisonous payload isolation</text>'',
      T ''    '',
      T ''    <circle cx="820" cy="55" r="5" fill="#a855f7" />'',
      T ''    <text x="835" y="59" fill="#f8fafc" font-family="'Segoe UI', sans-serif" font-size="11">Kibana '' @
         T ''Telemetry: Live percentile tracking</text>'',
      T ''  </g>'',
      T ''</svg>'']\<close>

definition svg_lines :: "pystr list" where
  "svg_lines =
     svg_definitions @ svg_background @ svg_title @ svg_load_generator @
     svg_arrow_client @ svg_postgres @ svg_arrow_capture @ svg_kafka @
     svg_branches @ svg_redis @ svg_elasticsearch @ svg_notifier @
     svg_resilience"

definition svg_content :: pystr where
  "svg_content = concat (map (\<lambda>l. l @ [10]) svg_lines)"

end
