(* ===== verification/Bench_Charts.thy ===== *)
theory Bench_Charts
  imports Bench_Figures Bench_Diagram
begin

text \<open>
  \<open>scripts/generate_benchmark_charts.py\<close>: the five charts and \<open>main\<close>, with the queries they send,
  the numbers they take from the answers and the exceptions that stop them.
\<close>

section \<open>Throughput\<close>

definition event_query :: "string \<Rightarrow> (pystr \<times> pyval) list \<Rightarrow> pyval" where
  "event_query event aggs =
     PDict ([(T ''size'', PInt 0),
             (T ''query'', PDict [(T ''term'', PDict [(T ''event.keyword'', S event)])])] @ aggs)"

text \<open>A value as the key of a dict: containers are not hashable; equal numbers are one key.\<close>

definition hash_key :: "pyval \<Rightarrow> pyval py" where
  "hash_key v =
     (case v of
        PList _ \<Rightarrow> Inl TypeFailed
      | PDict _ \<Rightarrow> Inl TypeFailed
      | PBool b \<Rightarrow> Inr (PInt (if b then 1 else 0))
      | PFloat m k \<Rightarrow> Inr (if m mod 10 ^ k = 0 then PInt (m div 10 ^ k) else v)
      | _ \<Rightarrow> Inr v)"

definition count_entry :: "pyval \<Rightarrow> (pyval \<times> pyval) py" where
  "count_entry b =
     and_then (subscript (T ''key_as_string'') b) (\<lambda>k.
     and_then (subscript (T ''doc_count'') b) (\<lambda>n.
     and_then (hash_key k) (\<lambda>h. Inr (h, n))))"

text \<open>\<open>{b["key_as_string"]: b["doc_count"] for b in ...}\<close>\<close>

definition count_table :: "pyval \<Rightarrow> (pyval \<times> pyval) list py" where
  "count_table res =
     and_then (subscripts bucket_path res) (\<lambda>bs.
     and_then (py_iter bs) (\<lambda>xs.
     and_then (traverse count_entry xs) (\<lambda>ps. Inr (dict_of ps))))"

text \<open>\<open>cnt > 100\<close>\<close>

definition active :: "pyval \<Rightarrow> bool py" where
  "active n =
     (case n of
        PInt i \<Rightarrow> Inr (100 < i)
      | PBool b \<Rightarrow> Inr False
      | PFloat m k \<Rightarrow> Inr (100 < double_of_rat (of_int m / 10 ^ k))
      | PSpecial c \<Rightarrow> Inr (c = ''Infinity'')
      | _ \<Rightarrow> Inl TypeFailed)"

text \<open>\<open>table.get(t, 0) / 10.0\<close>\<close>

definition rate_at :: "(pyval \<times> pyval) list \<Rightarrow> pyval \<Rightarrow> py_float py" where
  "rate_at table t =
     and_then (hash_key t) (\<lambda>h. over_ten (case map_of table h of None \<Rightarrow> PInt 0 | Some n \<Rightarrow> n))"

type_synonym rates = "py_float \<times> py_float \<times> py_float"

text \<open>One turn of the loop over the buckets: the rates of an active interval, nothing of another.\<close>

definition bucket_rates ::
    "(pyval \<times> pyval) list \<Rightarrow> (pyval \<times> pyval) list \<Rightarrow> pyval \<Rightarrow> rates option py" where
  "bucket_rates redis es b =
     and_then (subscript (T ''doc_count'') b) (\<lambda>cnt.
     and_then (subscript (T ''key_as_string'') b) (\<lambda>t.
     and_then (active cnt) (\<lambda>on.
       if on then
         and_then (over_ten cnt) (\<lambda>a.
         and_then (rate_at redis t) (\<lambda>r.
         and_then (rate_at es t) (\<lambda>e. Inr (Some (a, r, e)))))
       else Inr None)))"

definition active_rates ::
    "(pyval \<times> pyval) list \<Rightarrow> (pyval \<times> pyval) list \<Rightarrow> pyval \<Rightarrow> rates list py" where
  "active_rates redis es buckets =
     and_then (py_iter buckets) (\<lambda>bs.
     and_then (traverse (bucket_rates redis es) bs) (\<lambda>rs. Inr (List.map_filter id rs)))"

text \<open>\<open>times.append(len(times) * 10)\<close>, once for every interval taken\<close>

definition elapsed :: "rates list \<Rightarrow> int list" where
  "elapsed rs = fold (\<lambda>r times. times @ [int (length times) * 10]) rs []"

definition draw_throughput :: "pystr \<Rightarrow> rates list \<Rightarrow> plot_call list" where
  "draw_throughput dir rs =
     throughput_calls dir (elapsed rs) (map fst rs) (map (fst \<circ> snd) rs) (map (snd \<circ> snd) rs)"

definition saved_line :: "pystr \<Rightarrow> string \<Rightarrow> pystr" where
  "saved_line dir name =
     T ''  Saved '' @ path_join dir (T (name @ ''.png'')) @ T '' and '' @ path_join dir (T (name @ ''.svg''))"

definition chart_throughput_timeline :: "plot_lib \<Rightarrow> 'k http \<Rightarrow> pystr \<Rightarrow> ('k, unit) bench_action" where
  "chart_throughput_timeline lib srv dir =
     bindb (say (T ''Generating Chart 1: Pipeline Throughput Timeline...'')) (\<lambda>_.
     bindb (ask srv (T ''cdc-api-logs-*'') (event_query ''request_sent'' rate_aggregation)) (\<lambda>res.
     bindb (of_py (subscripts bucket_path res)) (\<lambda>buckets.
     bindb (ask srv (T ''cdc-consumer-logs-*'') (event_query ''redis_updated'' rate_aggregation)) (\<lambda>res_redis.
     bindb (of_py (count_table res_redis)) (\<lambda>redis.
     bindb (ask srv (T ''cdc-consumer-logs-*'') (event_query ''es_indexed'' rate_aggregation)) (\<lambda>res_es.
     bindb (of_py (count_table res_es)) (\<lambda>es.
     bindb (of_py (active_rates redis es buckets)) (\<lambda>rs.
       if rs = [] then say (T ''No active buckets found for throughput.'')
       else
         bindb (draw_all lib (draw_throughput dir rs)) (\<lambda>_.
           say (saved_line dir ''01_pipeline_throughput''))))))))))"

section \<open>Latency percentiles\<close>

definition percentile_aggregation :: "string \<Rightarrow> (pystr \<times> pyval) list" where
  "percentile_aggregation field =
     [(T ''aggs'', PDict [(T ''p'', PDict [(T ''percentiles'',
        PDict [(T ''field'', S field), (T ''percents'', PList [PInt 50, PInt 90, PInt 95, PInt 99])])])])]"

definition ask_percentiles ::
    "'k http \<Rightarrow> string \<Rightarrow> string \<Rightarrow> string \<Rightarrow> ('k, pyval) bench_action" where
  "ask_percentiles srv index event field =
     bindb (ask srv (T index) (event_query event (percentile_aggregation field))) (\<lambda>res.
       of_py (subscripts [T ''aggregations'', T ''p'', T ''values''] res))"

definition four_values :: "pyval \<Rightarrow> pyval list py" where
  "four_values p = traverse (\<lambda>k. subscript (T k) p) [''50.0'', ''90.0'', ''95.0'', ''99.0'']"

definition chart_latency_percentiles :: "plot_lib \<Rightarrow> 'k http \<Rightarrow> pystr \<Rightarrow> ('k, unit) bench_action" where
  "chart_latency_percentiles lib srv dir =
     bindb (say (T ''Generating Chart 2: Latency Percentiles...'')) (\<lambda>_.
     bindb (ask_percentiles srv ''cdc-api-logs-*'' ''request_sent'' ''latency_ms'') (\<lambda>api_p.
     bindb (ask_percentiles srv ''cdc-consumer-logs-*'' ''redis_updated'' ''sink_latency_ms'') (\<lambda>redis_p.
     bindb (ask_percentiles srv ''cdc-consumer-logs-*'' ''es_indexed'' ''sink_latency_ms'') (\<lambda>es_p.
     bindb (ask_percentiles srv ''cdc-consumer-logs-*'' ''record_processed'' ''processing_latency_ms'') (\<lambda>proc_p.
     bindb (of_py (four_values api_p)) (\<lambda>api.
     bindb (of_py (four_values redis_p)) (\<lambda>redis.
     bindb (of_py (four_values es_p)) (\<lambda>es.
     bindb (of_py (four_values proc_p)) (\<lambda>proc.
     bindb (draw_all lib (latency_calls (bars lib) dir api redis es proc)) (\<lambda>_.
       say (saved_line dir ''02_latency_percentiles'')))))))))))"

section \<open>The charts without a query\<close>

definition chart_dual_store_comparison :: "plot_lib \<Rightarrow> pystr \<Rightarrow> ('k, unit) bench_action" where
  "chart_dual_store_comparison lib dir =
     bindb (say (T ''Generating Chart 3: Dual Storage Trade-Off...'')) (\<lambda>_.
     bindb (draw_all lib (dual_store_calls (bars lib) dir)) (\<lambda>_.
       say (saved_line dir ''03_dual_store_performance'')))"

definition chart_consumer_lag :: "plot_lib \<Rightarrow> pystr \<Rightarrow> ('k, unit) bench_action" where
  "chart_consumer_lag lib dir =
     bindb (say (T ''Generating Chart 4: Consumer Lag & Backpressure...'')) (\<lambda>_.
     bindb (draw_all lib (consumer_lag_calls dir)) (\<lambda>_.
       say (saved_line dir ''04_consumer_lag_backpressure'')))"

definition svg_path :: "pystr \<Rightarrow> pystr" where
  "svg_path dir = path_join dir (T ''05_architecture_telemetry_flow.svg'')"

definition generate_svg_architecture_diagram :: "plot_lib \<Rightarrow> pystr \<Rightarrow> ('k, unit) bench_action" where
  "generate_svg_architecture_diagram lib dir =
     bindb (say (T ''Generating Chart 5: System Architecture & Telemetry Flow...'')) (\<lambda>_.
     bindb (draw lib (WriteText (svg_path dir) svg_content)) (\<lambda>_.
       say (T ''  Saved '' @ svg_path dir)))"

section \<open>The script\<close>

definition charts_main :: "plot_lib \<Rightarrow> 'k http \<Rightarrow> pystr \<Rightarrow> ('k, unit) bench_action" where
  "charts_main lib srv dir =
     bindb (say (T ''Generating publication-quality benchmark graphics in '' @ dir @ T ''...'')) (\<lambda>_.
     bindb (chart_throughput_timeline lib srv dir) (\<lambda>_.
     bindb (chart_latency_percentiles lib srv dir) (\<lambda>_.
     bindb (chart_dual_store_comparison lib dir) (\<lambda>_.
     bindb (chart_consumer_lag lib dir) (\<lambda>_.
     bindb (generate_svg_architecture_diagram lib dir) (\<lambda>_.
       say (T ''[DONE] All 5 benchmark visualizations successfully generated!'')))))))"

text \<open>The module: importing it configures matplotlib and creates the output directory.\<close>

definition output_dir :: "pystr \<Rightarrow> pystr" where
  "output_dir file = path_join (path_join (dirname (dirname file)) (T ''docs'')) (T ''benchmarks'')"

definition charts_script :: "plot_lib \<Rightarrow> 'k http \<Rightarrow> pystr \<Rightarrow> ('k, unit) bench_action" where
  "charts_script lib srv file =
     bindb (draw_all lib (setup_calls (output_dir file))) (\<lambda>_. charts_main lib srv (output_dir file))"

end
