(* ===== verification/Bench_Properties.thy ===== *)
theory Bench_Properties
  imports Bench_Charts "HOL-Library.Sublist"
begin

text \<open>
  What the benchmark charts show: the series of the throughput chart, its time axis and its peak, the
  labels of the latency chart, and the files a run leaves.
\<close>

section \<open>Histograms\<close>

text \<open>The count a table of buckets has for an interval: its last entry, 0 without one.\<close>

definition count_in :: "(pystr \<times> nat) list \<Rightarrow> pystr \<Rightarrow> nat" where
  "count_in ps t = (case map_of (rev ps) t of None \<Rightarrow> 0 | Some n \<Rightarrow> n)"

definition countable_hist :: "(pystr \<times> nat) list \<Rightarrow> bool" where
  "countable_hist ps \<longleftrightarrow> (\<forall>p \<in> set ps. snd p < 2 ^ 52)"

definition table_of :: "(pystr \<times> nat) list \<Rightarrow> (pyval \<times> pyval) list" where
  "table_of ps = dict_of (map (\<lambda>p. (PStr (fst p), PInt (int (snd p)))) ps)"

lemma count_table_histogram:
  assumes "is_histogram v ps"
  shows "count_table v = Inr (table_of ps)"
proof -
  obtain bs where bs: "subscripts bucket_path v = Inr (PList bs)" "list_all2 is_bucket bs ps"
    using assms by (rule is_histogramE)
  have "traverse count_entry bs = Inr (map (\<lambda>p. (PStr (fst p), PInt (int (snd p)))) ps)"
    by (rule traverse_buckets [OF bs(2)]) (simp add: count_entry_def hash_key_def is_bucketD)
  then show ?thesis by (simp add: count_table_def bs(1) table_of_def)
qed

lemma table_of_lookup: "map_of (table_of ps) (PStr t) = map_option (\<lambda>n. PInt (int n)) (map_of (rev ps) t)"
proof -
  have "map_of (map (\<lambda>p. (PStr (fst p), PInt (int (snd p)))) qs) (PStr t)
      = map_option (\<lambda>n. PInt (int n)) (map_of qs t)" for qs :: "(pystr \<times> nat) list"
    by (induction qs) auto
  from this [of "rev ps"] show ?thesis by (simp add: table_of_def dict_of_map_of rev_map)
qed

lemma rate_at_table:
  assumes "countable_hist ps"
  shows "rate_at (table_of ps) (PStr t) = Inr (Finite (tenth (int (count_in ps t))))"
proof -
  have "count_in ps t < 2 ^ 52"
    using assms by (fastforce simp: count_in_def countable_hist_def dest: map_of_SomeD split: option.splits)
  from over_ten_count [OF this] show ?thesis
    by (auto simp: rate_at_def hash_key_def table_of_lookup count_in_def split: option.splits)
qed

definition rates_of :: "(pystr \<times> nat) list \<Rightarrow> (pystr \<times> nat) list \<Rightarrow> (pystr \<times> nat) list \<Rightarrow> rates list" where
  "rates_of api redis es =
     map (\<lambda>(t, n). (Finite (tenth (int n)), Finite (tenth (int (count_in redis t))), Finite (tenth (int (count_in es t)))))
       (filter (\<lambda>(t, n). 100 < n) api)"

lemma active_rates_histogram:
  assumes "countable_hist api" "countable_hist redis" "countable_hist es" "list_all2 is_bucket bs api"
  shows "active_rates (table_of redis) (table_of es) (PList bs) = Inr (rates_of api redis es)"
proof -
  have "traverse (bucket_rates (table_of redis) (table_of es)) bs = Inr (map (\<lambda>(t, n).
      if 100 < n then Some (Finite (tenth (int n)), Finite (tenth (int (count_in redis t))), Finite (tenth (int (count_in es t))))
      else None) api)"
    using assms(1)
    by (intro traverse_buckets [OF assms(4)])
      (auto simp: bucket_rates_def active_def is_bucketD countable_hist_def over_ten_count
        rate_at_table [OF assms(2)] rate_at_table [OF assms(3)])
  moreover have "List.map_filter id (map (\<lambda>(t, n). if 100 < n then Some (f t n) else None) api)
      = map (\<lambda>(t, n). f t n) (filter (\<lambda>(t, n). 100 < n) api)" for f :: "pystr \<Rightarrow> nat \<Rightarrow> rates"
    by (induction api) (auto simp: List.map_filter_simps)
  ultimately show ?thesis by (simp add: active_rates_def rates_of_def)
qed

section \<open>Throughput\<close>

abbreviation api_search :: request where
  "api_search \<equiv> search_request (T ''cdc-api-logs-*'') (event_query ''request_sent'' rate_aggregation)"
abbreviation sink_search :: "string \<Rightarrow> request" where
  "sink_search event \<equiv> search_request (T ''cdc-consumer-logs-*'') (event_query event rate_aggregation)"

lemma ask_answered:
  assumes "srv (search_request index query) (peer (net s)) = (Answer st (Some body), k)" "loads body = Some v"
  shows "ask srv index query s = (Inr v, s\<lparr>net := (net s)\<lparr>peer := k,
    sent := sent (net s) @ [(search_request index query, Answer st (Some body))]\<rparr>\<rparr>)"
  using assms by (simp add: ask_def query_es_def urlopen_def answer_value_def)

text \<open>
  The three searches of the chart, answered with histograms: a body that reads as JSON and has the
  counts where the script looks for them. The value is the state of the server afterwards.
\<close>

definition answered :: "'k http \<Rightarrow> request \<Rightarrow> (pystr \<times> nat) list \<Rightarrow> 'k \<Rightarrow> 'k option" where
  "answered srv req ps k =
     (case srv req k of
        (Answer st (Some body), k') \<Rightarrow>
          (case loads body of Some v \<Rightarrow> if is_histogram v ps then Some k' else None | None \<Rightarrow> None)
      | _ \<Rightarrow> None)"

definition histograms_answered ::
    "'k http \<Rightarrow> (pystr \<times> nat) list \<Rightarrow> (pystr \<times> nat) list \<Rightarrow> (pystr \<times> nat) list \<Rightarrow> 'k \<Rightarrow> bool" where
  "histograms_answered srv api redis es k \<longleftrightarrow>
     (case answered srv api_search api k of
        None \<Rightarrow> False
      | Some k1 \<Rightarrow>
          (case answered srv (sink_search ''redis_updated'') redis k1 of
             None \<Rightarrow> False
           | Some k2 \<Rightarrow> answered srv (sink_search ''es_indexed'') es k2 \<noteq> None))"

lemma ask_histogram:
  assumes "answered srv (search_request index query) ps (peer (net s)) = Some k"
  obtains v s' where "ask srv index query s = (Inr v, s')" "is_histogram v ps" "peer (net s') = k" "drawn s' = drawn s"
proof -
  obtain st body v where "srv (search_request index query) (peer (net s)) = (Answer st (Some body), k)"
      "loads body = Some v" "is_histogram v ps"
    using assms by (auto simp: answered_def split: prod.splits http_outcome.splits option.splits if_splits)
  then show thesis using that ask_answered by fastforce
qed

lemma throughput_drawn:
  assumes "willing lib" "countable_hist api" "countable_hist redis" "countable_hist es"
    and "histograms_answered srv api redis es (peer (net s))" "chart_throughput_timeline lib srv dir s = (res, s')"
  shows "res = Inr () \<and> drawn s' = drawn s @
    (if rates_of api redis es = [] then [] else draw_throughput dir (rates_of api redis es))"
proof -
  obtain k1 k2 k3 where k: "answered srv api_search api (peer (net s)) = Some k1"
      "answered srv (sink_search ''redis_updated'') redis k1 = Some k2" "answered srv (sink_search ''es_indexed'') es k2 = Some k3"
    using assms(5) by (auto simp: histograms_answered_def split: option.splits)
  define s1 where "s1 = snd (say (T ''Generating Chart 1: Pipeline Throughput Timeline...'') s)"
  have s1: "say (T ''Generating Chart 1: Pipeline Throughput Timeline...'') s = (Inr (), s1)"
      "peer (net s1) = peer (net s)" "drawn s1 = drawn s"
    by (simp_all add: s1_def say_def)
  obtain v2 s2 where s2: "ask srv (T ''cdc-api-logs-*'') (event_query ''request_sent'' rate_aggregation) s1 = (Inr v2, s2)"
      "is_histogram v2 api" "peer (net s2) = k1" "drawn s2 = drawn s1"
    by (rule ask_histogram [OF k(1) [folded s1(2)]])
  obtain v3 s3 where s3: "ask srv (T ''cdc-consumer-logs-*'') (event_query ''redis_updated'' rate_aggregation) s2 = (Inr v3, s3)"
      "is_histogram v3 redis" "peer (net s3) = k2" "drawn s3 = drawn s2"
    by (rule ask_histogram [OF k(2) [folded s2(3)]])
  obtain v4 s4 where s4: "ask srv (T ''cdc-consumer-logs-*'') (event_query ''es_indexed'' rate_aggregation) s3 = (Inr v4, s4)"
      "is_histogram v4 es" "peer (net s4) = k3" "drawn s4 = drawn s3"
    by (rule ask_histogram [OF k(3) [folded s3(3)]])
  obtain bs where bs: "subscripts bucket_path v2 = Inr (PList bs)" "list_all2 is_bucket bs api"
    using s2(2) by (rule is_histogramE)
  have "chart_throughput_timeline lib srv dir s =
      (if rates_of api redis es = [] then say (T ''No active buckets found for throughput.'') s4
       else bindb (draw_all lib (draw_throughput dir (rates_of api redis es)))
              (\<lambda>_. say (saved_line dir ''01_pipeline_throughput'')) s4)"
    unfolding chart_throughput_timeline_def
    by (simp add: bindb_def s1(1) s2(1) s3(1) s4(1) of_py_def bs(1) count_table_histogram [OF s3(2)]
        count_table_histogram [OF s4(2)] active_rates_histogram [OF assms(2-4) bs(2)])
  then show ?thesis
    using assms(6) s4(4) s3(4) s2(4) s1(3)
    by (auto simp: bindb_def draw_all_willing [OF assms(1)] say_def split: if_splits)
qed

text \<open>
  C34. The throughput chart. When Elasticsearch answers the three searches with histograms, with any
  other members beside the counts and each count below \<open>2 ^ 52\<close>, the chart has one point for every interval
  of the API with more than 100 requests, in order: the rate of the API and, looked up under the same
  interval, those of the two sinks (0 where a sink has none); without such an interval nothing is drawn.
  The library is one that refuses no call.
\<close>

theorem throughput_chart:
  assumes "willing lib" "countable_hist api" "countable_hist redis" "countable_hist es"
    and "histograms_answered srv api redis es (peer (net s))"
    and "chart_throughput_timeline lib srv dir s = (res, s')"
  shows "res = Inr () \<and> drawn s' = drawn s @
    (if rates_of api redis es = [] then [] else draw_throughput dir (rates_of api redis es))"
  using assms by (rule throughput_drawn)

text \<open>A server that answers with the values of a list, one after the other; a library that draws everything.\<close>

definition serving :: "pyval list http" where
  "serving req vs = (case vs of [] \<Rightarrow> (NoConnection [], []) | v # rest \<Rightarrow> (Answer 200 (Some (dumps v)), rest))"

definition plain_lib :: plot_lib where
  "plain_lib = \<lparr>refuses = (\<lambda>_ _. None), bars = (\<lambda>_. [])\<rparr>"

definition bench_start :: "pyval list \<Rightarrow> pyval list bench" where
  "bench_start vs = \<lparr>net = \<lparr>peer = vs, sent = [], printed = []\<rparr>, drawn = []\<rparr>"

definition busy :: "(pystr \<times> nat) list" where
  "busy = [(T ''10:00:00'', 1000), (T ''10:00:10'', 40), (T ''10:00:20'', 1500)]"

definition lagging :: "(pystr \<times> nat) list" where
  "lagging = [(T ''10:00:00'', 900)]"

lemma samples_fine [simp]:
  "willing plain_lib" "countable_hist busy" "countable_hist lagging"
  "wf_val (histogram busy)" "wf_val (histogram lagging)"
  by (simp_all add: willing_def plain_lib_def countable_hist_def busy_def lagging_def wf_histogram)

lemma rates_of_samples:
  "rates_of busy busy lagging =
     [(Finite (tenth 1000), Finite (tenth 1000), Finite (tenth 900)),
      (Finite (tenth 1500), Finite (tenth 1500), Finite (tenth 0))]"
  by (simp add: rates_of_def busy_def lagging_def count_in_def ascii_Cons)

lemma answered_sample:
  "\<forall>p \<in> set ps. list_all scalar (fst p) \<Longrightarrow> answered serving req ps (histogram ps # vs) = Some vs"
  by (simp add: answered_def serving_def loads_dumps wf_histogram)

lemma samples_answered:
  "histograms_answered serving busy busy lagging (peer (net (bench_start [histogram busy, histogram busy, histogram lagging])))"
proof -
  have "\<forall>p \<in> set busy. list_all scalar (fst p)" "\<forall>p \<in> set lagging. list_all scalar (fst p)"
    by (simp_all add: busy_def lagging_def)
  then show ?thesis by (simp add: histograms_answered_def bench_start_def answered_sample)
qed

theorem throughput_chart_witness:
  "let s' = snd (chart_throughput_timeline plain_lib serving (T ''out'')
                   (bench_start [histogram busy, histogram busy, histogram lagging])) in
   drawn s' = draw_throughput (T ''out'')
     [(Finite (tenth 1000), Finite (tenth 1000), Finite (tenth 900)),
      (Finite (tenth 1500), Finite (tenth 1500), Finite (tenth 0))]"
proof -
  let ?s = "bench_start [histogram busy, histogram busy, histogram lagging]"
  have served: "histograms_answered serving busy busy lagging (peer (net ?s))"
    by (rule samples_answered)
  have start: "drawn ?s = []" by (simp add: bench_start_def)
  have "drawn (snd (chart_throughput_timeline plain_lib serving (T ''out'') ?s))
      = drawn ?s @ (if rates_of busy busy lagging = [] then [] else draw_throughput (T ''out'') (rates_of busy busy lagging))"
    using throughput_chart [OF _ _ _ _ served prod.collapse [symmetric], of plain_lib "T ''out''"] by simp
  then show ?thesis by (simp add: rates_of_samples start)
qed

text \<open>The time axis: ten seconds more for every point.\<close>

lemma elapsed_steps: "elapsed rs = map (\<lambda>i. int i * 10) [0..<length rs]"
proof -
  have "fold (\<lambda>r times. times @ [int (length times) * 10]) rs (map (\<lambda>i. int i * 10) [0..<m])
      = map (\<lambda>i. int i * 10) [0..<m + length rs]" for m
  proof (induction rs arbitrary: m)
    case (Cons r rs)
    from Cons.IH [of "Suc m"] show ?case by simp
  qed simp
  from this [of 0] show ?thesis by (simp add: elapsed_def)
qed

text \<open>The counts of the active intervals, without their times.\<close>

definition active_counts :: "(pystr \<times> nat) list \<Rightarrow> (pystr \<times> nat) list \<Rightarrow> (pystr \<times> nat) list \<Rightarrow> (nat \<times> nat \<times> nat) list" where
  "active_counts api redis es = map (\<lambda>(t, n). (n, count_in redis t, count_in es t)) (filter (\<lambda>(t, n). 100 < n) api)"

lemma rates_of_counts:
  "rates_of api redis es =
     map (\<lambda>(n, r, e). (Finite (tenth (int n)), Finite (tenth (int r)), Finite (tenth (int e)))) (active_counts api redis es)"
  by (simp add: rates_of_def active_counts_def case_prod_beta)

text \<open>
  C37. The time axis is not time. Take two runs of the chart over histograms in which the intervals with more
  than 100 requests have, in order, the same counts of requests and of both sinks, at whatever times they are,
  and with whatever intervals of fewer requests, or how many, before, between and behind them. They draw
  the same chart: a pause in the load does not show. The points of the line of the API stand at 0, 10, 20 and
  so on, one for each of these intervals.
\<close>

theorem idle_intervals_vanish:
  assumes "willing lib" "countable_hist api1" "countable_hist redis1" "countable_hist es1"
    and "countable_hist api2" "countable_hist redis2" "countable_hist es2"
    and "histograms_answered srv1 api1 redis1 es1 (peer (net s1))" "histograms_answered srv2 api2 redis2 es2 (peer (net s2))"
    and "active_counts api1 redis1 es1 = active_counts api2 redis2 es2"
    and "chart_throughput_timeline lib srv1 dir s1 = (res1, s1')" "chart_throughput_timeline lib srv2 dir s2 = (res2, s2')"
  shows "res1 = res2 \<and> (\<exists>calls. drawn s1' = drawn s1 @ calls \<and> drawn s2' = drawn s2 @ calls \<and>
    (if active_counts api1 redis1 es1 = [] then calls = []
     else \<exists>api_rates style. calls ! 1 = Call ''ax'' ''plot''
       [VList (map (\<lambda>i. VInt (int i * 10)) [0..<length (active_counts api1 redis1 es1)]), VList api_rates] style))"
proof -
  let ?rs = "rates_of api1 redis1 es1"
  let ?calls = "if ?rs = [] then [] else draw_throughput dir ?rs"
  have same: "rates_of api2 redis2 es2 = ?rs" by (simp only: rates_of_counts assms(10))
  have 1: "res1 = Inr () \<and> drawn s1' = drawn s1 @ ?calls"
    by (rule throughput_drawn [OF assms(1-4,8,11)])
  have 2: "res2 = Inr () \<and> drawn s2' = drawn s2 @ ?calls"
    using throughput_drawn [OF assms(1,5-7,9,12)] by (simp only: same)
  have axis: "draw_throughput dir ?rs ! 1 = Call ''ax'' ''plot''
      [VList (map (\<lambda>i. VInt (int i * 10)) [0..<length (active_counts api1 redis1 es1)]), VList (map VFloat (map fst ?rs))]
      [(''color'', VStr accent_blue), (''linewidth'', lit 25 1),
       (''label'', VStr (T ''API Ingestion Throughput (req/sec)'')), (''alpha'', lit 95 2)]"
    by (simp add: draw_throughput_def throughput_calls_def Let_def elapsed_steps rates_of_counts comp_def)
  have empty: "?rs = [] \<longleftrightarrow> active_counts api1 redis1 es1 = []" by (simp add: rates_of_counts)
  from 1 2 axis show ?thesis
    by (intro conjI exI [of _ ?calls]) (auto simp: empty)
qed

text \<open>The load of the sample with a pause of twelve hours before its last interval.\<close>

definition paused :: "(pystr \<times> nat) list" where
  "paused = [(T ''10:00:00'', 1000), (T ''10:00:10'', 40), (T ''10:00:20'', 0), (T ''10:00:30'', 3), (T ''22:00:00'', 1500)]"

theorem idle_intervals_vanish_witness:
  "drawn (snd (chart_throughput_timeline plain_lib serving [] (bench_start [histogram busy, histogram busy, histogram lagging])))
     = drawn (snd (chart_throughput_timeline plain_lib serving [] (bench_start [histogram paused, histogram paused, histogram lagging])))"
proof -
  let ?s1 = "bench_start [histogram busy, histogram busy, histogram lagging]"
    and ?s2 = "bench_start [histogram paused, histogram paused, histogram lagging]"
  have "\<forall>p \<in> set lagging. list_all scalar (fst p)" "\<forall>p \<in> set paused. list_all scalar (fst p)"
    by (simp_all add: lagging_def paused_def)
  then have "histograms_answered serving paused paused lagging (peer (net ?s2))"
    by (simp add: histograms_answered_def bench_start_def answered_sample)
  moreover have "countable_hist paused" by (simp add: countable_hist_def paused_def)
  moreover have "active_counts busy busy lagging = active_counts paused paused lagging"
    by (simp add: active_counts_def paused_def busy_def lagging_def count_in_def ascii_Cons)
  ultimately have "\<exists>calls. drawn (snd (chart_throughput_timeline plain_lib serving [] ?s1)) = drawn ?s1 @ calls
      \<and> drawn (snd (chart_throughput_timeline plain_lib serving [] ?s2)) = drawn ?s2 @ calls"
    using idle_intervals_vanish [OF _ _ _ _ _ _ _ samples_answered _ _ prod.collapse [symmetric] prod.collapse [symmetric],
        of plain_lib paused paused lagging serving ?s2 "[]"] by fastforce
  then show ?thesis by (auto simp: bench_start_def)
qed

section \<open>The peak\<close>

definition finite_float :: "py_float \<Rightarrow> bool" where
  "finite_float x \<longleftrightarrow> (case x of Finite _ \<Rightarrow> True | _ \<Rightarrow> False)"

definition first_greatest :: "py_float list \<Rightarrow> nat \<Rightarrow> bool" where
  "first_greatest xs k \<longleftrightarrow>
     k < length xs \<and> (\<forall>i < length xs. float_le (xs ! i) (xs ! k)) \<and> (\<forall>i < k. \<not> float_le (xs ! k) (xs ! i))"

lemma finite_le:
  "finite_float x \<Longrightarrow> float_le x x"
  "finite_float x \<Longrightarrow> finite_float y \<Longrightarrow> \<not> float_le y x \<Longrightarrow> float_le x y"
  "finite_float x \<Longrightarrow> finite_float y \<Longrightarrow> finite_float z \<Longrightarrow> float_le x y \<Longrightarrow> float_le y z \<Longrightarrow> float_le x z"
  by (auto simp: finite_float_def split: py_float.splits)

lemma first_greatest_snoc:
  assumes "first_greatest ys k" "list_all finite_float (ys @ [x])"
  shows "first_greatest (ys @ [x]) (if float_le x (ys ! k) then k else length ys)"
proof -
  have k: "k < length ys" using assms(1) by (simp add: first_greatest_def)
  have fin: "finite_float x" "i < length ys \<Longrightarrow> finite_float (ys ! i)" for i
    using assms(2) by (auto simp: list_all_iff)
  show ?thesis
  proof (cases "float_le x (ys ! k)")
    case True
    with assms(1) k show ?thesis by (auto simp: first_greatest_def nth_append less_Suc_eq)
  next
    case False
    have "float_le (ys ! k) x" using finite_le(2) [OF fin(2) [OF k] fin(1) False] .
    then have below: "float_le (ys ! i) x" if "i < length ys" for i
      using finite_le(3) [OF fin(2) [OF that] fin(2) [OF k] fin(1)] assms(1) that by (simp add: first_greatest_def)
    moreover have "\<not> float_le x (ys ! i)" if "i < length ys" for i
      using finite_le(3) [OF fin(1) fin(2) [OF that] fin(2) [OF k]] False assms(1) that by (auto simp: first_greatest_def)
    ultimately show ?thesis
      using False finite_le(1) [OF fin(1)] by (auto simp: first_greatest_def nth_append less_Suc_eq)
  qed
qed

lemma argmax_from_greatest:
  "first_greatest ys k \<Longrightarrow> list_all finite_float (ys @ xs) \<Longrightarrow>
   first_greatest (ys @ xs) (argmax_from k (length ys) (ys ! k) xs)"
proof (induction xs arbitrary: ys k)
  case (Cons x xs)
  have k: "k < length ys" using Cons.prems(1) by (simp add: first_greatest_def)
  then have "finite_float (ys ! k)" using Cons.prems(2) by (auto simp: list_all_iff)
  then have "ys ! k \<noteq> NotANumber" by (auto simp: finite_float_def)
  moreover have "first_greatest (ys @ [x]) (if float_le x (ys ! k) then k else length ys)"
    using Cons.prems by (intro first_greatest_snoc) auto
  ultimately show ?case
    using Cons.IH [of "ys @ [x]" "if float_le x (ys ! k) then k else length ys"] Cons.prems(2) k
    by (auto simp: nth_append split: if_splits)
qed simp

lemma argmax_greatest:
  assumes "xs \<noteq> []" "list_all finite_float xs"
  shows "first_greatest xs (argmax xs)"
proof -
  obtain x ys where xs: "xs = x # ys" using assms(1) by (cases xs) auto
  have "first_greatest [x] 0" using assms(2) finite_le(1) [of x] by (simp add: first_greatest_def xs)
  from argmax_from_greatest [OF this, of ys] assms(2) show ?thesis by (simp add: xs argmax_def)
qed

text \<open>
  The peak of the throughput chart. The annotation stands at the first interval whose API rate
  is the greatest, at that rate, and its text is that rate.
\<close>

theorem peak_annotation:
  assumes "rs \<noteq> []" "list_all finite_float (map fst rs)"
  shows "\<exists>k. first_greatest (map fst rs) k \<and>
    (\<exists>kw. Call ''ax'' ''annotate'' [VStr (peak_label (fst (rs ! k)))]
            ((''xy'', VTuple [VInt (int k * 10), VFloat (fst (rs ! k))]) # kw) \<in> set (draw_throughput dir rs))"
proof -
  have best: "first_greatest (map fst rs) (argmax (map fst rs))" using assms by (intro argmax_greatest) auto
  then have k: "argmax (map fst rs) < length rs" by (simp add: first_greatest_def)
  have "\<exists>kw. Call ''ax'' ''annotate'' [VStr (peak_label (fst (rs ! argmax (map fst rs))))]
      ((''xy'', VTuple [VInt (int (argmax (map fst rs)) * 10), VFloat (fst (rs ! argmax (map fst rs)))]) # kw)
      \<in> set (draw_throughput dir rs)"
    using k by (simp add: draw_throughput_def throughput_calls_def Let_def elapsed_steps)
  with best show ?thesis by blast
qed

theorem peak_annotation_witness:
  "\<exists>kw. Call ''ax'' ''annotate'' [VStr (peak_label (Finite 3))]
      ((''xy'', VTuple [VInt 10, VFloat (Finite 3)]) # kw)
      \<in> set (draw_throughput [] [(Finite 2, Finite 0, Finite 0), (Finite 3, Finite 0, Finite 0)])"
proof -
  let ?rs = "[(Finite 2, Finite 0, Finite 0), (Finite 3, Finite 0, Finite 0)]"
  obtain k where k: "first_greatest (map fst ?rs) k"
    "\<exists>kw. Call ''ax'' ''annotate'' [VStr (peak_label (fst (?rs ! k)))]
        ((''xy'', VTuple [VInt (int k * 10), VFloat (fst (?rs ! k))]) # kw) \<in> set (draw_throughput [] ?rs)"
    using peak_annotation [of ?rs "[]"] by (auto simp: finite_float_def)
  from k(1) have "k = 1"
    by (auto simp: first_greatest_def less_Suc_eq nth_Cons split: nat.splits)
  with k(2) show ?thesis by simp
qed

section \<open>The labels of the latency chart\<close>

text \<open>
  What matplotlib documents of \<open>bar\<close>: the bars have the heights they are given.
\<close>

definition bar_laws :: "plot_lib \<Rightarrow> bool" where
  "bar_laws lib \<longleftrightarrow>
     (\<forall>x vs w kw fs. traverse to_float vs = Inr fs \<longrightarrow>
        map rect_height (bars lib (Call ''ax'' ''bar'' [x, VList (map VJson vs), w] kw)) = fs)"

definition annotation_texts :: "plot_call list \<Rightarrow> pystr list" where
  "annotation_texts cs =
     List.map_filter (\<lambda>c. case c of Call _ m (VStr t # _) _ \<Rightarrow> if m = ''annotate'' then Some t else None | _ \<Rightarrow> None) cs"

definition ms_label :: "py_float \<Rightarrow> pystr" where
  "ms_label x = T (float_text 1 x) @ T ''ms''"

lemma annotation_texts_append [simp]: "annotation_texts (cs @ ds) = annotation_texts cs @ annotation_texts ds"
  by (simp add: annotation_texts_def map_filter_def)

lemma autolabel_texts:
  assumes "bar_laws lib" "traverse to_float vs = Inr fs"
  shows "annotation_texts (autolabel (bars lib (Call ''ax'' ''bar'' [x, VList (map VJson vs), w] kw)))
    = map ms_label (filter positive fs)"
proof -
  have "annotation_texts (autolabel rects) = map ms_label (filter positive (map rect_height rects))" for rects
    by (induction rects) (simp_all add: annotation_texts_def autolabel_def bar_label_def ms_label_def List.map_filter_simps)
  with assms show ?thesis by (simp add: bar_laws_def)
qed

lemmas latency_bars = latency_bar_api_def latency_bar_es_def latency_bar_engine_def latency_bar_redis_def

text \<open>
  The labels of the latency chart. When the sixteen percentiles are numbers, every positive one
  is labelled with its value to one digit and "ms", layer by layer (API, Elasticsearch, engine, Redis);
  a percentile of 0, as the Redis sink has below one millisecond, carries no label.
\<close>

theorem latency_labels:
  assumes "bar_laws lib"
    and "traverse to_float api = Inr api_ms" "traverse to_float redis = Inr redis_ms"
    and "traverse to_float es = Inr es_ms" "traverse to_float proc = Inr proc_ms"
  shows "annotation_texts (latency_calls (bars lib) dir api redis es proc)
    = map ms_label (filter positive (api_ms @ es_ms @ proc_ms @ redis_ms))"
proof -
  have titles: "annotation_texts (Call t m a k # cs) = annotation_texts cs" if "m \<noteq> ''annotate''" for t m a k cs
    using that by (simp add: annotation_texts_def List.map_filter_simps split: list.splits plot_val.splits)
  have none: "annotation_texts [] = []" by (simp add: annotation_texts_def List.map_filter_simps)
  show ?thesis
    unfolding latency_calls_def latency_bars
    by (simp add: titles none autolabel_texts [OF assms(1)] assms(2-5))
qed

definition exact_lib :: plot_lib where
  "exact_lib =
     \<lparr>refuses = (\<lambda>_ _. None),
      bars = (\<lambda>c. case c of
        Call _ _ [_, VList vs, _] _ \<Rightarrow>
          (case traverse (\<lambda>v. case v of VJson j \<Rightarrow> to_float j | _ \<Rightarrow> Inl TypeFailed) vs of
             Inl _ \<Rightarrow> [] | Inr fs \<Rightarrow> map (\<lambda>f. \<lparr>rect_x = 0, rect_width = 1, rect_height = f\<rparr>) fs)
      | _ \<Rightarrow> [])\<rparr>"

lemma exact_lib_laws: "bar_laws exact_lib"
proof -
  have "traverse (\<lambda>v. case v of VJson j \<Rightarrow> to_float j | _ \<Rightarrow> Inl TypeFailed) (map VJson vs) = traverse to_float vs" for vs
    by (induction vs) simp_all
  then show ?thesis by (simp add: bar_laws_def exact_lib_def comp_def)
qed

theorem latency_labels_witness:
  "annotation_texts (latency_calls (bars exact_lib) [] [PInt 35] [PInt 0] [PInt 12] [PInt 14])
     = map ms_label [Finite 35, Finite 12, Finite 14]"
proof -
  have f: "traverse to_float [PInt 35] = Inr [Finite 35]" "traverse to_float [PInt 0] = Inr [Finite 0]"
    "traverse to_float [PInt 12] = Inr [Finite 12]" "traverse to_float [PInt 14] = Inr [Finite 14]"
    by (simp_all add: to_float_def double_of_int_exact)
  show ?thesis unfolding latency_labels [OF exact_lib_laws f] by (simp add: positive_def)
qed

end
