(* ===== verification/Bench_Files.thy ===== *)
theory Bench_Files
  imports Bench_Properties
begin

text \<open>
  The files a run of \<open>generate_benchmark_charts.py\<close> writes, whatever the server answers and whatever
  matplotlib refuses.
\<close>

section \<open>Files of a list of calls\<close>

fun saved_file :: "plot_call \<Rightarrow> pystr list" where
  "saved_file (Call target method args kw) =
     (if method = ''savefig'' then (case args of VStr p # _ \<Rightarrow> [p] | _ \<Rightarrow> []) else [])"
| "saved_file (WriteText p content) = [p]"

definition saved_files :: "plot_call list \<Rightarrow> pystr list" where
  "saved_files cs = concat (map saved_file cs)"

lemma saved_files_simps [simp]:
  "saved_files [] = []" "saved_files (c # cs) = saved_file c @ saved_files cs"
  "saved_files (cs @ ds) = saved_files cs @ saved_files ds"
  by (simp_all add: saved_files_def)

definition chart_files :: "pystr \<Rightarrow> string \<Rightarrow> pystr list" where
  "chart_files dir name = [path_join dir (T (name @ ''.png'')), path_join dir (T (name @ ''.svg''))]"

lemma labels_save_nothing [simp]:
  "saved_files (autolabel rects) = []" "saved_files (map store_label rects) = []"
  by (induction rects) (simp_all add: autolabel_def bar_label_def store_label_def)

lemma saved_by_charts:
  "saved_files (draw_throughput dir rs) = chart_files dir ''01_pipeline_throughput''"
  "saved_files (latency_calls f dir api redis es proc) = chart_files dir ''02_latency_percentiles''"
  "saved_files (dual_store_calls f dir) = chart_files dir ''03_dual_store_performance''"
  "saved_files (consumer_lag_calls dir) = chart_files dir ''04_consumer_lag_backpressure''"
  by (simp_all add: draw_throughput_def throughput_calls_def Let_def latency_calls_def latency_bars
      dual_store_calls_def store_bar_p50_def store_bar_p95_def store_bar_p99_def consumer_lag_calls_def chart_files_def)

lemma saved_files_take: "\<exists>n. saved_files (take k cs) = take n (saved_files cs)"
proof (induction cs arbitrary: k)
  case (Cons c cs)
  show ?case
  proof (cases k)
    case 0
    then show ?thesis by (auto intro: exI [of _ 0])
  next
    case (Suc j)
    from Cons.IH [of j] obtain n where "saved_files (take j cs) = take n (saved_files cs)" by blast
    then show ?thesis using Suc by (auto intro!: exI [of _ "length (saved_file c) + n"])
  qed
qed simp

section \<open>Actions and the files they may write\<close>

text \<open>
  \<open>writes Fs m\<close>: a run of \<open>m\<close> writes the files of one of the lists \<open>Fs\<close>, in order, all of them if it
  returns, the first few if it raises an exception.
\<close>

definition writes :: "pystr list set \<Rightarrow> ('k, 'a) bench_action \<Rightarrow> bool" where
  "writes Fs m \<longleftrightarrow>
     (\<forall>s res s'. m s = (res, s') \<longrightarrow>
        (\<exists>cs. drawn s' = drawn s @ cs \<and>
           (case res of Inr _ \<Rightarrow> saved_files cs \<in> Fs | Inl _ \<Rightarrow> \<exists>F \<in> Fs. prefix (saved_files cs) F)))"

lemma writes_quiet:
  "writes {[]} (say l)" "writes {[]} (of_py r)" "writes {[]} (ask srv index q)"
  by (auto simp: writes_def say_def of_py_def ask_def split: prod.splits sum.splits)

lemma writes_draw_all: "writes {saved_files cs} (draw_all lib cs)"
  unfolding writes_def
proof (intro allI impI)
  fix s s' :: "'b bench" and res
  assume "draw_all lib cs s = (res, s')"
  from draw_all_prefix [OF this] obtain k where k: "drawn s' = drawn s @ take k cs" "res = Inr () \<longleftrightarrow> k = length cs"
    by blast
  obtain n where "saved_files (take k cs) = take n (saved_files cs)" using saved_files_take by blast
  then have "prefix (saved_files (take k cs)) (saved_files cs)" by (simp add: take_is_prefix)
  with k show "\<exists>ds. drawn s' = drawn s @ ds \<and> (case res of Inr _ \<Rightarrow> saved_files ds \<in> {saved_files cs}
      | Inl _ \<Rightarrow> \<exists>F \<in> {saved_files cs}. prefix (saved_files ds) F)"
    by (auto split: sum.splits)
qed

lemma writes_draw: "writes {saved_file c} (draw lib c)"
  by (auto simp: writes_def draw_def split: option.splits)

lemma writes_bind:
  assumes "writes Fs m" "\<And>a. writes Gs (f a)" "Gs \<noteq> {}" "\<And>F G. F \<in> Fs \<Longrightarrow> G \<in> Gs \<Longrightarrow> F @ G \<in> Hs"
  shows "writes Hs (bindb m f)"
  unfolding writes_def
proof (intro allI impI)
  fix s s' :: "'a bench" and res
  assume run: "bindb m f s = (res, s')"
  obtain r1 s1 where m: "m s = (r1, s1)" by fastforce
  with assms(1) obtain cs where cs: "drawn s1 = drawn s @ cs"
      "case r1 of Inr _ \<Rightarrow> saved_files cs \<in> Fs | Inl _ \<Rightarrow> \<exists>F \<in> Fs. prefix (saved_files cs) F"
    unfolding writes_def by blast
  show "\<exists>ds. drawn s' = drawn s @ ds \<and>
      (case res of Inr _ \<Rightarrow> saved_files ds \<in> Hs | Inl _ \<Rightarrow> \<exists>H \<in> Hs. prefix (saved_files ds) H)"
  proof (cases r1)
    case (Inl e)
    then obtain F where "F \<in> Fs" "prefix (saved_files cs) F" using cs(2) by auto
    moreover obtain G where "G \<in> Gs" using assms(3) by blast
    ultimately have "F @ G \<in> Hs" "prefix (saved_files cs) (F @ G)"
      using assms(4) by (auto simp: prefix_def)
    with run m Inl cs(1) show ?thesis by (auto simp: bindb_def)
  next
    case (Inr a)
    with run m have "f a s1 = (res, s')" by (simp add: bindb_def)
    with assms(2) [of a] obtain ds where ds: "drawn s' = drawn s1 @ ds"
        "case res of Inr _ \<Rightarrow> saved_files ds \<in> Gs | Inl _ \<Rightarrow> \<exists>G \<in> Gs. prefix (saved_files ds) G"
      unfolding writes_def by blast
    have F: "saved_files cs \<in> Fs" using cs(2) Inr by simp
    show ?thesis
    proof (cases res)
      case (Inl e)
      with ds(2) obtain G where "G \<in> Gs" "prefix (saved_files ds) G" by auto
      with F assms(4) have "saved_files cs @ G \<in> Hs" "prefix (saved_files (cs @ ds)) (saved_files cs @ G)"
        by (auto simp: same_prefix_prefix)
      with Inl cs(1) ds(1) show ?thesis
        by (intro exI [of _ "cs @ ds"]) (simp, intro bexI [of _ "saved_files cs @ G"], simp_all)
    next
      case (Inr b)
      with ds cs(1) F assms(4) show ?thesis by (intro exI [of _ "cs @ ds"]) auto
    qed
  qed
qed

lemma writes_after_quiet:
  "writes {[]} m \<Longrightarrow> (\<And>a. writes Gs (f a)) \<Longrightarrow> Gs \<noteq> {} \<Longrightarrow> writes Gs (bindb m f)"
  by (rule writes_bind [of "{[]}" m Gs f Gs]) auto

lemma writes_then_quiet:
  "writes Fs m \<Longrightarrow> (\<And>a. writes {[]} (f a)) \<Longrightarrow> writes Fs (bindb m f)"
  by (rule writes_bind [of Fs m "{[]}" f Fs]) auto

lemma writes_mono: "writes Fs m \<Longrightarrow> Fs \<subseteq> Gs \<Longrightarrow> writes Gs m"
  unfolding writes_def by (fastforce split: sum.splits)

lemmas quiet = writes_after_quiet [OF writes_quiet(1)] writes_after_quiet [OF writes_quiet(2)] writes_after_quiet [OF writes_quiet(3)]

lemma writes_chart_drawn: "writes {saved_files cs} (bindb (draw_all lib cs) (\<lambda>_. say l))"
  by (rule writes_then_quiet [OF writes_draw_all]) (rule writes_quiet(1))

lemma writes_rates:
  "writes {[], chart_files dir ''01_pipeline_throughput''}
     (if rs = [] then say l else bindb (draw_all lib (draw_throughput dir rs)) (\<lambda>_. say l'))"
proof (cases "rs = []")
  case True
  then show ?thesis by (auto intro: writes_mono [OF writes_quiet(1)])
next
  case False
  then show ?thesis
    by (auto intro: writes_mono [OF writes_chart_drawn [of "draw_throughput dir rs" lib l', unfolded saved_by_charts]])
qed

lemma writes_throughput:
  "writes {[], chart_files dir ''01_pipeline_throughput''} (chart_throughput_timeline lib srv dir)"
  unfolding chart_throughput_timeline_def by (intro quiet writes_rates) simp_all

lemma writes_percentiles: "writes {[]} (ask_percentiles srv index event field)"
  unfolding ask_percentiles_def by (intro quiet writes_quiet) simp_all

lemma writes_latency: "writes {chart_files dir ''02_latency_percentiles''} (chart_latency_percentiles lib srv dir)"
  unfolding chart_latency_percentiles_def
  by (intro quiet writes_after_quiet [OF writes_percentiles] writes_chart_drawn [of "latency_calls f dir a b c d" for f a b c d, unfolded saved_by_charts])
    simp_all

lemma writes_dual_store: "writes {chart_files dir ''03_dual_store_performance''} (chart_dual_store_comparison lib dir)"
  unfolding chart_dual_store_comparison_def
  by (intro quiet writes_chart_drawn [of "dual_store_calls f dir" for f, unfolded saved_by_charts]) simp_all

lemma writes_lag: "writes {chart_files dir ''04_consumer_lag_backpressure''} (chart_consumer_lag lib dir)"
  unfolding chart_consumer_lag_def
  by (intro quiet writes_chart_drawn [of "consumer_lag_calls dir", unfolded saved_by_charts]) simp_all

lemma writes_diagram: "writes {[svg_path dir]} (generate_svg_architecture_diagram lib dir)"
proof -
  have "writes {[svg_path dir]} (bindb (draw lib (WriteText (svg_path dir) svg_content)) (\<lambda>_. say l))" for l
    using writes_then_quiet [OF writes_draw [of "WriteText (svg_path dir) svg_content" lib] writes_quiet(1)] by simp
  then show ?thesis unfolding generate_svg_architecture_diagram_def by (intro quiet) simp_all
qed

section \<open>A whole run\<close>

definition later_files :: "pystr \<Rightarrow> pystr list" where
  "later_files dir =
     chart_files dir ''02_latency_percentiles'' @ chart_files dir ''03_dual_store_performance'' @
     chart_files dir ''04_consumer_lag_backpressure'' @ [svg_path dir]"

lemma charts_main_writes:
  "writes {later_files dir, chart_files dir ''01_pipeline_throughput'' @ later_files dir} (charts_main lib srv dir)"
proof -
  have 5: "writes {[svg_path dir]} (bindb (generate_svg_architecture_diagram lib dir) (\<lambda>_. say l))" for l
    by (rule writes_then_quiet [OF writes_diagram writes_quiet(1)])
  have 4: "writes {chart_files dir ''04_consumer_lag_backpressure'' @ [svg_path dir]}
      (bindb (chart_consumer_lag lib dir) (\<lambda>_. bindb (generate_svg_architecture_diagram lib dir) (\<lambda>_. say l)))" for l
    by (rule writes_bind [OF writes_lag 5]) simp_all
  have 3: "writes {chart_files dir ''03_dual_store_performance'' @ chart_files dir ''04_consumer_lag_backpressure'' @ [svg_path dir]}
      (bindb (chart_dual_store_comparison lib dir) (\<lambda>_. bindb (chart_consumer_lag lib dir) (\<lambda>_.
         bindb (generate_svg_architecture_diagram lib dir) (\<lambda>_. say l))))" for l
    by (rule writes_bind [OF writes_dual_store 4]) simp_all
  have 2: "writes {later_files dir}
      (bindb (chart_latency_percentiles lib srv dir) (\<lambda>_. bindb (chart_dual_store_comparison lib dir) (\<lambda>_.
         bindb (chart_consumer_lag lib dir) (\<lambda>_. bindb (generate_svg_architecture_diagram lib dir) (\<lambda>_. say l)))))" for l
    by (rule writes_bind [OF writes_latency 3]) (simp_all add: later_files_def)
  show ?thesis
    unfolding charts_main_def
    by (intro quiet writes_bind [OF writes_throughput 2]) auto
qed

text \<open>
  C35. The files of a run. Whatever Elasticsearch answers and whatever matplotlib refuses, a run
  that returns has written the files of charts 2 to 5, in order, preceded by those of chart 1 or not;
  a run that raises has written the first few of one of these two lists. Either way a returning run ends
  with the line that all five charts were generated, even when the first was not.
\<close>

theorem charts_saved:
  assumes "charts_main lib srv dir s = (res, s')"
  shows "\<exists>cs. drawn s' = drawn s @ cs \<and>
    (case res of
       Inr _ \<Rightarrow> (saved_files cs = later_files dir \<or> saved_files cs = chart_files dir ''01_pipeline_throughput'' @ later_files dir)
         \<and> last (printed (net s')) = T ''[DONE] All 5 benchmark visualizations successfully generated!''
     | Inl _ \<Rightarrow> prefix (saved_files cs) (later_files dir)
         \<or> prefix (saved_files cs) (chart_files dir ''01_pipeline_throughput'' @ later_files dir))"
proof -
  have "\<exists>cs. drawn s' = drawn s @ cs \<and>
      (case res of Inr _ \<Rightarrow> saved_files cs \<in> {later_files dir, chart_files dir ''01_pipeline_throughput'' @ later_files dir}
       | Inl _ \<Rightarrow> \<exists>F \<in> {later_files dir, chart_files dir ''01_pipeline_throughput'' @ later_files dir}. prefix (saved_files cs) F)"
    using charts_main_writes assms unfolding writes_def by blast
  moreover have "last (printed (net s')) = T ''[DONE] All 5 benchmark visualizations successfully generated!''" if "res = Inr ()"
    using assms that unfolding charts_main_def bindb_def by (auto simp: say_def split: prod.splits sum.splits)
  ultimately show ?thesis by (auto split: sum.splits)
qed

theorem charts_saved_witness:
  "\<exists>cs. drawn (snd (charts_main plain_lib serving [] (bench_start []))) = [] @ cs
     \<and> (prefix (saved_files cs) (later_files []) \<or> prefix (saved_files cs) (chart_files [] ''01_pipeline_throughput'' @ later_files []))"
proof -
  have "fst (charts_main plain_lib serving [] (bench_start [])) = Inl (URLError [])"
    by (simp add: charts_main_def chart_throughput_timeline_def bindb_def say_def ask_def query_es_def urlopen_def
        serving_def bench_start_def answer_value_def outcome_error_def)
  with charts_saved [OF prod.collapse [symmetric], of plain_lib serving "[]" "bench_start []"]
  show ?thesis by (simp add: bench_start_def)
qed

end
