(* ===== verification/Diagram_Check.thy ===== *)
theory Diagram_Check
  imports Bench_Diagram
begin

text \<open>
  The diagram \<open>generate_benchmark_charts.py\<close> writes is sound markup: a scanner for the part of XML it
  uses, applied to the text line by line.
\<close>

section \<open>Scanner\<close>

datatype markup =
    StartTag pystr
  | EmptyTag
  | EndTag pystr
  | Attribute pystr pystr

text \<open>Where the scanner is; names and values are collected in reverse.\<close>

datatype lexing =
    Chars
  | Entity pystr
  | Angle
  | Bang nat
  | Comment nat
  | TagName pystr
  | Inside
  | AttrName pystr
  | AttrEquals pystr
  | AttrValue pystr pystr
  | AfterValue
  | Slash
  | EndName pystr
  | Malformed

definition name_char :: "nat \<Rightarrow> bool" where
  "name_char c \<longleftrightarrow> (97 \<le> c \<and> c \<le> 122) \<or> (65 \<le> c \<and> c \<le> 90) \<or> (48 \<le> c \<and> c \<le> 57) \<or> c = 45"

definition entities :: "pystr list" where
  "entities = [T ''amp'', T ''lt'', T ''gt'', T ''quot'', T ''apos'']"

fun lex_step :: "lexing \<Rightarrow> nat \<Rightarrow> lexing \<times> markup list" where
  "lex_step Chars c = (if c = 60 then (Angle, []) else if c = 38 then (Entity [], []) else (Chars, []))"
| "lex_step (Entity n) c =
     (if name_char c then (Entity (c # n), [])
      else if c = 59 \<and> rev n \<in> set entities then (Chars, []) else (Malformed, []))"
| "lex_step Angle c =
     (if c = 47 then (EndName [], []) else if c = 33 then (Bang 0, [])
      else if name_char c then (TagName [c], []) else (Malformed, []))"
| "lex_step (Bang k) c = (if c = 45 then (if k = 0 then Bang 1 else Comment 0, []) else (Malformed, []))"
| "lex_step (Comment k) c =
     (if c = 45 then (if k = 2 then Malformed else Comment (k + 1), [])
      else if k = 2 then (if c = 62 then Chars else Malformed, []) else (Comment 0, []))"
| "lex_step (TagName n) c =
     (if name_char c then (TagName (c # n), [])
      else if c = 32 then (Inside, [StartTag (rev n)])
      else if c = 62 then (Chars, [StartTag (rev n)])
      else if c = 47 then (Slash, [StartTag (rev n)]) else (Malformed, []))"
| "lex_step Inside c =
     (if c = 32 then (Inside, []) else if c = 62 then (Chars, []) else if c = 47 then (Slash, [])
      else if name_char c then (AttrName [c], []) else (Malformed, []))"
| "lex_step (AttrName n) c =
     (if name_char c then (AttrName (c # n), []) else if c = 61 then (AttrEquals (rev n), []) else (Malformed, []))"
| "lex_step (AttrEquals n) c = (if c = 34 then (AttrValue n [], []) else (Malformed, []))"
| "lex_step (AttrValue n v) c =
     (if c = 34 then (AfterValue, [Attribute n (rev v)])
      else if c = 60 \<or> c = 38 then (Malformed, []) else (AttrValue n (c # v), []))"
| "lex_step AfterValue c =
     (if c = 32 then (Inside, []) else if c = 62 then (Chars, []) else if c = 47 then (Slash, []) else (Malformed, []))"
| "lex_step Slash c = (if c = 62 then (Chars, [EmptyTag]) else (Malformed, []))"
| "lex_step (EndName n) c =
     (if name_char c then (EndName (c # n), []) else if c = 62 then (Chars, [EndTag (rev n)]) else (Malformed, []))"
| "lex_step Malformed c = (Malformed, [])"

text \<open>The scanner collects what it finds, the last first.\<close>

fun collect :: "lexing \<times> markup list \<Rightarrow> markup list \<Rightarrow> lexing \<times> markup list" where
  "collect (m, es) acc = (m, es @ acc)"

fun lex :: "lexing \<times> markup list \<Rightarrow> pystr \<Rightarrow> lexing \<times> markup list" where
  "lex st [] = st"
| "lex (m, acc) (c # cs) = lex (collect (lex_step m c) acc) cs"

lemma lex_append: "lex st (xs @ ys) = lex (lex st xs) ys"
proof (induction xs arbitrary: st)
  case (Cons x xs)
  then show ?case by (cases st) simp
qed simp

lemma lex_acc: "lex (m, es @ acc) xs = (case lex (m, es) xs of (m', fs) \<Rightarrow> (m', fs @ acc))"
proof (induction xs arbitrary: m es)
  case (Cons x xs)
  obtain m' fs where "lex_step m x = (m', fs)" by fastforce
  with Cons.IH [of m' "fs @ es"] show ?case by simp
qed simp

section \<open>Sound markup\<close>

text \<open>
  The elements that are open, the identifiers defined so far. An element closes the innermost open
  one, an identifier is new, a reference \<open>url(#id)\<close> has been defined before; \<open>None\<close> otherwise.
\<close>

type_synonym elements = "pystr list \<times> pystr list"

definition url_reference :: "pystr \<Rightarrow> pystr option" where
  "url_reference v = (if take 5 v = T ''url(#'' then Some (butlast (drop 5 v)) else None)"

fun element :: "markup \<Rightarrow> elements \<Rightarrow> elements option" where
  "element (StartTag n) (open, ids) = Some (n # open, ids)"
| "element EmptyTag (open, ids) = (case open of [] \<Rightarrow> None | _ # rest \<Rightarrow> Some (rest, ids))"
| "element (EndTag n) (open, ids) =
     (case open of [] \<Rightarrow> None | m # rest \<Rightarrow> if m = n then Some (rest, ids) else None)"
| "element (Attribute n v) (open, ids) =
     (if n = T ''id'' then (if v \<in> set ids then None else Some (open, v # ids))
      else (case url_reference v of None \<Rightarrow> Some (open, ids)
            | Some i \<Rightarrow> if i \<in> set ids then Some (open, ids) else None))"

fun nesting :: "markup list \<Rightarrow> elements \<Rightarrow> elements option" where
  "nesting [] st = Some st"
| "nesting (e # es) st = (case element e st of None \<Rightarrow> None | Some st' \<Rightarrow> nesting es st')"

definition sound_markup :: "pystr \<Rightarrow> bool" where
  "sound_markup t \<longleftrightarrow>
     (case lex (Chars, []) t of (m, es) \<Rightarrow>
        m = Chars \<and> (case nesting (rev es) ([], []) of None \<Rightarrow> False | Some (open, _) \<Rightarrow> open = []))"

lemma nesting_append:
  "nesting (xs @ ys) st = (case nesting xs st of None \<Rightarrow> None | Some st' \<Rightarrow> nesting ys st')"
  by (induction xs arbitrary: st) (auto split: option.splits)

text \<open>The same line by line: every line of the diagram begins and ends between tags.\<close>

fun scan_lines :: "pystr list \<Rightarrow> elements \<Rightarrow> elements option"
and end_of_line :: "lexing \<times> markup list \<Rightarrow> pystr list \<Rightarrow> elements \<Rightarrow> elements option" where
  "scan_lines [] st = Some st"
| "scan_lines (l # ls) st = end_of_line (lex (Chars, []) l) ls st"
| "end_of_line (m, es) ls st =
     (if m = Chars then (case nesting (rev es) st of None \<Rightarrow> None | Some st' \<Rightarrow> scan_lines ls st') else None)"

lemma scan_lines_append:
  "scan_lines (ks @ ls) st = (case scan_lines ks st of None \<Rightarrow> None | Some st' \<Rightarrow> scan_lines ls st')"
proof (induction ks arbitrary: st)
  case (Cons k ks)
  then show ?case by (cases "lex (Chars, []) k") (auto split: option.splits)
qed simp

lemma scan_lines_text:
  "scan_lines ls st = Some st' \<Longrightarrow>
   \<exists>es. lex (Chars, []) (concat (map (\<lambda>l. l @ [10]) ls)) = (Chars, es) \<and> nesting (rev es) st = Some st'"
proof (induction ls arbitrary: st)
  case (Cons l ls)
  obtain m es where l: "lex (Chars, []) l = (m, es)" by fastforce
  with Cons.prems obtain st1 where 1: "m = Chars" "nesting (rev es) st = Some st1" "scan_lines ls st1 = Some st'"
    by (auto split: option.splits if_splits)
  from Cons.IH [OF 1(3)] obtain fs where
    "lex (Chars, []) (concat (map (\<lambda>l. l @ [10]) ls)) = (Chars, fs)" "nesting (rev fs) st1 = Some st'"
    by blast
  with l 1 lex_acc [of Chars "[]" es] show ?case by (simp add: lex_append nesting_append)
qed simp

lemma sound_if_scanned:
  "scan_lines ls ([], []) = Some ([], ids) \<Longrightarrow> sound_markup (concat (map (\<lambda>l. l @ [10]) ls))"
  by (auto simp: sound_markup_def dest!: scan_lines_text)

section \<open>The diagram\<close>

definition defined_ids :: "pystr list" where
  "defined_ids = [T ''shadow'', T ''cardGrad'', T ''purpleGrad'', T ''greenGrad'', T ''blueGrad'']"

definition within :: elements where
  "within = ([T ''svg''], defined_ids)"

lemmas scan_rules = within_def defined_ids_def ascii_Cons ascii_simps name_char_def entities_def url_reference_def

lemma scan_definitions: "scan_lines svg_definitions ([], []) = Some within"
  by (simp add: svg_definitions_def scan_rules)

lemma scan_resilience: "scan_lines svg_resilience within = Some ([], defined_ids)"
  by (simp add: svg_resilience_def scan_rules)

lemma scan_background: "scan_lines svg_background within = Some within"
  by (simp add: svg_background_def scan_rules)

lemma scan_title: "scan_lines svg_title within = Some within"
  by (simp add: svg_title_def scan_rules)

lemma scan_load_generator: "scan_lines svg_load_generator within = Some within"
  by (simp add: svg_load_generator_def scan_rules)

lemma scan_arrow_client: "scan_lines svg_arrow_client within = Some within"
  by (simp add: svg_arrow_client_def scan_rules)

lemma scan_postgres: "scan_lines svg_postgres within = Some within"
  by (simp add: svg_postgres_def scan_rules)

lemma scan_arrow_capture: "scan_lines svg_arrow_capture within = Some within"
  by (simp add: svg_arrow_capture_def scan_rules)

lemma scan_kafka: "scan_lines svg_kafka within = Some within"
  by (simp add: svg_kafka_def scan_rules)

lemma scan_branches: "scan_lines svg_branches within = Some within"
  by (simp add: svg_branches_def scan_rules)

lemma scan_redis: "scan_lines svg_redis within = Some within"
  by (simp add: svg_redis_def scan_rules)

lemma scan_elasticsearch: "scan_lines svg_elasticsearch within = Some within"
  by (simp add: svg_elasticsearch_def scan_rules)

lemma scan_notifier: "scan_lines svg_notifier within = Some within"
  by (simp add: svg_notifier_def scan_rules)

text \<open>
  C36. The architecture diagram is sound markup: every element it opens is closed, in order, every
  comment ends, every attribute value is quoted, every entity is one of the five of XML, no
  identifier is defined twice, and every \<open>url(#id)\<close> refers to a gradient or filter defined before.
\<close>

theorem diagram_sound: "sound_markup svg_content"
proof -
  have "scan_lines svg_lines ([], []) = Some ([], defined_ids)"
    by (simp add: svg_lines_def scan_lines_append scan_definitions scan_resilience scan_background scan_title scan_load_generator scan_arrow_client
        scan_postgres scan_arrow_capture scan_kafka scan_branches
        scan_redis scan_elasticsearch scan_notifier)
  then show ?thesis unfolding svg_content_def by (rule sound_if_scanned)
qed

end
