(* ===== verification/Spec2Isabelle.thy ===== *)
theory Spec2Isabelle
  imports Consumer_Properties Key_Expiry System_Properties Consumers_Main Log_Injection Traffic_Counts Metrics_Report
    Generator_Api Api_Process Push_Repo Bench_Files Diagram_Check
begin

text \<open>
  A verification library of the TransactFlow change-data-capture pipeline.

  The program. An order API (\<open>api/src\<close>) writes orders to PostgreSQL. Debezium turns every change of
  the table into a Kafka message. Three consumers (\<open>consumers/src\<close>), one thread each, read the topic:
  \<open>RedisUpdater\<close> keeps a cache of orders with a sequence-number guard, \<open>ESIndexer\<close> a search index,
  \<open>Notifier\<close> sends one e-mail per order and final status. All three inherit the consume loop of
  \<open>KafkaConsumerBase\<close>: decode, try with exponential backoff, dead-letter what fails, commit. The API
  serves reads from the cache and falls back to PostgreSQL. Every service logs JSON to Logstash
  (\<open>logstash/logstash.conf\<close>), which routes events to three indices; Python scripts (\<open>scripts/\<close>) set up
  the Kibana data views and dashboards over them, report on a soak test, draw the benchmark charts, and
  push the repository.

  Foundations.
    \<open>Cdc_Prelude\<close>: lemma collections, the result type \<open>string + 'a\<close> of code that may throw, generic facts.
    \<open>Decimal_Text\<close>: \<open>std::to_string\<close> and \<open>std::stoll\<close> on 64-bit words, with their round trip.
    \<open>Double_Rounding\<close>, \<open>Double_Division\<close>: integers to IEEE doubles (Lua's \<open>tonumber\<close>), Python's \<open>/\<close> and
    fixed-point formatting; exact up to \<open>2 ^ 53\<close>, monotone everywhere.
    \<open>Cpp_Json\<close>: \<open>nlohmann::json\<close> values and the accessors the C++ code uses, with what each throws.
    \<open>Py_Json\<close>, \<open>Py_Json_Roundtrip\<close>: Python values, \<open>json.dumps\<close> (compact and indented) and \<open>json.loads\<close>;
    reading inverts printing.
    \<open>Py_Http\<close>: \<open>urlopen\<close>, the exceptions of the scripts, the state of a run (lines printed, requests sent).
    \<open>Grid_Tiling\<close>: rectangles without overlap and with the area of their box tile it.

  The consumers.
    \<open>Order_Event\<close>: the reading of an event all three sinks repeat: \<open>after\<close>, \<open>before\<close>, union wrappers, the
    identifier (\<open>classify\<close>, \<open>unwrap\<close>, \<open>order_id_of\<close>), and \<open>ExtractLSN\<close>.
    \<open>Redis_Link\<close>: \<open>EnsureConnected\<close>, one command under a plan of connection outcomes and faults, the laws of
    Redis (\<open>redis_laws\<close>).
    \<open>Versioned_Cache\<close>: the abstract cache. \<open>Redis_Updater\<close>: \<open>ProcessRecord\<close>, both Lua scripts; refinement of the
    abstract cache, convergence over delivery orders, monotone guards, the precision of the guard.
    \<open>Notifier\<close>: \<open>ProcessRecord\<close>; at most one e-mail, exactly one on a healthy server, the lost e-mail.
    \<open>ES_Indexer\<close>: \<open>ProcessRecord\<close>; refinement of a map of documents, convergence under replay, divergence from
    the cache out of order.
    \<open>Key_Expiry\<close>: Redis with a clock: all keys live 86400 seconds; how far apart e-mails are then, and how the cache
    forgets its guard.
    \<open>Avro_Deserializer\<close>: \<open>Deserialize\<close>. \<open>Kafka_Consumer\<close>: \<open>Run\<close>, \<open>RouteToDLQ\<close> and the configuration, over
    any sink. \<open>Consumer_Trace\<close>, \<open>Consumer_Guarantees\<close>: what a retry run, a message, a run append to the trace
    of effects. \<open>Consumer_Properties\<close>: commit discipline, order of commits, stop, retry schedule, lost dead
    letters, the poison pill.
    \<open>Record_Sink\<close>: the contract of a sink as a locale (\<open>record_sink\<close>): an accepted record's effect is in the
    store and later records do not undo it; in it, that no committed message is lost silently. \<open>Sinks\<close>
    interprets it on the three sinks and reads off the result for each. A message is settled for a sink when its
    effect is in the store, when the producer has taken its dead letter, or when the log line right before its commit
    says that \<open>RouteToDLQ\<close> failed, which it does without a producer and when \<open>produce\<close> refuses.

  The pipeline as a whole.
    \<open>Consumer_Group\<close>: a consumer group on its partition as a step relation (\<open>group_step\<close>): messages handled,
    commits that may not take effect, exceptions that end the thread, stops, restarts at the saved offset,
    changes of the world in between. The locale \<open>durable_sink\<close> extends \<open>record_sink\<close> by what survives a
    restart: everything below the saved offset is settled.
    \<open>Group_Replay\<close>: in which order records reach a sink (\<open>walk\<close>); the locale \<open>applied_sink\<close> for sinks that
    apply idempotent updates: their content is the fold of the updates along a walk.
    \<open>Sink_Replay\<close>: the interpretations on the three sinks, and that \<open>RedisUpdater\<close> and \<open>Notifier\<close> keep to
    their own keys of the one server. \<open>Pipeline\<close>: topic and groups together (\<open>pipeline_step\<close>, \<open>reachable\<close>), the
    invariants by rule induction. \<open>Pipeline_Properties\<close>: both stores converge to the table the topic tells,
    they can always catch up, nothing committed is lost in silence, one e-mail per order and status. Producers may be
    missing and may refuse, from the start and after every restart.
    \<open>Pipeline_Reads\<close>: a \<open>GET\<close> of the API then answers with the row of the table.

  The API.
    \<open>Order_Api\<close>: \<open>generate_uuid\<close>, \<open>DatabaseClient\<close> with the SQL it sends, \<open>RedisClient::Get\<close>, the three handlers
    of \<open>ApiServer\<close> with status, body, log and the exceptions that reach each \<open>catch\<close>.
    \<open>Order_Api_Properties\<close>: identifiers are version 4 UUIDs, when a quoted statement means what it says.
    \<open>Cache_Aside\<close>: what the status of a \<open>POST\<close> tells, reads after deliveries to the Redis sink, the loss of the
    cache connection.
    \<open>Load_Generator\<close>: the turns of a worker. \<open>Generator_Api\<close>: the routes of \<open>ApiServer\<close>, and the workers at work on it,
    interleaved request by request with each other and with other clients, answers lost or not: the orders they
    remember exist, and no request of theirs is refused. There and in the system below no client puts a quotation mark into
    a statement; \<open>Order_Api_Properties\<close> says what one does.

  The system. \<open>Order_Store\<close>: PostgreSQL as the API and Debezium rely on it, the table and its log, as laws of the
  statements of \<open>database_client.cpp\<close>, and what the handlers keep of them. \<open>Change_Capture\<close>: the messages Debezium
  publishes for the log, with repetitions, and what a topic filled from it tells the consumers; the hypotheses
  of the pipeline's properties (plain, well-formed, newest last) follow. \<open>Whole_System\<close>: API, change capture and
  consumers over one database, one topic and one Redis (\<open>system_step\<close>, \<open>running_system\<close>), the invariant, and how
  everything can catch up. \<open>System_Properties\<close>: the stores converge to the database, an accepted \<open>POST\<close> or
  \<open>PATCH\<close> arrives in the index and in what a \<open>GET\<close> answers. \<open>System_Sample\<close>: a world that obeys the laws.

  The processes. \<open>Startup\<close>: the readiness loop of both \<open>main\<close>s. \<open>Service_Parts\<close>: the constructors it calls, with
  the settings of librdkafka. \<open>Service_Main\<close>: environment, loggers, and exactly when each service starts, aborts,
  ends with a code, or ends with a code only if the destructor of the load generator can still log.
  \<open>Consumers_Main\<close>: the threads of the consumers, the signal handler and the main thread, interleaved: what a
  crash, an early and a late shutdown do. \<open>Api_Process\<close>: the API from the signal to its end (\<open>signal_handler\<close>,
  \<open>LoadGenerator::Stop\<close>, its destructor), beside the workers and the threads that serve requests.

  Logs and scripts.
    \<open>Log_Formats\<close>: the pattern of the loggers and every log statement that reaches Logstash as an event, as it is written; the laws of fmt and
    spdlog. \<open>Log_Routing\<close>: flattening, coercion and index of an event in Logstash. \<open>Log_Line\<close>, \<open>Log_Events\<close>: a
    statement with clean arguments is a JSON line, read back and indexed as the event it is. \<open>Log_Injection\<close>:
    what a quotation mark does to a line, and how a client forges an event.
    \<open>Traffic_Counts\<close>: what the card "Total Orders Ingested" counts.
    \<open>Kibana_Api\<close>, \<open>Kibana_Cards\<close>, \<open>Kibana_Figures\<close>, \<open>Kibana_Tables\<close>, \<open>Kibana_Dashboard\<close>: \<open>create_saved_object\<close> and
    every object \<open>build_full_kibana_dashboard.py\<close> posts; \<open>setup_kibana.py\<close> is in \<open>Kibana_Api\<close>,
    \<open>update_kibana_dashboard.py\<close> in \<open>Kibana_Update\<close>. \<open>Kibana_Checks\<close>, \<open>Kibana_Properties\<close>, \<open>Kibana_Sources\<close>: bodies
    decode to their payloads, panels tile the grid and resolve, data comes from views that exist, order of
    the requests.
    \<open>Es_Query\<close>: \<open>query_es\<close> and Python subscripts. \<open>Soak_Status\<close>: \<open>check_soak_status.py\<close>.
    \<open>Metrics_Report\<close>: \<open>test_metrics.py\<close>.
    \<open>Plot_Api\<close>, \<open>Bench_Figures\<close>, \<open>Bench_Diagram\<close>, \<open>Bench_Charts\<close>: \<open>generate_benchmark_charts.py\<close> as the calls it
    makes on matplotlib. \<open>Bench_Properties\<close>, \<open>Bench_Files\<close>, \<open>Diagram_Check\<close>: the series drawn, the files
    written, the soundness of the SVG text.
    \<open>Push_Repo\<close>: \<open>push_repo.py\<close>.

  Correspondence. An object's fields are a record passed along and returned updated: the client handle and
  the server of a sink (\<open>redis_client\<close>), the trace of a consumer (\<open>consumer\<close>), the lines and requests of a
  script. An exception is \<open>Inl\<close> of what is thrown; every \<open>catch\<close> and early return is a branch. 64-bit
  integers are words; Python integers are unbounded; strings of C++ are bytes, those of Python are lists of
  code points. Loops over a list recurse on it. What lies outside (Kafka, Redis, Elasticsearch, PostgreSQL,
  Kibana, the clock, random numbers, printers of doubles, the shell, matplotlib) is a parameter, with its
  documented laws as named hypotheses (\<open>redis_laws\<close>, \<open>es_laws\<close> and others), each instantiated by a concrete
  function in the witnesses. What fails, and when, is an input: plans of connection and command outcomes,
  lists of poll results and answers.

  Fuel and bounds. The JSON reader takes fuel; twice the length of the text and one suffices
  (\<open>loads_fuel\<close>, \<open>scan_enough\<close>). The retry loop ends by a measure on the attempts left, the readiness loop after
  at most 20. \<open>Run\<close> is taken over a finite list of poll results: liveness is that it returns within the polls
  after \<open>Stop\<close>. Doubles have an unbounded exponent and no negative zero: the numbers that occur are counts
  and sequence numbers below \<open>2 ^ 64\<close>. Printed rates are proved exact for counts below \<open>2 ^ 52\<close>.

  Granularity. A step of the pipeline handles one message, retries included. Redis runs each command and
  script atomically and the clients write disjoint keys, so an interleaving inside a message comes to the
  same. A process killed inside a message is a stop after some of its attempts, followed by a restart. The
  topic has one partition; two members of one group at work on the same partition are not modelled, nor is a
  request to Elasticsearch that takes effect after a later one.

  Not modelled.
    The latencies in log lines (their values are arguments), the console lines of the loggers, and a dead letter on
    its way: \<open>Produced\<close> is that \<open>produce\<close> took the message into the queue of the producer; \<open>flush(1000)\<close> is an effect of the
    trace, but its result is ignored by the code, and a message lost after it (\<open>message.timeout.ms\<close> is 5000) still
    counts as dead-lettered. That the system can start the threads the API asks for.
    In \<open>Api_Process\<close> a turn of a worker is a begin and a log line, one signal comes, and the main thread handles it
    (Linux prefers it); a handler on another thread would find the logger or itself locked. The passes of the
    consumers in \<open>Consumers_Main\<close> are a parameter; where \<open>Stop\<close> takes effect inside a pass is an input of
    \<open>run\<close> (\<open>read_running\<close>). Requests to the API are taken one after the other: each makes one statement, and the
    clients it shares are guarded by mutexes.
    Expiry of keys during a run of the pipeline: its properties hold while the keys live, \<open>Key_Expiry\<close> says what
    happens then.
    The Docker, Debezium and PostgreSQL configuration, \<open>register-connector.sh\<close> and \<open>test_insert.sql\<close>
    (configuration of other services), \<open>test_matplotlib.py\<close> (three calls that try an installation).
\<close>

end
